theory Spec2Isabelle
  imports Complex_Main "HOL-Library.Word"
begin

unbundle bit_operations_syntax

section \<open>JavaScript \<open>Map\<close> as an insertion-ordered association list\<close>

text \<open>
  A JavaScript \<open>Map\<close> keeps its entries in insertion order, \<open>set\<close> on a present key
  replaces the value in place and \<open>set\<close> on an absent key appends the entry.
  The keys of a map are pairwise different.
\<close>

type_synonym ('k, 'v) js_map = "('k \<times> 'v) list"

definition map_has :: "('k, 'v) js_map \<Rightarrow> 'k \<Rightarrow> bool" where
  "map_has m k = (map_of m k \<noteq> None)"

definition map_get :: "('k, 'v) js_map \<Rightarrow> 'k \<Rightarrow> 'v option" where
  "map_get m k = map_of m k"

fun map_set :: "'k \<Rightarrow> 'v \<Rightarrow> ('k, 'v) js_map \<Rightarrow> ('k, 'v) js_map" where
  "map_set k v [] = [(k, v)]"
| "map_set k v (e # m) = (if fst e = k then (k, v) # m else e # map_set k v m)"

definition map_delete :: "'k \<Rightarrow> ('k, 'v) js_map \<Rightarrow> ('k, 'v) js_map" where
  "map_delete k m = filter (\<lambda>e. fst e \<noteq> k) m"

definition map_size :: "('k, 'v) js_map \<Rightarrow> nat" where
  "map_size m = length m"

section \<open>Duplicate detection (\<open>utils/duplicateDetection.ts\<close>)\<close>

definition CACHE_EXPIRATION_MS :: int where
  "CACHE_EXPIRATION_MS = 300000"

definition MAX_CACHE_ENTRIES :: nat where
  "MAX_CACHE_ENTRIES = 1000"

record DuplicateDetector =
  cache :: "(string, int) js_map"

definition newDuplicateDetector :: DuplicateDetector where
  "newDuplicateDetector = \<lparr>cache = []\<rparr>"

definition isDuplicate :: "DuplicateDetector \<Rightarrow> string \<Rightarrow> bool" where
  "isDuplicate d messageId = map_has (cache d) messageId"

text \<open>
  The loop of \<open>pruneCache\<close>: it walks the entries of the cache and deletes from the
  cache every entry whose timestamp is below the threshold.
\<close>

fun pruneLoop :: "int \<Rightarrow> (string \<times> int) list \<Rightarrow> (string, int) js_map \<Rightarrow> (string, int) js_map" where
  "pruneLoop expirationThreshold [] m = m"
| "pruneLoop expirationThreshold ((messageId, timestamp) # rest) m =
     pruneLoop expirationThreshold rest
       (if timestamp < expirationThreshold then map_delete messageId m else m)"

text \<open>\<open>pruneCache\<close> reads the clock once; \<open>now\<close> is that reading of \<open>Date.now()\<close>.\<close>

definition pruneCache :: "int \<Rightarrow> DuplicateDetector \<Rightarrow> DuplicateDetector" where
  "pruneCache now d =
     (let expirationThreshold = now - CACHE_EXPIRATION_MS
      in d\<lparr>cache := pruneLoop expirationThreshold (cache d) (cache d)\<rparr>)"

text \<open>
  \<open>markAsProcessed\<close> reads the clock itself (\<open>now_set\<close>) and then calls \<open>pruneCache\<close>,
  which reads it again (\<open>now_prune\<close>).
\<close>

definition markAsProcessed :: "string \<Rightarrow> int \<Rightarrow> int \<Rightarrow> DuplicateDetector \<Rightarrow> DuplicateDetector" where
  "markAsProcessed messageId now_set now_prune d =
     pruneCache now_prune (d\<lparr>cache := map_set messageId now_set (cache d)\<rparr>)"

definition getCacheSize :: "DuplicateDetector \<Rightarrow> nat" where
  "getCacheSize d = map_size (cache d)"

definition clearCache :: "DuplicateDetector \<Rightarrow> DuplicateDetector" where
  "clearCache d = d\<lparr>cache := []\<rparr>"

section \<open>Message envelope codec (\<open>utils/messageEnvelope.ts\<close>)\<close>

type_synonym byte = "8 word"
type_synonym bytes = "byte list"

definition MESSAGE_ENVELOPE_VERSION :: int where
  "MESSAGE_ENVELOPE_VERSION = 1"

text \<open>
  The fields of the TypeScript interface. \<open>version\<close> and \<open>ttl\<close> are JavaScript numbers
  that the validation requires to be integers, so they are integers here; \<open>timestamp\<close> is a
  finite JavaScript number that need not be an integer, here a rational. Strings are lists of
  8-bit characters, which covers every code unit up to 255.
\<close>

record MessageEnvelope =
  version :: int
  messageId :: string
  senderId :: string
  recipientId :: string
  timestamp :: rat
  ttl :: int
  encryptedPayload :: bytes
  nonce :: bytes
  tag :: bytes

record EncryptedMessage =
  ciphertext :: bytes
  enc_nonce :: bytes
  enc_tag :: bytes

text \<open>One constructor for each \<open>EnvelopeError\<close> that the module throws.\<close>

datatype EnvelopeError =
    InvalidMessageId
  | InvalidSenderId
  | InvalidRecipientId
  | InvalidTimestampArg
  | InvalidTTLArg
  | InvalidVersion
  | InvalidTTL
  | MissingMessageId
  | MissingSenderId
  | MissingRecipientId
  | MissingTimestamp
  | EmptyNonce
  | EmptyTag
  | EmptyPayload
  | InvalidMessageIdFormat
  | SerializationFailed
  | DataTooShort
  | UnsupportedVersion
  | InvalidNonceLength
  | NonceBeyondData
  | MissingTagLength
  | InvalidTagLength
  | TagBeyondData
  | MissingPayloadLength
  | InvalidPayloadLength
  | PayloadLengthMismatch

definition createEnvelope ::
  "EncryptedMessage \<Rightarrow> string \<Rightarrow> string \<Rightarrow> string \<Rightarrow> rat \<Rightarrow> int \<Rightarrow> EnvelopeError + MessageEnvelope" where
  "createEnvelope encrypted messageId' senderId' recipientId' timestamp' ttl' =
     (if messageId' = [] then Inl InvalidMessageId
      else if length senderId' \<noteq> 16 then Inl InvalidSenderId
      else if length recipientId' \<noteq> 16 then Inl InvalidRecipientId
      else if timestamp' \<le> 0 then Inl InvalidTimestampArg
      else if ttl' < 0 \<or> ttl' > 255 then Inl InvalidTTLArg
      else Inr \<lparr>version = MESSAGE_ENVELOPE_VERSION, messageId = messageId',
                senderId = senderId', recipientId = recipientId', timestamp = timestamp',
                ttl = ttl', encryptedPayload = ciphertext encrypted,
                nonce = enc_nonce encrypted, tag = enc_tag encrypted\<rparr>)"

definition validateEnvelope :: "MessageEnvelope \<Rightarrow> EnvelopeError + bool" where
  "validateEnvelope envelope =
     (if version envelope \<noteq> MESSAGE_ENVELOPE_VERSION then Inl InvalidVersion
      else if ttl envelope < 0 \<or> ttl envelope > 255 then Inl InvalidTTL
      else if messageId envelope = [] then Inl MissingMessageId
      else if senderId envelope = [] then Inl MissingSenderId
      else if recipientId envelope = [] then Inl MissingRecipientId
      else if timestamp envelope \<le> 0 then Inl MissingTimestamp
      else if nonce envelope = [] then Inl EmptyNonce
      else if tag envelope = [] then Inl EmptyTag
      else if encryptedPayload envelope = [] then Inl EmptyPayload
      else Inr True)"

subsection \<open>Hexadecimal text\<close>

definition hexDigitValue :: "char \<Rightarrow> nat option" where
  "hexDigitValue c =
     (let n = (of_char c :: nat)
      in if 48 \<le> n \<and> n \<le> 57 then Some (n - 48)
         else if 97 \<le> n \<and> n \<le> 102 then Some (n - 87)
         else if 65 \<le> n \<and> n \<le> 70 then Some (n - 55)
         else None)"

definition isStrWhiteSpace :: "char \<Rightarrow> bool" where
  "isStrWhiteSpace c = ((of_char c :: nat) \<in> {9, 10, 11, 12, 13, 32, 160})"

text \<open>The longest prefix of hexadecimal digits; \<open>None\<close> when there is no digit.\<close>

fun parseDigits :: "string \<Rightarrow> nat option \<Rightarrow> nat option" where
  "parseDigits [] acc = acc"
| "parseDigits (c # cs) acc =
     (case hexDigitValue c of
        None \<Rightarrow> acc
      | Some d \<Rightarrow> parseDigits cs (Some (16 * (case acc of None \<Rightarrow> 0 | Some a \<Rightarrow> a) + d)))"

text \<open>
  \<open>parseInt(s, 16)\<close>: leading white space is skipped, a sign is read, a prefix \<open>0x\<close> or
  \<open>0X\<close> is dropped, and the digits up to the first other character are the value.
  \<open>None\<close> is \<open>NaN\<close>.
\<close>

definition parseInt16 :: "string \<Rightarrow> int option" where
  "parseInt16 s =
     (let s1 = dropWhile isStrWhiteSpace s;
          sign = (case s1 of c # cs \<Rightarrow> if c = CHR ''-'' then - 1 else 1 | [] \<Rightarrow> (1 :: int));
          s2 = (case s1 of c # cs \<Rightarrow> if c = CHR ''-'' \<or> c = CHR ''+'' then cs else s1 | [] \<Rightarrow> s1);
          s3 = (case s2 of
                  c1 # c2 # cs \<Rightarrow>
                    if c1 = CHR ''0'' \<and> (c2 = CHR ''x'' \<or> c2 = CHR ''X'') then cs else s2
                | _ \<Rightarrow> s2)
      in map_option (\<lambda>n. sign * int n) (parseDigits s3 None))"

text \<open>Storing a number into a \<open>Uint8Array\<close>: \<open>NaN\<close> becomes 0, an integer is taken modulo 256.\<close>

definition toUint8 :: "int option \<Rightarrow> byte" where
  "toUint8 v = (case v of None \<Rightarrow> 0 | Some n \<Rightarrow> word_of_int n)"

definition substr :: "'a list \<Rightarrow> nat \<Rightarrow> nat \<Rightarrow> 'a list" where
  "substr s start len = take len (drop start s)"

definition slice :: "'a list \<Rightarrow> nat \<Rightarrow> nat \<Rightarrow> 'a list" where
  "slice xs start end = take (end - start) (drop start xs)"

text \<open>The loops \<open>for (i = 0; i < n; i++) bytes[i] = parseInt(hex.substr(i * 2, 2), 16)\<close>.\<close>

definition hexToBytes :: "nat \<Rightarrow> string \<Rightarrow> bytes" where
  "hexToBytes n hex = map (\<lambda>i. toUint8 (parseInt16 (substr hex (i * 2) 2))) [0..<n]"

definition hexDigit :: "nat \<Rightarrow> char" where
  "hexDigit d = ''0123456789abcdef'' ! d"

definition toString16 :: "byte \<Rightarrow> string" where
  "toString16 b =
     (if unat b < 16 then [hexDigit (unat b)]
      else [hexDigit (unat b div 16), hexDigit (unat b mod 16)])"

definition padStart2 :: "string \<Rightarrow> string" where
  "padStart2 s = replicate (2 - length s) CHR ''0'' @ s"

definition bytesToHex :: "bytes \<Rightarrow> string" where
  "bytesToHex bs = concat (map (\<lambda>b. padStart2 (toString16 b)) bs)"

definition formatUUID :: "string \<Rightarrow> string" where
  "formatUUID hex =
     substr hex 0 8 @ ''-'' @ substr hex 8 4 @ ''-'' @ substr hex 12 4 @ ''-'' @
     substr hex 16 4 @ ''-'' @ substr hex 20 12"

subsection \<open>Big-endian integers\<close>

text \<open>
  \<open>be_bytes k n\<close> is what \<open>setUint16\<close>, \<open>setUint32\<close> and \<open>setBigUint64\<close> write for
  \<open>k\<close> = 2, 4, 8: the low \<open>k\<close> bytes of \<open>n\<close>, most significant first.
\<close>

fun be_bytes :: "nat \<Rightarrow> nat \<Rightarrow> bytes" where
  "be_bytes 0 n = []"
| "be_bytes (Suc k) n = of_nat (n div 256 ^ k) # be_bytes k n"

definition be_value :: "bytes \<Rightarrow> nat" where
  "be_value bs = foldl (\<lambda>acc b. acc * 256 + unat b) 0 bs"

fun bitlen :: "nat \<Rightarrow> nat" where
  "bitlen n = (if n = 0 then 0 else Suc (bitlen (n div 2)))"

declare bitlen.simps [simp del]

text \<open>
  \<open>Number(b)\<close> for a non-negative BigInt: the nearest double, ties to the even
  significand. Integers of at most 53 bits are exact.
\<close>

definition numberOfBigInt :: "nat \<Rightarrow> nat" where
  "numberOfBigInt n =
     (if bitlen n \<le> 53 then n
      else let sh = bitlen n - 53; q = n div 2 ^ sh; r = n mod 2 ^ sh; half = 2 ^ (sh - 1)
           in if r > half \<or> (r = half \<and> odd q) then (q + 1) * 2 ^ sh else q * 2 ^ sh)"

subsection \<open>Serialization\<close>

definition serializeEnvelope :: "MessageEnvelope \<Rightarrow> EnvelopeError + bytes" where
  "serializeEnvelope envelope =
     (case validateEnvelope envelope of
        Inl err \<Rightarrow> Inl err
      | Inr _ \<Rightarrow>
          let messageIdHex = filter (\<lambda>c. c \<noteq> CHR ''-'') (messageId envelope)
          in if length messageIdHex \<noteq> 32 then Inl InvalidMessageIdFormat
             else if length (senderId envelope) \<noteq> 16 then Inl InvalidSenderId
             else if length (recipientId envelope) \<noteq> 16 then Inl InvalidRecipientId
             else if of_int \<lfloor>timestamp envelope\<rfloor> \<noteq> timestamp envelope then Inl SerializationFailed
             else Inr ([word_of_int (version envelope)]
                       @ hexToBytes 16 messageIdHex
                       @ hexToBytes 8 (senderId envelope)
                       @ hexToBytes 8 (recipientId envelope)
                       @ be_bytes 8 (nat \<lfloor>timestamp envelope\<rfloor>)
                       @ [word_of_int (ttl envelope)]
                       @ be_bytes 2 (length (nonce envelope))
                       @ nonce envelope
                       @ be_bytes 2 (length (tag envelope))
                       @ tag envelope
                       @ be_bytes 4 (length (encryptedPayload envelope))
                       @ encryptedPayload envelope))"

definition deserializeEnvelope :: "bytes \<Rightarrow> EnvelopeError + MessageEnvelope" where
  "deserializeEnvelope data =
     (if length data < 50 then Inl DataTooShort
      else if uint (data ! 0) \<noteq> MESSAGE_ENVELOPE_VERSION then Inl UnsupportedVersion
      else
        let nonceLength = be_value (slice data 42 44) in
        if nonceLength > 1024 then Inl InvalidNonceLength
        else if 44 + nonceLength > length data then Inl NonceBeyondData
        else
          let offset = 44 + nonceLength in
          if offset + 2 > length data then Inl MissingTagLength
          else
            let tagLength = be_value (slice data offset (offset + 2));
                offset = offset + 2 in
            if tagLength > 1024 then Inl InvalidTagLength
            else if offset + tagLength > length data then Inl TagBeyondData
            else
              let offset' = offset + tagLength in
              if offset' + 4 > length data then Inl MissingPayloadLength
              else
                let payloadLength = be_value (slice data offset' (offset' + 4));
                    offset'' = offset' + 4 in
                if payloadLength > 10 * 1024 * 1024 then Inl InvalidPayloadLength
                else if offset'' + payloadLength \<noteq> length data then Inl PayloadLengthMismatch
                else
                  let envelope =
                    \<lparr>version = uint (data ! 0),
                     messageId = formatUUID (bytesToHex (slice data 1 17)),
                     senderId = bytesToHex (slice data 17 25),
                     recipientId = bytesToHex (slice data 25 33),
                     timestamp = of_nat (numberOfBigInt (be_value (slice data 33 41))),
                     ttl = uint (data ! 41),
                     encryptedPayload = slice data offset'' (offset'' + payloadLength),
                     nonce = slice data 44 (44 + nonceLength),
                     tag = slice data offset (offset + tagLength)\<rparr>
                  in case validateEnvelope envelope of
                       Inl err \<Rightarrow> Inl err
                     | Inr _ \<Rightarrow> Inr envelope)"

subsection \<open>Canonical forms of the identifiers\<close>

text \<open>
  The deserializer writes identifiers in lower-case hexadecimal and the message id in the
  hyphenated 8-4-4-4-12 form. \<open>isExactDouble n\<close> says that the integer \<open>n\<close> is a double,
  as every integer-valued JavaScript number is.
\<close>

definition isLowerHex :: "char \<Rightarrow> bool" where
  "isLowerHex c = (c \<in> set ''0123456789abcdef'')"

definition isLowerHexString :: "nat \<Rightarrow> string \<Rightarrow> bool" where
  "isLowerHexString n s = (length s = n \<and> list_all isLowerHex s)"

definition isCanonicalUUID :: "string \<Rightarrow> bool" where
  "isCanonicalUUID s =
     (let hex = filter (\<lambda>c. c \<noteq> CHR ''-'') s
      in isLowerHexString 32 hex \<and> s = formatUUID hex)"

definition isExactDouble :: "nat \<Rightarrow> bool" where
  "isExactDouble n = (n mod 2 ^ (bitlen n - 53) = 0)"

definition sample_envelope :: MessageEnvelope where
  "sample_envelope =
     \<lparr>version = 1, messageId = ''550e8400-e29b-41d4-a716-446655440000'',
      senderId = ''a1b2c3d4e5f60718'', recipientId = ''0011223344556677'',
      timestamp = 1700000000000, ttl = 10, encryptedPayload = [1, 2, 3],
      nonce = [9, 8, 7, 6, 5, 4, 3, 2, 1, 0, 9, 8, 7, 6, 5, 4, 3, 2, 1, 0, 9, 8, 7, 6],
      tag = [7, 7, 7, 7, 7, 7, 7, 7, 7, 7, 7, 7, 7, 7, 7, 7]\<rparr>"

definition sample_bytes :: bytes where
  "sample_bytes =
     [1, 85, 14, 132, 0, 226, 155, 65, 212, 167, 22, 68, 102, 85, 68, 0, 0,
      161, 178, 195, 212, 229, 246, 7, 24, 0, 17, 34, 51, 68, 85, 102, 119,
      0, 0, 1, 139, 207, 229, 104, 0, 10, 0, 24, 9, 8, 7, 6, 5, 4, 3, 2, 1,
      0, 9, 8, 7, 6, 5, 4, 3, 2, 1, 0, 9, 8, 7, 6, 0, 16, 7, 7, 7, 7, 7, 7,
      7, 7, 7, 7, 7, 7, 7, 7, 7, 7, 0, 0, 0, 3, 1, 2, 3]"

section \<open>Data of the application (\<open>context/types.ts\<close>, \<open>utils/constants.ts\<close>)\<close>

text \<open>A JavaScript string that holds message text: its UTF-16 code units.\<close>

type_synonym jsstring = "16 word list"

record Peer =
  peer_id :: string
  publicKey :: "bytes option"
  sharedSecret :: "bytes option"
  peer_name :: string
  connected :: bool
  verified :: bool
  rssi :: int
  lastSeen :: int

record Message =
  msg_id :: string
  peerId :: string
  msg_text :: jsstring
  msg_timestamp :: rat
  sent :: bool
  delivered :: bool
  failed :: bool

datatype MessageStatus = Delivered | Failed

definition MAX_MESSAGE_LENGTH :: nat where
  "MAX_MESSAGE_LENGTH = 500"

definition INITIAL_MESSAGE_TTL :: int where
  "INITIAL_MESSAGE_TTL = 10"

definition MAX_SEND_RETRIES :: nat where
  "MAX_SEND_RETRIES = 3"

definition RETRY_BASE_DELAY_MS :: int where
  "RETRY_BASE_DELAY_MS = 1000"

definition STORAGE_KEY_MESSAGES_PREFIX :: string where
  "STORAGE_KEY_MESSAGES_PREFIX = ''@emergency_chat:messages:''"

definition FINGERPRINT_LENGTH :: nat where
  "FINGERPRINT_LENGTH = 32"

text \<open>
  The length of a text in Unicode code points, the measure the specification names: a high
  surrogate followed by a low surrogate is one code point, every other code unit is one.
  The code itself measures \<open>text.length\<close>, the number of code units.
\<close>

definition isHighSurrogate :: "16 word \<Rightarrow> bool" where
  "isHighSurrogate u = (0xD800 \<le> u \<and> u \<le> 0xDBFF)"

definition isLowSurrogate :: "16 word \<Rightarrow> bool" where
  "isLowSurrogate u = (0xDC00 \<le> u \<and> u \<le> 0xDFFF)"

fun codePointCount :: "jsstring \<Rightarrow> nat" where
  "codePointCount [] = 0"
| "codePointCount [u] = 1"
| "codePointCount (u # v # rest) =
     (if isHighSurrogate u \<and> isLowSurrogate v then Suc (codePointCount rest)
      else Suc (codePointCount (v # rest)))"

section \<open>The collaborators of the message service\<close>

datatype ServiceError =
    MessageTooLong
  | MessageEmpty
  | RecipientNotFound
  | NoSharedSecret
  | CryptoNotInitialized
  | EncryptionFailed
  | EnvelopeFailure EnvelopeError
  | StorageFailure

subsection \<open>\<open>CryptoService\<close>\<close>

text \<open>
  The state of the crypto service and the primitives of libsodium it calls:
  \<open>crypto_hash_hex\<close> is the hexadecimal SHA-512 of its argument, \<open>aead_encrypt\<close> draws
  the nonce and encrypts (\<open>None\<close> when libsodium throws), \<open>aead_decrypt\<close> is \<open>None\<close>
  when authentication fails.
\<close>

record CryptoService =
  initialized :: bool
  ownPublicKey :: "bytes option"
  crypto_hash_hex :: "bytes \<Rightarrow> string"
  aead_encrypt :: "jsstring \<Rightarrow> bytes \<Rightarrow> EncryptedMessage option"
  aead_decrypt :: "EncryptedMessage \<Rightarrow> bytes \<Rightarrow> jsstring option"

definition KEYBYTES :: nat where
  "KEYBYTES = 32"

definition NPUBBYTES :: nat where
  "NPUBBYTES = 24"

definition ABYTES :: nat where
  "ABYTES = 16"

definition getPublicKey :: "CryptoService \<Rightarrow> ServiceError + bytes" where
  "getPublicKey cs =
     (if \<not> initialized cs then Inl CryptoNotInitialized
      else case ownPublicKey cs of None \<Rightarrow> Inl CryptoNotInitialized | Some pk \<Rightarrow> Inr pk)"

definition generateTrustFingerprint :: "CryptoService \<Rightarrow> bytes \<Rightarrow> ServiceError + string" where
  "generateTrustFingerprint cs pk =
     (if \<not> initialized cs then Inl CryptoNotInitialized
      else Inr (take FINGERPRINT_LENGTH (crypto_hash_hex cs pk)))"

definition encryptMessage :: "CryptoService \<Rightarrow> jsstring \<Rightarrow> bytes \<Rightarrow> ServiceError + EncryptedMessage" where
  "encryptMessage cs plaintext secret =
     (if \<not> initialized cs then Inl CryptoNotInitialized
      else if length secret \<noteq> KEYBYTES then Inl EncryptionFailed
      else case aead_encrypt cs plaintext secret of
             None \<Rightarrow> Inl EncryptionFailed
           | Some encrypted \<Rightarrow> Inr encrypted)"

text \<open>\<open>decryptMessage\<close> throws when the service is not initialized and returns \<open>null\<close> (\<open>None\<close>) otherwise on any failure.\<close>

definition decryptMessage :: "CryptoService \<Rightarrow> EncryptedMessage \<Rightarrow> bytes \<Rightarrow> ServiceError + jsstring option" where
  "decryptMessage cs encrypted secret =
     (if \<not> initialized cs then Inl CryptoNotInitialized
      else if length secret \<noteq> KEYBYTES then Inr None
      else if length (enc_nonce encrypted) \<noteq> NPUBBYTES then Inr None
      else if length (enc_tag encrypted) \<noteq> ABYTES then Inr None
      else Inr (aead_decrypt cs encrypted secret))"

subsection \<open>\<open>BLEService\<close>\<close>

text \<open>
  \<open>connectedDevices\<close> are the keys of the map of connected devices, in insertion order, and
  \<open>write_ok\<close> says whether the characteristic write of the data to a device succeeds.
  \<open>sendData\<close> is \<open>True\<close> when the promise resolves and \<open>False\<close> when it rejects.
\<close>

record BLEService =
  connectedDevices :: "string list"
  write_ok :: "string \<Rightarrow> bytes \<Rightarrow> bool"

definition getConnectedDevices :: "BLEService \<Rightarrow> string list" where
  "getConnectedDevices b = connectedDevices b"

definition sendData :: "BLEService \<Rightarrow> string \<Rightarrow> bytes \<Rightarrow> bool" where
  "sendData b deviceId data = (deviceId \<in> set (connectedDevices b) \<and> write_ok b deviceId data)"

subsection \<open>The world around one call\<close>

text \<open>
  What one call of the service reads from outside: the crypto and BLE services, whether
  \<open>AsyncStorage\<close> fails, the random draws \<open>Math.floor(Math.random() * 256)\<close> and the
  readings of \<open>Date.now()\<close>, named after the place that reads the clock.
\<close>

record World =
  crypto :: CryptoService
  ble :: BLEService
  storage_fails :: bool
  random_byte :: "nat \<Rightarrow> byte"
  now_timestamp :: int
  now_queued :: int
  now_marked :: int
  now_pruned :: int
  now_tick :: int

section \<open>Message service (\<open>services/MessageService.ts\<close>)\<close>

record QueuedMessage =
  q_messageId :: string
  q_peerId :: string
  q_envelope :: MessageEnvelope
  serialized :: bytes
  attempts :: nat
  nextRetryTime :: int

text \<open>
  The calls the service makes to its collaborators and to the registered callbacks, in the
  order it makes them, and the relay log line that carries message id, new TTL and excluded peer.
\<close>

datatype Event =
    EncryptCall jsstring bytes
  | DecryptCall EncryptedMessage bytes
  | StoreMessageCall Message bool
  | SendDataCall string bytes bool
  | MessageReceivedCallback Message
  | MessageStatusCallback string MessageStatus
  | RelayLog string int string

text \<open>
  The state that the service owns or writes: its duplicate detector, its retry queue, whether
  each callback is registered, the message arrays in \<open>AsyncStorage\<close>, and the events so far.
\<close>

record ServiceState =
  duplicateDetector :: DuplicateDetector
  messageQueue :: "(string, QueuedMessage) js_map"
  messageReceivedCallback :: bool
  messageStatusCallback :: bool
  storage :: "(string, Message list) js_map"
  events :: "Event list"

definition emit :: "Event \<Rightarrow> ServiceState \<Rightarrow> ServiceState" where
  "emit ev s = s\<lparr>events := events s @ [ev]\<rparr>"

text \<open>\<open>StorageService.storeMessage\<close>: appends to the array of the peer, or throws.\<close>

definition storeMessage :: "World \<Rightarrow> Message \<Rightarrow> ServiceState \<Rightarrow> (ServiceError + unit) \<times> ServiceState" where
  "storeMessage w message s =
     (if storage_fails w then (Inl StorageFailure, emit (StoreMessageCall message False) s)
      else
        let storageKey = STORAGE_KEY_MESSAGES_PREFIX @ peerId message;
            messages = (case map_get (storage s) storageKey of None \<Rightarrow> [] | Some ms \<Rightarrow> ms)
        in (Inr (), emit (StoreMessageCall message True)
                      (s\<lparr>storage := map_set storageKey (messages @ [message]) (storage s)\<rparr>)))"

definition generateUUID :: "(nat \<Rightarrow> byte) \<Rightarrow> string" where
  "generateUUID rnd =
     (let bytes0 = map rnd [0..<16];
          bytes1 = bytes0[6 := (bytes0 ! 6 AND 0x0f) OR 0x40];
          bytes2 = bytes1[8 := (bytes1 ! 8 AND 0x3f) OR 0x80]
      in formatUUID (bytesToHex bytes2))"

definition deriveSenderId :: "CryptoService \<Rightarrow> bytes \<Rightarrow> ServiceError + string" where
  "deriveSenderId cs pk =
     (case generateTrustFingerprint cs pk of
        Inl err \<Rightarrow> Inl err
      | Inr fingerprint \<Rightarrow> Inr (take 16 fingerprint))"

text \<open>
  \<open>transmitToAllPeers\<close>. Its local \<open>devicesToSend\<close> comes first: the exclusion is
  guarded by the truthiness of \<open>excludePeerId\<close>, so \<open>null\<close> and the empty string
  exclude nothing.
\<close>

definition devicesToSend :: "BLEService \<Rightarrow> string option \<Rightarrow> string list" where
  "devicesToSend b excludePeerId =
     (let connectedDevices' = getConnectedDevices b
      in case excludePeerId of
           None \<Rightarrow> connectedDevices'
         | Some ex \<Rightarrow> if ex \<noteq> [] then filter (\<lambda>id'. id' \<noteq> ex) connectedDevices'
                      else connectedDevices')"

definition transmitToAllPeers :: "World \<Rightarrow> bytes \<Rightarrow> string option \<Rightarrow> ServiceState \<Rightarrow> bool \<times> ServiceState" where
  "transmitToAllPeers w data excludePeerId s =
     (let devices = devicesToSend (ble w) excludePeerId
      in if length devices = 0 then (False, s)
         else
           let results = map (\<lambda>deviceId. sendData (ble w) deviceId data) devices;
               successCount = length (filter (\<lambda>success. success) results)
           in (successCount > 0,
               s\<lparr>events := events s
                    @ map (\<lambda>deviceId. SendDataCall deviceId data (sendData (ble w) deviceId data))
                        devices\<rparr>))"

definition queueMessageForRetry ::
  "World \<Rightarrow> string \<Rightarrow> string \<Rightarrow> MessageEnvelope \<Rightarrow> bytes \<Rightarrow> ServiceState \<Rightarrow> ServiceState" where
  "queueMessageForRetry w messageId' peerId' envelope serialized' s =
     (let queuedMessage =
            \<lparr>q_messageId = messageId', q_peerId = peerId', q_envelope = envelope,
             serialized = serialized', attempts = 0,
             nextRetryTime = now_queued w + RETRY_BASE_DELAY_MS\<rparr>
      in s\<lparr>messageQueue := map_set messageId' queuedMessage (messageQueue s)\<rparr>)"

definition sendMessage ::
  "World \<Rightarrow> string \<Rightarrow> jsstring \<Rightarrow> (string, Peer) js_map \<Rightarrow> ServiceState
     \<Rightarrow> (ServiceError + Message) \<times> ServiceState" where
  "sendMessage w recipientId' text' peers s =
     (if length text' > MAX_MESSAGE_LENGTH then (Inl MessageTooLong, s)
      else if length text' = 0 then (Inl MessageEmpty, s)
      else case map_get peers recipientId' of
        None \<Rightarrow> (Inl RecipientNotFound, s)
      | Some recipient \<Rightarrow>
      (case sharedSecret recipient of
        None \<Rightarrow> (Inl NoSharedSecret, s)
      | Some secret \<Rightarrow>
      (let messageId' = generateUUID (random_byte w);
           timestamp' = of_int (now_timestamp w)
       in case getPublicKey (crypto w) of
        Inl err \<Rightarrow> (Inl err, s)
      | Inr ownPublicKey' \<Rightarrow>
      (case deriveSenderId (crypto w) ownPublicKey' of
        Inl err \<Rightarrow> (Inl err, s)
      | Inr senderId' \<Rightarrow>
      (case (case publicKey recipient of
               Some pk \<Rightarrow> deriveSenderId (crypto w) pk
             | None \<Rightarrow> Inr (take 16 recipientId')) of
        Inl err \<Rightarrow> (Inl err, s)
      | Inr recipientIdHash \<Rightarrow>
      (let s1 = emit (EncryptCall text' secret) s
       in case encryptMessage (crypto w) text' secret of
        Inl err \<Rightarrow> (Inl err, s1)
      | Inr encrypted \<Rightarrow>
      (case createEnvelope encrypted messageId' senderId' recipientIdHash timestamp'
              INITIAL_MESSAGE_TTL of
        Inl err \<Rightarrow> (Inl (EnvelopeFailure err), s1)
      | Inr envelope \<Rightarrow>
      (case serializeEnvelope envelope of
        Inl err \<Rightarrow> (Inl (EnvelopeFailure err), s1)
      | Inr serialized' \<Rightarrow>
      (let message = \<lparr>msg_id = messageId', peerId = recipientId', msg_text = text',
                      msg_timestamp = timestamp', sent = True, delivered = False,
                      failed = False\<rparr>
       in case storeMessage w message s1 of
        (Inl err, s2) \<Rightarrow> (Inl err, s2)
      | (Inr _, s2) \<Rightarrow>
      (case transmitToAllPeers w serialized' None s2 of
        (transmitSuccess, s3) \<Rightarrow>
          if \<not> transmitSuccess
          then (Inr message, queueMessageForRetry w messageId' recipientId' envelope serialized' s3)
          else (Inr (message\<lparr>delivered := True\<rparr>),
                if messageStatusCallback s3
                then emit (MessageStatusCallback messageId' Delivered) s3
                else s3)))))))))))"

definition relayMessage :: "World \<Rightarrow> MessageEnvelope \<Rightarrow> string \<Rightarrow> ServiceState \<Rightarrow> ServiceState" where
  "relayMessage w envelope excludePeerId s =
     (let relayEnvelope = envelope\<lparr>ttl := ttl envelope - 1\<rparr>;
          s1 = emit (RelayLog (messageId relayEnvelope) (ttl relayEnvelope) excludePeerId) s
      in case serializeEnvelope relayEnvelope of
           Inl err \<Rightarrow> s1
         | Inr serialized' \<Rightarrow> snd (transmitToAllPeers w serialized' (Some excludePeerId) s1))"

text \<open>The loop that looks for the peer whose public key hashes to the sender id of the envelope.\<close>

fun findSenderPeer :: "CryptoService \<Rightarrow> string \<Rightarrow> Peer list \<Rightarrow> ServiceError + Peer option" where
  "findSenderPeer cs sid [] = Inr None"
| "findSenderPeer cs sid (peer # rest) =
     (case publicKey peer of
        None \<Rightarrow> findSenderPeer cs sid rest
      | Some pk \<Rightarrow>
          (case deriveSenderId cs pk of
             Inl err \<Rightarrow> Inl err
           | Inr peerIdHash \<Rightarrow>
               if peerIdHash = sid then Inr (Some peer) else findSenderPeer cs sid rest))"

text \<open>
  The sender peer of an incoming envelope: the first peer whose public key hashes to the
  sender id of the envelope, or else the peer stored under the BLE device id.
\<close>

definition resolveSenderPeer ::
  "CryptoService \<Rightarrow> (string, Peer) js_map \<Rightarrow> string \<Rightarrow> string \<Rightarrow> ServiceError + Peer option" where
  "resolveSenderPeer cs peers envelopeSenderId senderId' =
     (case findSenderPeer cs envelopeSenderId (map snd peers) of
        Inl err \<Rightarrow> Inl err
      | Inr (Some p) \<Rightarrow> Inr (Some p)
      | Inr None \<Rightarrow> Inr (map_get peers senderId'))"

text \<open>
  \<open>handleIncomingMessage\<close>. An exception of a collaborator inside the outer \<open>try\<close> is caught
  and logged there, so the call ends with the state reached so far.
\<close>

definition handleIncomingMessage ::
  "World \<Rightarrow> string \<Rightarrow> bytes \<Rightarrow> (string, Peer) js_map \<Rightarrow> ServiceState \<Rightarrow> ServiceState" where
  "handleIncomingMessage w senderId' data peers s =
     (case deserializeEnvelope data of
        Inl err \<Rightarrow> s
      | Inr envelope \<Rightarrow>
      (case validateEnvelope envelope of
        Inl err \<Rightarrow> s
      | Inr _ \<Rightarrow>
      if isDuplicate (duplicateDetector s) (messageId envelope) then s
      else
        let s1 = s\<lparr>duplicateDetector :=
                     markAsProcessed (messageId envelope) (now_marked w) (now_pruned w)
                       (duplicateDetector s)\<rparr>
        in case resolveSenderPeer (crypto w) peers (senderId envelope) senderId' of
          Inl err \<Rightarrow> s1
        | Inr senderPeer \<Rightarrow>
        (case (case senderPeer of
                 None \<Rightarrow> None
               | Some p \<Rightarrow> (case sharedSecret p of None \<Rightarrow> None | Some k \<Rightarrow> Some (p, k))) of
          None \<Rightarrow> if ttl envelope > 0 then relayMessage w envelope senderId' s1 else s1
        | Some (p, secret) \<Rightarrow>
        (let encrypted = \<lparr>ciphertext = encryptedPayload envelope, enc_nonce = nonce envelope,
                          enc_tag = tag envelope\<rparr>;
             s2 = emit (DecryptCall encrypted secret) s1
         in case decryptMessage (crypto w) encrypted secret of
          Inl err \<Rightarrow> s2
        | Inr None \<Rightarrow> if ttl envelope > 0 then relayMessage w envelope senderId' s2 else s2
        | Inr (Some plaintext) \<Rightarrow>
        (let message = \<lparr>msg_id = messageId envelope, peerId = peer_id p, msg_text = plaintext,
                        msg_timestamp = timestamp envelope, sent = False, delivered = True,
                        failed = False\<rparr>
         in case storeMessage w message s2 of
          (Inl err, s3) \<Rightarrow> s3
        | (Inr _, s3) \<Rightarrow>
          (let s4 = (if messageReceivedCallback s3
                     then emit (MessageReceivedCallback message) s3 else s3)
           in if ttl envelope > 0 then relayMessage w envelope senderId' s4 else s4))))))"



text \<open>
  The body of the loop of \<open>processRetryQueue\<close> for one entry of the queue, and the loop
  over the entries. The attempts counter and the next retry time are fields of the object
  that the queue holds, so they change in place.
\<close>

fun map_modify :: "'k \<Rightarrow> ('v \<Rightarrow> 'v) \<Rightarrow> ('k, 'v) js_map \<Rightarrow> ('k, 'v) js_map" where
  "map_modify k f [] = []"
| "map_modify k f (e # m) = (if fst e = k then (k, f (snd e)) # m else e # map_modify k f m)"

definition retryEntry :: "World \<Rightarrow> int \<Rightarrow> string \<Rightarrow> QueuedMessage \<Rightarrow> ServiceState \<Rightarrow> ServiceState" where
  "retryEntry w now messageId' queuedMessage s =
     (if now \<ge> nextRetryTime queuedMessage then
        let queued1 = queuedMessage\<lparr>attempts := attempts queuedMessage + 1\<rparr>;
            s1 = s\<lparr>messageQueue := map_modify messageId' (\<lambda>_. queued1) (messageQueue s)\<rparr>
        in case transmitToAllPeers w (serialized queued1) None s1 of
          (success, s2) \<Rightarrow>
            if success then
              (let s3 = s2\<lparr>messageQueue := map_delete messageId' (messageQueue s2)\<rparr>
               in if messageStatusCallback s3
                  then emit (MessageStatusCallback messageId' Delivered) s3 else s3)
            else if attempts queued1 \<ge> MAX_SEND_RETRIES then
              (let s3 = s2\<lparr>messageQueue := map_delete messageId' (messageQueue s2)\<rparr>
               in if messageStatusCallback s3
                  then emit (MessageStatusCallback messageId' Failed) s3 else s3)
            else
              (let backoffDelay = RETRY_BASE_DELAY_MS * 2 ^ attempts queued1
               in s2\<lparr>messageQueue :=
                       map_modify messageId' (\<lambda>_. queued1\<lparr>nextRetryTime := now + backoffDelay\<rparr>)
                         (messageQueue s2)\<rparr>)
      else s)"

fun retryLoop :: "World \<Rightarrow> int \<Rightarrow> (string \<times> QueuedMessage) list \<Rightarrow> ServiceState \<Rightarrow> ServiceState" where
  "retryLoop w now [] s = s"
| "retryLoop w now ((messageId', queuedMessage) # rest) s =
     retryLoop w now rest (retryEntry w now messageId' queuedMessage s)"

definition processRetryQueue :: "World \<Rightarrow> ServiceState \<Rightarrow> ServiceState" where
  "processRetryQueue w s = retryLoop w (now_tick w) (messageQueue s) s"

text \<open>The events that a call appended to the events of the state it started from.\<close>

definition newEvents :: "ServiceState \<Rightarrow> ServiceState \<Rightarrow> Event list" where
  "newEvents s s' = drop (length (events s)) (events s')"

section \<open>A sample node\<close>

text \<open>
  A node that knows the peer \<open>peer-A\<close>, whose public key hashes to the sender id of
  \<open>sample_envelope\<close>, and a peer \<open>peer-C\<close> with which no key has been exchanged.
\<close>

definition sample_peer_key :: bytes where
  "sample_peer_key =
     [170, 170, 170, 170, 170, 170, 170, 170, 170, 170, 170, 170, 170, 170, 170, 170,
      170, 170, 170, 170, 170, 170, 170, 170, 170, 170, 170, 170, 170, 170, 170, 170]"

definition sample_own_key :: bytes where
  "sample_own_key =
     [187, 187, 187, 187, 187, 187, 187, 187, 187, 187, 187, 187, 187, 187, 187, 187,
      187, 187, 187, 187, 187, 187, 187, 187, 187, 187, 187, 187, 187, 187, 187, 187]"

definition sample_secret :: bytes where
  "sample_secret =
     [1, 2, 3, 4, 5, 6, 7, 8, 9, 10, 11, 12, 13, 14, 15, 16,
      17, 18, 19, 20, 21, 22, 23, 24, 25, 26, 27, 28, 29, 30, 31, 32]"

definition sample_peer :: Peer where
  "sample_peer =
     \<lparr>peer_id = ''peer-A'', publicKey = Some sample_peer_key, sharedSecret = Some sample_secret,
      peer_name = ''A'', connected = True, verified = False, rssi = - 50,
      lastSeen = 1700000000000\<rparr>"

definition sample_peers :: "(string, Peer) js_map" where
  "sample_peers =
     [(''peer-A'', sample_peer),
      (''peer-C'', \<lparr>peer_id = ''peer-C'', publicKey = None, sharedSecret = None,
                    peer_name = ''C'', connected = True, verified = False, rssi = - 60,
                    lastSeen = 1700000000000\<rparr>)]"

definition sample_text :: jsstring where
  "sample_text = [0x68, 0x69]"

definition sample_crypto :: CryptoService where
  "sample_crypto =
     \<lparr>initialized = True, ownPublicKey = Some sample_own_key,
      crypto_hash_hex =
        (\<lambda>pk. if pk = sample_peer_key then ''a1b2c3d4e5f607180000000000000000''
              else ''00112233445566770000000000000000''),
      aead_encrypt =
        (\<lambda>plaintext secret.
           Some \<lparr>ciphertext = encryptedPayload sample_envelope,
                 enc_nonce = nonce sample_envelope, enc_tag = tag sample_envelope\<rparr>),
      aead_decrypt =
        (\<lambda>encrypted secret. if secret = sample_secret then Some sample_text else None)\<rparr>"

definition sample_ble :: BLEService where
  "sample_ble = \<lparr>connectedDevices = [''peer-A'', ''peer-B''], write_ok = (\<lambda>deviceId data. True)\<rparr>"

definition sample_world :: World where
  "sample_world =
     \<lparr>crypto = sample_crypto, ble = sample_ble, storage_fails = False,
      random_byte = (\<lambda>i. of_nat (17 * i + 3)),
      now_timestamp = 1700000000000, now_queued = 1700000000005,
      now_marked = 1700000000100, now_pruned = 1700000000100, now_tick = 1700000001000\<rparr>"

definition sample_state :: ServiceState where
  "sample_state =
     \<lparr>duplicateDetector = newDuplicateDetector, messageQueue = [],
      messageReceivedCallback = True, messageStatusCallback = True, storage = [],
      events = []\<rparr>"

text \<open>Message ids for a run of many messages: the id whose 16 bytes are the number \<open>i\<close>.\<close>

definition uuidOfNat :: "nat \<Rightarrow> string" where
  "uuidOfNat i = formatUUID (bytesToHex (be_bytes 16 i))"

text \<open>Serialized forms of variants of the sample envelope, and a BLE service with a device whose id is empty.\<close>

definition sample_relay_bytes :: bytes where
  "sample_relay_bytes =
     [1, 85, 14, 132, 0, 226, 155, 65, 212, 167, 22, 68, 102, 85, 68, 0, 0,
      161, 178, 195, 212, 229, 246, 7, 24, 0, 17, 34, 51, 68, 85, 102, 119,
      0, 0, 1, 139, 207, 229, 104, 0, 9, 0, 24, 9, 8, 7, 6, 5, 4, 3, 2, 1,
      0, 9, 8, 7, 6, 5, 4, 3, 2, 1, 0, 9, 8, 7, 6, 0, 16, 7, 7, 7, 7, 7, 7,
      7, 7, 7, 7, 7, 7, 7, 7, 7, 7, 0, 0, 0, 3, 1, 2, 3]"

definition sample_wrapped_bytes :: bytes where
  "sample_wrapped_bytes =
     [1, 85, 14, 132, 0, 226, 155, 65, 212, 167, 22, 68, 102, 85, 68, 0, 0,
      161, 178, 195, 212, 229, 246, 7, 24, 0, 17, 34, 51, 68, 85, 102, 119,
      0, 0, 0, 0, 0, 0, 0, 0, 9, 0, 24, 9, 8, 7, 6, 5, 4, 3, 2, 1, 0, 9, 8,
      7, 6, 5, 4, 3, 2, 1, 0, 9, 8, 7, 6, 0, 16, 7, 7, 7, 7, 7, 7, 7, 7, 7,
      7, 7, 7, 7, 7, 7, 7, 0, 0, 0, 3, 1, 2, 3]"

definition empty_id_ble :: BLEService where
  "empty_id_ble = \<lparr>connectedDevices = [[], ''peer-B''], write_ok = (\<lambda>deviceId data. True)\<rparr>"

section \<open>Observations on the events\<close>

definition isRelayLog :: "Event \<Rightarrow> bool" where
  "isRelayLog ev = (case ev of RelayLog _ _ _ \<Rightarrow> True | _ \<Rightarrow> False)"

definition isSendDataCall :: "Event \<Rightarrow> bool" where
  "isSendDataCall ev = (case ev of SendDataCall _ _ _ \<Rightarrow> True | _ \<Rightarrow> False)"

definition isStoreMessageCall :: "Event \<Rightarrow> bool" where
  "isStoreMessageCall ev = (case ev of StoreMessageCall _ _ \<Rightarrow> True | _ \<Rightarrow> False)"

definition isMessageReceived :: "Event \<Rightarrow> bool" where
  "isMessageReceived ev = (case ev of MessageReceivedCallback _ \<Rightarrow> True | _ \<Rightarrow> False)"

definition isReceivedFor :: "string \<Rightarrow> Event \<Rightarrow> bool" where
  "isReceivedFor mid ev = (case ev of MessageReceivedCallback m \<Rightarrow> msg_id m = mid | _ \<Rightarrow> False)"

definition isRelayFor :: "string \<Rightarrow> Event \<Rightarrow> bool" where
  "isRelayFor mid ev = (case ev of RelayLog i _ _ \<Rightarrow> i = mid | _ \<Rightarrow> False)"

text \<open>The events that one call of \<open>relayMessage\<close> appends.\<close>

definition relayEvents :: "World \<Rightarrow> MessageEnvelope \<Rightarrow> string \<Rightarrow> Event list" where
  "relayEvents w e ex =
     RelayLog (messageId e) (ttl e - 1) ex
     # (case serializeEnvelope (e\<lparr>ttl := ttl e - 1\<rparr>) of
          Inl err \<Rightarrow> []
        | Inr data \<Rightarrow>
            map (\<lambda>d. SendDataCall d data (sendData (ble w) d data))
              (devicesToSend (ble w) (Some ex)))"

text \<open>
  The part of \<open>handleIncomingMessage\<close> between marking the message id and the relay
  decision, with the flag whether control reaches a relay decision (\<open>False\<close> when an
  exception ends the call).
\<close>

definition localDelivery ::
  "World \<Rightarrow> string \<Rightarrow> MessageEnvelope \<Rightarrow> (string, Peer) js_map \<Rightarrow> ServiceState
     \<Rightarrow> bool \<times> ServiceState" where
  "localDelivery w senderId' envelope peers s1 =
     (case resolveSenderPeer (crypto w) peers (senderId envelope) senderId' of
        Inl err \<Rightarrow> (False, s1)
      | Inr senderPeer \<Rightarrow>
      (case (case senderPeer of
               None \<Rightarrow> None
             | Some p \<Rightarrow> (case sharedSecret p of None \<Rightarrow> None | Some k \<Rightarrow> Some (p, k))) of
        None \<Rightarrow> (True, s1)
      | Some (p, secret) \<Rightarrow>
      (let encrypted = \<lparr>ciphertext = encryptedPayload envelope, enc_nonce = nonce envelope,
                        enc_tag = tag envelope\<rparr>;
           s2 = emit (DecryptCall encrypted secret) s1
       in case decryptMessage (crypto w) encrypted secret of
          Inl err \<Rightarrow> (False, s2)
        | Inr None \<Rightarrow> (True, s2)
        | Inr (Some plaintext) \<Rightarrow>
        (let message = \<lparr>msg_id = messageId envelope, peerId = peer_id p, msg_text = plaintext,
                        msg_timestamp = timestamp envelope, sent = False, delivered = True,
                        failed = False\<rparr>
         in case storeMessage w message s2 of
              (Inl err, s3) \<Rightarrow> (False, s3)
            | (Inr _, s3) \<Rightarrow>
                (True, if messageReceivedCallback s3
                       then emit (MessageReceivedCallback message) s3 else s3)))))"

text \<open>The sample envelope at its last hop, what the sample node decrypts, and a world whose storage fails.\<close>

definition sample_final_bytes :: bytes where
  "sample_final_bytes =
     [1, 85, 14, 132, 0, 226, 155, 65, 212, 167, 22, 68, 102, 85, 68, 0, 0,
      161, 178, 195, 212, 229, 246, 7, 24, 0, 17, 34, 51, 68, 85, 102, 119,
      0, 0, 1, 139, 207, 229, 104, 0, 0, 0, 24, 9, 8, 7, 6, 5, 4, 3, 2, 1,
      0, 9, 8, 7, 6, 5, 4, 3, 2, 1, 0, 9, 8, 7, 6, 0, 16, 7, 7, 7, 7, 7, 7,
      7, 7, 7, 7, 7, 7, 7, 7, 7, 7, 0, 0, 0, 3, 1, 2, 3]"

definition sample_encrypted :: EncryptedMessage where
  "sample_encrypted =
     \<lparr>ciphertext = encryptedPayload sample_envelope, enc_nonce = nonce sample_envelope,
      enc_tag = tag sample_envelope\<rparr>"

definition sample_message :: Message where
  "sample_message =
     \<lparr>msg_id = ''550e8400-e29b-41d4-a716-446655440000'', peerId = ''peer-A'',
      msg_text = sample_text, msg_timestamp = 1700000000000, sent = False, delivered = True,
      failed = False\<rparr>"

definition failing_storage_world :: World where
  "failing_storage_world = sample_world\<lparr>storage_fails := True\<rparr>"

text \<open>A text of 251 emoji U+1F600: 251 code points in 502 UTF-16 code units.\<close>

definition emoji_text :: jsstring where
  "emoji_text = concat (replicate 251 [0xD83D, 0xDE00])"

text \<open>
  What one pass of the loop of \<open>processRetryQueue\<close> does for one entry: whether the
  retransmission reaches a device, the events it appends, and what it leaves in the queue
  under the key of the entry.
\<close>

definition retrySucceeds :: "World \<Rightarrow> QueuedMessage \<Rightarrow> bool" where
  "retrySucceeds w q = list_ex (\<lambda>d. sendData (ble w) d (serialized q)) (connectedDevices (ble w))"

definition retryEvents :: "World \<Rightarrow> int \<Rightarrow> bool \<Rightarrow> string \<Rightarrow> QueuedMessage \<Rightarrow> Event list" where
  "retryEvents w now callback k q =
     (if now \<ge> nextRetryTime q then
        map (\<lambda>d. SendDataCall d (serialized q) (sendData (ble w) d (serialized q)))
          (connectedDevices (ble w))
        @ (if retrySucceeds w q then
             (if callback then [MessageStatusCallback k Delivered] else [])
           else if attempts q + 1 \<ge> MAX_SEND_RETRIES then
             (if callback then [MessageStatusCallback k Failed] else [])
           else [])
      else [])"

definition retryResult :: "World \<Rightarrow> int \<Rightarrow> QueuedMessage \<Rightarrow> QueuedMessage option" where
  "retryResult w now q =
     (if now \<ge> nextRetryTime q then
        if retrySucceeds w q \<or> attempts q + 1 \<ge> MAX_SEND_RETRIES then None
        else Some (q\<lparr>attempts := attempts q + 1,
                     nextRetryTime := now + RETRY_BASE_DELAY_MS * 2 ^ (attempts q + 1)\<rparr>)
      else Some q)"

definition isStatusFor :: "string \<Rightarrow> Event \<Rightarrow> bool" where
  "isStatusFor k ev = (case ev of MessageStatusCallback i st \<Rightarrow> i = k | _ \<Rightarrow> False)"

text \<open>
  What the sample node sends: the id it draws, the envelope and its bytes, the record it
  stores, a BLE service whose writes all fail, and the entry that a failed send queues.
\<close>

definition sent_envelope :: MessageEnvelope where
  "sent_envelope =
     \<lparr>version = 1, messageId = ''03142536-4758-497a-8b9c-adbecfe0f102'',
      senderId = ''0011223344556677'', recipientId = ''a1b2c3d4e5f60718'',
      timestamp = 1700000000000, ttl = 10, encryptedPayload = [1, 2, 3],
      nonce = [9, 8, 7, 6, 5, 4, 3, 2, 1, 0, 9, 8, 7, 6, 5, 4, 3, 2, 1, 0, 9, 8, 7, 6],
      tag = [7, 7, 7, 7, 7, 7, 7, 7, 7, 7, 7, 7, 7, 7, 7, 7]\<rparr>"

definition sent_bytes :: bytes where
  "sent_bytes =
     [1, 3, 20, 37, 54, 71, 88, 73, 122, 139, 156, 173, 190, 207, 224, 241, 2,
      0, 17, 34, 51, 68, 85, 102, 119, 161, 178, 195, 212, 229, 246, 7, 24,
      0, 0, 1, 139, 207, 229, 104, 0, 10, 0, 24, 9, 8, 7, 6, 5, 4, 3, 2, 1,
      0, 9, 8, 7, 6, 5, 4, 3, 2, 1, 0, 9, 8, 7, 6, 0, 16, 7, 7, 7, 7, 7, 7,
      7, 7, 7, 7, 7, 7, 7, 7, 7, 7, 0, 0, 0, 3, 1, 2, 3]"

definition sent_message :: Message where
  "sent_message =
     \<lparr>msg_id = ''03142536-4758-497a-8b9c-adbecfe0f102'', peerId = ''peer-A'',
      msg_text = sample_text, msg_timestamp = 1700000000000, sent = True, delivered = False,
      failed = False\<rparr>"

definition offline_ble :: BLEService where
  "offline_ble = \<lparr>connectedDevices = [''peer-A'', ''peer-B''], write_ok = (\<lambda>deviceId data. False)\<rparr>"

definition offline_world :: World where
  "offline_world = sample_world\<lparr>ble := offline_ble\<rparr>"

definition queued_entry :: QueuedMessage where
  "queued_entry =
     \<lparr>q_messageId = ''03142536-4758-497a-8b9c-adbecfe0f102'', q_peerId = ''peer-A'',
      q_envelope = sent_envelope, serialized = sent_bytes, attempts = 0,
      nextRetryTime = 1700000001005\<rparr>"

definition stored_state :: ServiceState where
  "stored_state =
     sample_state\<lparr>storage := [(''@emergency_chat:messages:peer-A'', [sent_message])]\<rparr>"

definition queued_state :: ServiceState where
  "queued_state =
     stored_state
       \<lparr>messageQueue := [(''03142536-4758-497a-8b9c-adbecfe0f102'', queued_entry)],
        events := [EncryptCall sample_text sample_secret, StoreMessageCall sent_message True,
                   SendDataCall ''peer-A'' sent_bytes False,
                   SendDataCall ''peer-B'' sent_bytes False]\<rparr>"

definition delivered_state :: ServiceState where
  "delivered_state =
     stored_state
       \<lparr>events := [EncryptCall sample_text sample_secret, StoreMessageCall sent_message True,
                   SendDataCall ''peer-A'' sent_bytes True,
                   SendDataCall ''peer-B'' sent_bytes True,
                   MessageStatusCallback ''03142536-4758-497a-8b9c-adbecfe0f102'' Delivered]\<rparr>"

text \<open>
  Ticks of the retry timer at the sample node: three while no BLE write succeeds, at the
  times the queued entry is due, and one at which the writes succeed.
\<close>

definition tick1_world :: World where
  "tick1_world = offline_world\<lparr>now_tick := 1700000001005\<rparr>"

definition tick2_world :: World where
  "tick2_world = offline_world\<lparr>now_tick := 1700000003005\<rparr>"

definition tick3_world :: World where
  "tick3_world = offline_world\<lparr>now_tick := 1700000007005\<rparr>"

definition online_tick_world :: World where
  "online_tick_world = sample_world\<lparr>now_tick := 1700000001005\<rparr>"









section \<open>Facts about maps\<close>

lemma map_of_map_set: "map_of (map_set k v m) = (map_of m)(k \<mapsto> v)"
  by (induction m) (auto simp: fun_eq_iff)

lemma map_fst_map_set:
  "map fst (map_set k v m) = (if k \<in> fst ` set m then map fst m else map fst m @ [k])"
  by (induction m) auto

lemma distinct_map_set: "distinct (map fst m) \<Longrightarrow> distinct (map fst (map_set k v m))"
  by (simp add: map_fst_map_set)

lemma length_map_set:
  "length (map_set k v m) = (if k \<in> fst ` set m then length m else Suc (length m))"
  by (induction m) auto

lemma set_map_set_subset: "set (map_set k v m) \<subseteq> insert (k, v) (set m)"
  by (induction m) auto



lemma distinct_map_delete: "distinct (map fst m) \<Longrightarrow> distinct (map fst (map_delete k m))"
  by (simp add: map_delete_def distinct_map_filter)

section \<open>Facts about the duplicate cache\<close>

lemma pruneLoop_filter:
  "pruneLoop thr es m =
     filter (\<lambda>e. \<not> (\<exists>ts. (fst e, ts) \<in> set es \<and> ts < thr)) m"
proof (induction es arbitrary: m)
  case Nil
  then show ?case by simp
next
  case (Cons e es)
  obtain k t where e: "e = (k, t)" by (cases e)
  show ?case
  proof (cases "t < thr")
    case True
    have "pruneLoop thr (e # es) m = pruneLoop thr es (map_delete k m)"
      using True e by simp
    also have "\<dots> = filter (\<lambda>e. \<not> (\<exists>ts. (fst e, ts) \<in> set es \<and> ts < thr)) (map_delete k m)"
      by (rule Cons.IH)
    also have "\<dots> = filter (\<lambda>x. \<not> (\<exists>ts. (fst x, ts) \<in> set (e # es) \<and> ts < thr)) m"
      unfolding map_delete_def filter_filter using True e
      by (intro filter_cong) auto
    finally show ?thesis .
  next
    case False
    have "pruneLoop thr (e # es) m = pruneLoop thr es m"
      using False e by simp
    also have "\<dots> = filter (\<lambda>e. \<not> (\<exists>ts. (fst e, ts) \<in> set es \<and> ts < thr)) m"
      by (rule Cons.IH)
    also have "\<dots> = filter (\<lambda>x. \<not> (\<exists>ts. (fst x, ts) \<in> set (e # es) \<and> ts < thr)) m"
      using False e by (intro filter_cong) auto
    finally show ?thesis .
  qed
qed

lemma pruneLoop_self_distinct:
  assumes "distinct (map fst m)"
  shows "pruneLoop thr m m = filter (\<lambda>e. \<not> snd e < thr) m"
proof -
  have "(\<exists>ts. (fst e, ts) \<in> set m \<and> ts < thr) \<longleftrightarrow> snd e < thr" if "e \<in> set m" for e
  proof
    assume "\<exists>ts. (fst e, ts) \<in> set m \<and> ts < thr"
    then obtain ts where ts: "(fst e, ts) \<in> set m" "ts < thr" by blast
    have "(fst e, snd e) \<in> set m" using that by simp
    with ts(1) assms have "ts = snd e" by (meson eq_key_imp_eq_value)
    with ts(2) show "snd e < thr" by simp
  next
    assume "snd e < thr"
    moreover have "(fst e, snd e) \<in> set m" using that by simp
    ultimately show "\<exists>ts. (fst e, ts) \<in> set m \<and> ts < thr" by blast
  qed
  then show ?thesis
    unfolding pruneLoop_filter by (intro filter_cong) auto
qed

lemma pruneLoop_no_expired:
  assumes "(k, ts) \<in> set (pruneLoop thr m m)"
  shows "\<not> ts < thr"
proof
  assume "ts < thr"
  from assms have "(k, ts) \<in> set m" and "\<not> (\<exists>ts'. (k, ts') \<in> set m \<and> ts' < thr)"
    unfolding pruneLoop_filter by auto
  with \<open>ts < thr\<close> show False by blast
qed

section \<open>Facts about the codec\<close>

lemma length_be_bytes [simp]: "length (be_bytes k n) = k"
  by (induction k) auto

lemma foldl_be_bytes:
  "foldl (\<lambda>acc b. acc * 256 + unat b) a (be_bytes k n) = a * 256 ^ k + n mod 256 ^ k"
proof (induction k arbitrary: a)
  case 0
  then show ?case by simp
next
  case (Suc k)
  have u: "unat (of_nat (n div 256 ^ k) :: byte) = n div 256 ^ k mod 256"
    by (simp add: unat_of_nat)
  have m: "n mod 256 ^ Suc k = 256 ^ k * (n div 256 ^ k mod 256) + n mod 256 ^ k"
    using mod_mult2_eq [of n "256 ^ k" 256] by (simp add: mult.commute)
  have "foldl (\<lambda>acc b. acc * 256 + unat b) a (be_bytes (Suc k) n)
      = foldl (\<lambda>acc b. acc * 256 + unat b) (a * 256 + n div 256 ^ k mod 256) (be_bytes k n)"
    by (simp add: u)
  also have "\<dots> = (a * 256 + n div 256 ^ k mod 256) * 256 ^ k + n mod 256 ^ k"
    by (rule Suc.IH)
  also have "\<dots> = a * 256 ^ Suc k + n mod 256 ^ Suc k"
    unfolding m by (simp add: algebra_simps)
  finally show ?case .
qed

lemma be_value_be_bytes: "be_value (be_bytes k n) = n mod 256 ^ k"
  by (simp add: be_value_def foldl_be_bytes)

lemma hexDigit_value:
  assumes "isLowerHex c"
  shows "\<exists>d < 16. hexDigitValue c = Some d \<and> hexDigit d = c"
  using assms by (auto simp: isLowerHex_def hexDigitValue_def hexDigit_def)

lemma not_ws: "isLowerHex c \<Longrightarrow> \<not> isStrWhiteSpace c \<and> c \<noteq> CHR ''-'' \<and> c \<noteq> CHR ''+'' \<and> c \<noteq> CHR ''x'' \<and> c \<noteq> CHR ''X''"
  by (auto simp: isLowerHex_def isStrWhiteSpace_def)

lemma parseInt16_pair:
  assumes "isLowerHex c1" "isLowerHex c2"
    and "hexDigitValue c1 = Some d1" "hexDigitValue c2 = Some d2"
  shows "parseInt16 [c1, c2] = Some (int (16 * d1 + d2))"
  using assms not_ws [of c1] not_ws [of c2]
  by (simp add: parseInt16_def)

lemma byte_hex_roundtrip:
  assumes "isLowerHex c1" "isLowerHex c2"
  shows "padStart2 (toString16 (toUint8 (parseInt16 [c1, c2]))) = [c1, c2]"
proof -
  from hexDigit_value [OF assms(1)] obtain d1 where d1: "d1 < 16" "hexDigitValue c1 = Some d1" "hexDigit d1 = c1" by blast
  from hexDigit_value [OF assms(2)] obtain d2 where d2: "d2 < 16" "hexDigitValue c2 = Some d2" "hexDigit d2 = c2" by blast
  have p: "parseInt16 [c1, c2] = Some (int (16 * d1 + d2))"
    by (rule parseInt16_pair [OF assms d1(2) d2(2)])
  have lt: "16 * d1 + d2 < 256" using d1(1) d2(1) by simp
  have "toUint8 (parseInt16 [c1, c2]) = (of_nat (16 * d1 + d2) :: byte)"
    unfolding p toUint8_def by (simp only: option.case of_int_of_nat_eq)
  then have "unat (toUint8 (parseInt16 [c1, c2])) = (16 * d1 + d2) mod 256"
    by (simp only: unat_of_nat) simp
  then have u: "unat (toUint8 (parseInt16 [c1, c2])) = 16 * d1 + d2"
    using lt by simp
  have z: "hexDigit 0 = CHR ''0''" by (simp add: hexDigit_def)
  show ?thesis
  proof (cases "d1 = 0")
    case True
    then show ?thesis using d1 d2 z by (simp add: toString16_def u padStart2_def)
  next
    case False
    then have "\<not> 16 * d1 + d2 < 16" by simp
    moreover have "(16 * d1 + d2) div 16 = d1" "(16 * d1 + d2) mod 16 = d2" using d2(1) by simp_all
    ultimately show ?thesis using d1 d2 by (simp add: toString16_def u padStart2_def)
  qed
qed


lemma length_hexToBytes [simp]: "length (hexToBytes n hex) = n"
  by (simp add: hexToBytes_def)

lemma hexToBytes_Suc:
  "hexToBytes (Suc n) (c1 # c2 # rest) = toUint8 (parseInt16 [c1, c2]) # hexToBytes n rest"
proof -
  have "[0..<Suc n] = 0 # map Suc [0..<n]"
    by (simp add: upt_conv_Cons map_Suc_upt del: upt_Suc)
  then show ?thesis
    by (simp add: hexToBytes_def substr_def o_def del: upt_Suc)
qed

lemma bytesToHex_hexToBytes:
  "length hex = 2 * n \<Longrightarrow> list_all isLowerHex hex \<Longrightarrow> bytesToHex (hexToBytes n hex) = hex"
proof (induction n arbitrary: hex)
  case 0
  then show ?case by (simp add: hexToBytes_def bytesToHex_def)
next
  case (Suc n)
  then obtain c1 c2 rest where hex: "hex = c1 # c2 # rest"
    by (cases hex; cases "tl hex") auto
  with Suc.prems have r: "length rest = 2 * n" "list_all isLowerHex rest" "isLowerHex c1" "isLowerHex c2"
    by auto
  have "bytesToHex (hexToBytes (Suc n) hex)
      = padStart2 (toString16 (toUint8 (parseInt16 [c1, c2]))) @ bytesToHex (hexToBytes n rest)"
    unfolding hex hexToBytes_Suc by (simp add: bytesToHex_def)
  also have "\<dots> = [c1, c2] @ rest"
    using byte_hex_roundtrip [OF r(3,4)] Suc.IH [OF r(1,2)] by simp
  finally show ?case by (simp add: hex)
qed

lemma slice_at:
  "length pre = a \<Longrightarrow> b = a + length xs \<Longrightarrow> slice (pre @ xs @ post) a b = xs"
  by (simp add: slice_def)

lemma slice_at_end:
  "length pre = a \<Longrightarrow> b = a + length xs \<Longrightarrow> slice (pre @ xs) a b = xs"
  by (simp add: slice_def)

lemma uint_byte_of_int: "0 \<le> i \<Longrightarrow> i \<le> 255 \<Longrightarrow> uint (word_of_int i :: byte) = i"
  by (simp add: uint_word_of_int)

lemma numberOfBigInt_exact: "isExactDouble n \<Longrightarrow> numberOfBigInt n = n"
  by (auto simp: isExactDouble_def numberOfBigInt_def Let_def)


lemma validateEnvelope_Inr:
  "validateEnvelope e = Inr True \<longleftrightarrow>
     version e = 1 \<and> 0 \<le> ttl e \<and> ttl e \<le> 255 \<and> messageId e \<noteq> [] \<and> senderId e \<noteq> [] \<and>
     recipientId e \<noteq> [] \<and> 0 < timestamp e \<and> nonce e \<noteq> [] \<and> tag e \<noteq> [] \<and>
     encryptedPayload e \<noteq> []"
  by (auto simp: validateEnvelope_def MESSAGE_ENVELOPE_VERSION_def)

lemma validateEnvelope_Inr_True: "validateEnvelope e = Inr b \<Longrightarrow> b = True"
  by (auto simp: validateEnvelope_def split: if_splits)

lemma serializeEnvelope_ok:
  assumes v: "validateEnvelope e = Inr True"
    and m: "length (filter (\<lambda>c. c \<noteq> CHR ''-'') (messageId e)) = 32"
    and s: "length (senderId e) = 16" and r: "length (recipientId e) = 16"
    and t: "timestamp e = of_nat n"
  shows "serializeEnvelope e =
     Inr ([1] @ hexToBytes 16 (filter (\<lambda>c. c \<noteq> CHR ''-'') (messageId e))
          @ hexToBytes 8 (senderId e) @ hexToBytes 8 (recipientId e)
          @ be_bytes 8 n @ [word_of_int (ttl e)]
          @ be_bytes 2 (length (nonce e)) @ nonce e
          @ be_bytes 2 (length (tag e)) @ tag e
          @ be_bytes 4 (length (encryptedPayload e)) @ encryptedPayload e)"
proof -
  have ver: "version e = 1" using v by (simp add: validateEnvelope_Inr)
  have fl: "\<lfloor>timestamp e\<rfloor> = int n" by (simp add: t)
  show ?thesis
    unfolding serializeEnvelope_def v using m s r
    by (simp add: fl ver t)
qed

lemma serialize_deserialize_canonical:
  assumes v: "validateEnvelope e = Inr True"
    and m: "isCanonicalUUID (messageId e)"
    and s: "isLowerHexString 16 (senderId e)" and r: "isLowerHexString 16 (recipientId e)"
    and t: "timestamp e = of_nat n" "n < 2 ^ 64" "isExactDouble n"
    and ln: "length (nonce e) \<le> 1024" and lt: "length (tag e) \<le> 1024"
    and lp: "length (encryptedPayload e) \<le> 10 * 1024 * 1024"
  shows "\<exists>data. serializeEnvelope e = Inr data \<and> deserializeEnvelope data = Inr e"
proof -
  define hex where "hex = filter (\<lambda>c. c \<noteq> CHR ''-'') (messageId e)"
  have hex: "length hex = 32" "list_all isLowerHex hex" "messageId e = formatUUID hex"
    using m by (simp_all add: isCanonicalUUID_def isLowerHexString_def hex_def Let_def)
  have sid: "length (senderId e) = 16" "list_all isLowerHex (senderId e)"
    using s by (simp_all add: isLowerHexString_def)
  have rid: "length (recipientId e) = 16" "list_all isLowerHex (recipientId e)"
    using r by (simp_all add: isLowerHexString_def)
  define A where "A = hexToBytes 16 hex"
  define B where "B = hexToBytes 8 (senderId e)"
  define C where "C = hexToBytes 8 (recipientId e)"
  define T where "T = be_bytes 8 n"
  define NL where "NL = be_bytes 2 (length (nonce e))"
  define TL where "TL = be_bytes 2 (length (tag e))"
  define PL where "PL = be_bytes 4 (length (encryptedPayload e))"
  define V :: byte where "V = 1"
  define L :: byte where "L = word_of_int (ttl e)"
  define N where "N = nonce e"
  define G where "G = tag e"
  define P where "P = encryptedPayload e"
  define data where "data = [V] @ A @ B @ C @ T @ [L] @ NL @ N @ TL @ G @ PL @ P"
  have len: "length A = 16" "length B = 8" "length C = 8" "length T = 8" "length NL = 2"
    "length TL = 2" "length PL = 4"
    by (simp_all add: A_def B_def C_def T_def NL_def TL_def PL_def)
  have ser: "serializeEnvelope e = Inr data"
    using serializeEnvelope_ok [OF v _ sid(1) rid(1) t(1)] hex(1)
    by (simp add: data_def A_def B_def C_def T_def NL_def TL_def PL_def V_def L_def N_def G_def P_def hex_def)
  have ldata: "length data = 50 + length N + length G + length P"
    by (simp add: data_def len)
  have d0: "data ! 0 = V" by (simp add: data_def)
  have d41: "data ! 41 = L"
  proof -
    have "data = ([V] @ A @ B @ C @ T) @ L # (NL @ N @ TL @ G @ PL @ P)" by (simp add: data_def)
    moreover have "length ([V] @ A @ B @ C @ T) = 41" by (simp add: len)
    ultimately show ?thesis by (metis nth_append_length)
  qed
  have sA: "slice data 1 17 = A"
    unfolding data_def by (rule slice_at) (simp_all add: len)
  have sB: "slice data 17 25 = B"
  proof -
    have "data = ([V] @ A) @ B @ (C @ T @ [L] @ NL @ N @ TL @ G @ PL @ P)" by (simp add: data_def)
    then show ?thesis by (simp only:) (rule slice_at, simp_all add: len)
  qed
  have sC: "slice data 25 33 = C"
  proof -
    have "data = ([V] @ A @ B) @ C @ (T @ [L] @ NL @ N @ TL @ G @ PL @ P)" by (simp add: data_def)
    then show ?thesis by (simp only:) (rule slice_at, simp_all add: len)
  qed
  have sT: "slice data 33 41 = T"
  proof -
    have "data = ([V] @ A @ B @ C) @ T @ ([L] @ NL @ N @ TL @ G @ PL @ P)" by (simp add: data_def)
    then show ?thesis by (simp only:) (rule slice_at, simp_all add: len)
  qed
  have sNL: "slice data 42 44 = NL"
  proof -
    have "data = ([V] @ A @ B @ C @ T @ [L]) @ NL @ (N @ TL @ G @ PL @ P)" by (simp add: data_def)
    then show ?thesis by (simp only:) (rule slice_at, simp_all add: len)
  qed
  have sN: "slice data 44 (44 + length N) = N"
  proof -
    have "data = ([V] @ A @ B @ C @ T @ [L] @ NL) @ N @ (TL @ G @ PL @ P)" by (simp add: data_def)
    then show ?thesis by (simp only:) (rule slice_at, simp_all add: len)
  qed
  have sTL: "slice data (44 + length N) (44 + length N + 2) = TL"
  proof -
    have "data = ([V] @ A @ B @ C @ T @ [L] @ NL @ N) @ TL @ (G @ PL @ P)" by (simp add: data_def)
    then show ?thesis by (simp only:) (rule slice_at, simp_all add: len)
  qed
  have sG: "slice data (44 + length N + 2) (44 + length N + 2 + length G) = G"
  proof -
    have "data = ([V] @ A @ B @ C @ T @ [L] @ NL @ N @ TL) @ G @ (PL @ P)" by (simp add: data_def)
    then show ?thesis by (simp only:) (rule slice_at, simp_all add: len)
  qed
  have sPL: "slice data (44 + length N + 2 + length G) (44 + length N + 2 + length G + 4) = PL"
  proof -
    have "data = ([V] @ A @ B @ C @ T @ [L] @ NL @ N @ TL @ G) @ PL @ P" by (simp add: data_def)
    then show ?thesis by (simp only:) (rule slice_at, simp_all add: len)
  qed
  have sP: "slice data (44 + length N + 2 + length G + 4) (44 + length N + 2 + length G + 4 + length P) = P"
  proof -
    have "data = ([V] @ A @ B @ C @ T @ [L] @ NL @ N @ TL @ G @ PL) @ P" by (simp add: data_def)
    then show ?thesis by (simp only:) (rule slice_at_end, simp_all add: len)
  qed
  have vNL: "be_value NL = length N"
    using ln by (simp add: NL_def N_def be_value_be_bytes)
  have vTL: "be_value TL = length G"
    using lt by (simp add: TL_def G_def be_value_be_bytes)
  have vPL: "be_value PL = length P"
    using lp by (simp add: PL_def P_def be_value_be_bytes)
  have vT: "be_value T = n"
    using t(2) by (simp add: T_def be_value_be_bytes)
  have hA: "bytesToHex A = hex"
    unfolding A_def by (rule bytesToHex_hexToBytes) (simp_all add: hex)
  have hB: "bytesToHex B = senderId e"
    unfolding B_def by (rule bytesToHex_hexToBytes) (simp_all add: sid)
  have hC: "bytesToHex C = recipientId e"
    unfolding C_def by (rule bytesToHex_hexToBytes) (simp_all add: rid)
  have vv: "version e = 1" "0 \<le> ttl e" "ttl e \<le> 255"
    using v by (simp_all add: validateEnvelope_Inr)
  have uV: "uint V = 1" by (simp add: V_def)
  have uL: "uint L = ttl e" unfolding L_def by (rule uint_byte_of_int) (simp_all add: vv)
  have env: "\<lparr>version = uint (data ! 0),
       messageId = formatUUID (bytesToHex (slice data 1 17)),
       senderId = bytesToHex (slice data 17 25),
       recipientId = bytesToHex (slice data 25 33),
       timestamp = of_nat (numberOfBigInt (be_value (slice data 33 41))),
       ttl = uint (data ! 41),
       encryptedPayload = slice data (44 + length N + 2 + length G + 4) (44 + length N + 2 + length G + 4 + length P),
       nonce = slice data 44 (44 + length N),
       tag = slice data (44 + length N + 2) (44 + length N + 2 + length G)\<rparr> = e"
    unfolding d0 d41 sA sB sC sT sN sG sP hA hB hC vT uV uL numberOfBigInt_exact [OF t(3)]
    by (simp add: hex(3) vv(1) t(1) N_def G_def P_def)
  have "deserializeEnvelope data = Inr e"
    unfolding deserializeEnvelope_def Let_def sNL vNL sTL vTL sPL vPL env v
    using ln lt lp by (simp add: ldata uV d0 MESSAGE_ENVELOPE_VERSION_def N_def G_def P_def)
  with ser show ?thesis by blast
qed


lemma bitlen_le: "n < 2 ^ k \<Longrightarrow> bitlen n \<le> k"
proof (induction k arbitrary: n)
  case 0
  then show ?case by (simp add: bitlen.simps)
next
  case (Suc k)
  show ?case
  proof (cases "n = 0")
    case True
    then show ?thesis by (simp add: bitlen.simps)
  next
    case False
    from Suc.prems have "n div 2 < 2 ^ k" by simp
    from Suc.IH [OF this] False show ?thesis by (subst bitlen.simps) simp
  qed
qed

lemma isExactDouble_small: "n < 2 ^ 53 \<Longrightarrow> isExactDouble n"
  using bitlen_le [of n 53] by (simp add: isExactDouble_def)

lemma deserializeEnvelope_long_nonce:
  assumes v: "validateEnvelope e = Inr True"
    and m: "length (filter (\<lambda>c. c \<noteq> CHR ''-'') (messageId e)) = 32"
    and s: "length (senderId e) = 16" and r: "length (recipientId e) = 16"
    and t: "timestamp e = of_nat n"
    and ln: "1024 < length (nonce e)" "length (nonce e) < 65536"
  shows "\<exists>data. serializeEnvelope e = Inr data \<and> deserializeEnvelope data = Inl InvalidNonceLength"
proof -
  define pre where "pre = [1 :: byte] @ hexToBytes 16 (filter (\<lambda>c. c \<noteq> CHR ''-'') (messageId e))
          @ hexToBytes 8 (senderId e) @ hexToBytes 8 (recipientId e)
          @ be_bytes 8 n @ [word_of_int (ttl e)]"
  define post where "post = nonce e
          @ be_bytes 2 (length (tag e)) @ tag e
          @ be_bytes 4 (length (encryptedPayload e)) @ encryptedPayload e"
  define data where "data = pre @ be_bytes 2 (length (nonce e)) @ post"
  have ser: "serializeEnvelope e = Inr data"
    using serializeEnvelope_ok [OF v m s r t] by (simp add: data_def pre_def post_def)
  have lpre: "length pre = 42" by (simp add: pre_def)
  have ld: "\<not> length data < 50" using ln(1) by (simp add: data_def lpre post_def)
  have d0: "data ! 0 = 1" by (simp add: data_def pre_def)
  have sNL: "slice data 42 44 = be_bytes 2 (length (nonce e))"
    unfolding data_def by (rule slice_at) (simp_all add: lpre)
  have "be_value (be_bytes 2 (length (nonce e))) = length (nonce e)"
    using ln(2) by (simp add: be_value_be_bytes)
  then have "deserializeEnvelope data = Inl InvalidNonceLength"
    unfolding deserializeEnvelope_def Let_def sNL using ld ln(1)
    by (simp add: d0 MESSAGE_ENVELOPE_VERSION_def)
  with ser show ?thesis by blast
qed


lemma be_bytes_numeral:
  "be_bytes (numeral k) n = of_nat (n div 256 ^ pred_numeral k) # be_bytes (pred_numeral k) n"
  by (simp add: numeral_eq_Suc)

lemma hexToBytes_0: "hexToBytes 0 hex = []"
  by (simp add: hexToBytes_def)

lemma hexToBytes_numeral:
  "hexToBytes (numeral k) (c1 # c2 # rest) =
     toUint8 (parseInt16 [c1, c2]) # hexToBytes (pred_numeral k) rest"
  by (simp add: numeral_eq_Suc hexToBytes_Suc)

lemma numberOfBigInt_small: "n < 2 ^ 53 \<Longrightarrow> numberOfBigInt n = n"
  by (rule numberOfBigInt_exact) (rule isExactDouble_small)

section \<open>Facts about the send path\<close>

lemma codePointCount_le: "codePointCount t \<le> length t"
  by (induction t rule: codePointCount.induct) auto

lemma codePointCount_replicate:
  "\<not> isHighSurrogate u \<Longrightarrow> codePointCount (replicate n u) = n"
proof (induction n)
  case 0
  then show ?case by simp
next
  case (Suc n)
  then show ?case by (cases n) simp_all
qed

section \<open>Identifiers written by the deserializer\<close>

lemma byteToHex_two:
  "padStart2 (toString16 b) = [hexDigit (unat b div 16), hexDigit (unat b mod 16)]"
  by (simp add: padStart2_def toString16_def hexDigit_def)

lemma hexDigit_lower: "d < 16 \<Longrightarrow> isLowerHex (hexDigit d) \<and> hexDigitValue (hexDigit d) = Some d"
proof -
  assume "d < 16"
  then have "d = 0 \<or> d = 1 \<or> d = 2 \<or> d = 3 \<or> d = 4 \<or> d = 5 \<or> d = 6 \<or> d = 7 \<or> d = 8
      \<or> d = 9 \<or> d = 10 \<or> d = 11 \<or> d = 12 \<or> d = 13 \<or> d = 14 \<or> d = 15"
    by arith
  then show ?thesis
    by (auto simp: hexDigit_def isLowerHex_def hexDigitValue_def)
qed

lemma unat_byte_div: "unat (b :: byte) div 16 < 16"
  using unsigned_less [of b, where 'a = nat] by simp

lemma length_bytesToHex: "length (bytesToHex bs) = 2 * length bs"
  by (induction bs) (simp_all add: bytesToHex_def byteToHex_two)

lemma bytesToHex_lower: "list_all isLowerHex (bytesToHex bs)"
proof (induction bs)
  case Nil
  then show ?case by (simp add: bytesToHex_def)
next
  case (Cons b bs)
  have "unat b div 16 < 16" by (rule unat_byte_div)
  moreover have "unat b mod 16 < 16" by simp
  ultimately show ?case using Cons
    by (simp add: bytesToHex_def byteToHex_two hexDigit_lower)
qed

lemma bytesToHex_Cons: "bytesToHex (b # bs) = hexDigit (unat b div 16) # hexDigit (unat b mod 16) # bytesToHex bs"
  by (simp add: bytesToHex_def byteToHex_two)

lemma byte_of_hex:
  "toUint8 (parseInt16 [hexDigit (unat b div 16), hexDigit (unat b mod 16)]) = b"
proof -
  have d1: "unat b div 16 < 16" by (rule unat_byte_div)
  have d2: "unat b mod 16 < 16" by simp
  have "parseInt16 [hexDigit (unat b div 16), hexDigit (unat b mod 16)]
      = Some (int (16 * (unat b div 16) + unat b mod 16))"
    using hexDigit_lower [OF d1] hexDigit_lower [OF d2] by (intro parseInt16_pair) simp_all
  then have "toUint8 (parseInt16 [hexDigit (unat b div 16), hexDigit (unat b mod 16)])
      = (of_nat (unat b) :: byte)"
    by (simp only: toUint8_def option.case of_int_of_nat_eq) simp
  then show ?thesis by simp
qed

lemma hexToBytes_bytesToHex: "hexToBytes (length bs) (bytesToHex bs) = bs"
  by (induction bs) (simp_all add: hexToBytes_0 bytesToHex_Cons hexToBytes_Suc byte_of_hex)

lemma bytesToHex_inj: "length bs = length cs \<Longrightarrow> bytesToHex bs = bytesToHex cs \<Longrightarrow> bs = cs"
  by (metis hexToBytes_bytesToHex)

lemma formatUUID_parts:
  assumes "length hex = 32"
  shows "substr hex 0 8 @ substr hex 8 4 @ substr hex 12 4 @ substr hex 16 4 @ substr hex 20 12 = hex"
proof -
  have e1: "take 12 hex = take 8 hex @ take 4 (drop 8 hex)"
    using take_add [of 8 4 hex] by simp
  have e2: "take 16 hex = take 12 hex @ take 4 (drop 12 hex)"
    using take_add [of 12 4 hex] by simp
  have e3: "take 20 hex = take 16 hex @ take 4 (drop 16 hex)"
    using take_add [of 16 4 hex] by simp
  have e4: "take 32 hex = take 20 hex @ take 12 (drop 20 hex)"
    using take_add [of 20 12 hex] by simp
  have "take 32 hex = take 8 hex @ take 4 (drop 8 hex) @ take 4 (drop 12 hex)
      @ take 4 (drop 16 hex) @ take 12 (drop 20 hex)"
    by (simp only: e4 e3 e2 e1 append_assoc)
  moreover have "take 32 hex = hex" using assms by simp
  ultimately show ?thesis by (simp add: substr_def)
qed

lemma filter_formatUUID:
  assumes "length hex = 32" and "CHR ''-'' \<notin> set hex"
  shows "filter (\<lambda>c. c \<noteq> CHR ''-'') (formatUUID hex) = hex"
proof -
  have f: "filter (\<lambda>c. c \<noteq> CHR ''-'') (substr hex a n) = substr hex a n" for a n
    using assms(2) by (auto simp: substr_def filter_id_conv dest: in_set_takeD in_set_dropD)
  have "filter (\<lambda>c. c \<noteq> CHR ''-'') (formatUUID hex)
      = substr hex 0 8 @ substr hex 8 4 @ substr hex 12 4 @ substr hex 16 4 @ substr hex 20 12"
    by (simp add: formatUUID_def f)
  then show ?thesis by (simp add: formatUUID_parts [OF assms(1)])
qed

lemma lowerHex_no_hyphen:
  assumes "list_all isLowerHex hex"
  shows "CHR ''-'' \<notin> set hex"
proof
  assume "CHR ''-'' \<in> set hex"
  with assms have "isLowerHex CHR ''-''" by (simp add: list_all_iff)
  then show False by (simp add: isLowerHex_def)
qed

lemma formatUUID_bytesToHex_canonical:
  assumes "length bs = 16"
  shows "isCanonicalUUID (formatUUID (bytesToHex bs))"
proof -
  have l: "length (bytesToHex bs) = 32" using assms by (simp add: length_bytesToHex)
  have f: "filter (\<lambda>c. c \<noteq> CHR ''-'') (formatUUID (bytesToHex bs)) = bytesToHex bs"
    by (rule filter_formatUUID [OF l lowerHex_no_hyphen [OF bytesToHex_lower]])
  show ?thesis
    unfolding isCanonicalUUID_def Let_def f isLowerHexString_def
    using l bytesToHex_lower [of bs] by simp
qed

lemma formatUUID_bytesToHex_inj:
  assumes b: "length bs = 16" and c: "length cs = 16"
    and eq: "formatUUID (bytesToHex bs) = formatUUID (bytesToHex cs)"
  shows "bs = cs"
proof -
  have l: "length (bytesToHex bs) = 32" "length (bytesToHex cs) = 32"
    using b c by (simp_all add: length_bytesToHex)
  have "bytesToHex bs = filter (\<lambda>c. c \<noteq> CHR ''-'') (formatUUID (bytesToHex bs))"
    by (rule filter_formatUUID [OF l(1) lowerHex_no_hyphen [OF bytesToHex_lower], symmetric])
  also have "\<dots> = filter (\<lambda>c. c \<noteq> CHR ''-'') (formatUUID (bytesToHex cs))"
    by (simp only: eq)
  also have "\<dots> = bytesToHex cs"
    by (rule filter_formatUUID [OF l(2) lowerHex_no_hyphen [OF bytesToHex_lower]])
  finally have "bytesToHex bs = bytesToHex cs" .
  moreover have "length bs = length cs" using b c by simp
  ultimately show ?thesis by (intro bytesToHex_inj)
qed

lemma uuidOfNat_inj:
  assumes "i < 256 ^ 16" "j < 256 ^ 16" "uuidOfNat i = uuidOfNat j"
  shows "i = j"
proof -
  have "be_bytes 16 i = be_bytes 16 j"
    using assms(3) unfolding uuidOfNat_def by (intro formatUUID_bytesToHex_inj) simp_all
  then have "be_value (be_bytes 16 i) = be_value (be_bytes 16 j)" by simp
  then have "i mod 256 ^ 16 = j mod 256 ^ 16" by (simp only: be_value_be_bytes)
  then show ?thesis using assms(1,2) by (simp only: mod_less)
qed

section \<open>Facts about marking in the duplicate cache\<close>

lemma markAsProcessed_fresh:
  assumes d: "distinct (map fst (cache d))"
    and old: "\<forall>e \<in> set (cache d). \<not> snd e < now_prune - 300000"
    and new: "\<not> now_set < now_prune - 300000"
  shows "cache (markAsProcessed i now_set now_prune d) = map_set i now_set (cache d)"
proof -
  have "distinct (map fst (map_set i now_set (cache d)))"
    using d by (rule distinct_map_set)
  then have "pruneLoop (now_prune - 300000) (map_set i now_set (cache d)) (map_set i now_set (cache d))
      = filter (\<lambda>e. \<not> snd e < now_prune - 300000) (map_set i now_set (cache d))"
    by (rule pruneLoop_self_distinct)
  also have "\<dots> = map_set i now_set (cache d)"
  proof (rule filter_True, rule ballI)
    fix e assume "e \<in> set (map_set i now_set (cache d))"
    then have "e = (i, now_set) \<or> e \<in> set (cache d)"
      using set_map_set_subset [of i now_set "cache d"] by auto
    then show "\<not> snd e < now_prune - 300000" using old new by auto
  qed
  finally show ?thesis
    by (simp add: markAsProcessed_def pruneCache_def CACHE_EXPIRATION_MS_def)
qed

lemma fold_markAsProcessed_size:
  assumes "distinct ids" and "set ids \<inter> fst ` set (cache d) = {}"
    and "distinct (map fst (cache d))"
    and "\<forall>e \<in> set (cache d). \<not> snd e < now - 300000"
  shows "getCacheSize (fold (\<lambda>i. markAsProcessed i now now) ids d) = getCacheSize d + length ids"
  using assms
proof (induction ids arbitrary: d)
  case Nil
  then show ?case by simp
next
  case (Cons i ids)
  let ?d = "markAsProcessed i now now d"
  have c: "cache ?d = map_set i now (cache d)"
    using Cons.prems(3,4) by (intro markAsProcessed_fresh) simp_all
  have i: "i \<notin> fst ` set (cache d)" using Cons.prems(2) by auto
  have keys: "fst ` set (cache ?d) = insert i (fst ` set (cache d))"
    using map_fst_map_set [of i now "cache d"] i
    by (metis c list.set_map set_append list.simps(15) empty_set Un_insert_right sup_bot.right_neutral)
  have 1: "set ids \<inter> fst ` set (cache ?d) = {}"
    using Cons.prems(1,2) keys by auto
  have 2: "distinct (map fst (cache ?d))"
    unfolding c using Cons.prems(3) by (rule distinct_map_set)
  have 3: "\<forall>e \<in> set (cache ?d). \<not> snd e < now - 300000"
    unfolding c using Cons.prems(4) set_map_set_subset [of i now "cache d"] by auto
  have "getCacheSize (fold (\<lambda>i. markAsProcessed i now now) ids ?d) = getCacheSize ?d + length ids"
    using Cons.prems(1) 1 2 3 by (intro Cons.IH) simp_all
  moreover have "getCacheSize ?d = Suc (getCacheSize d)"
    using i by (simp add: getCacheSize_def map_size_def c length_map_set)
  ultimately show ?case by simp
qed

section \<open>Facts about transmission and relay\<close>

lemma transmitToAllPeers_snd:
  "snd (transmitToAllPeers w data ex s) =
     s\<lparr>events := events s
          @ map (\<lambda>d. SendDataCall d data (sendData (ble w) d data)) (devicesToSend (ble w) ex)\<rparr>"
  by (simp add: transmitToAllPeers_def Let_def)

lemma any_success:
  "(0 < length (filter (\<lambda>success. success) (map f ds))) = (\<exists>d \<in> set ds. f d)"
proof -
  have "filter (\<lambda>success. success) (map f ds) = map f (filter f ds)"
    by (simp add: filter_map o_def)
  then have "length (filter (\<lambda>success. success) (map f ds)) = length (filter f ds)"
    by simp
  then show ?thesis
    by (simp only: length_greater_0_conv filter_empty_conv) simp
qed

lemma transmitToAllPeers_fst:
  "fst (transmitToAllPeers w data ex s) =
     (\<exists>d \<in> set (devicesToSend (ble w) ex). sendData (ble w) d data)"
proof (cases "devicesToSend (ble w) ex = []")
  case True
  then show ?thesis by (simp add: transmitToAllPeers_def)
next
  case False
  then have "fst (transmitToAllPeers w data ex s) =
      (0 < length (filter (\<lambda>success. success)
         (map (\<lambda>deviceId. sendData (ble w) deviceId data) (devicesToSend (ble w) ex))))"
    unfolding transmitToAllPeers_def Let_def
    by (simp only: length_0_conv if_False fst_conv)
  then show ?thesis by (simp only: any_success)
qed

lemma transmitToAllPeers_eq:
  "transmitToAllPeers w data ex s =
     (\<exists>d \<in> set (devicesToSend (ble w) ex). sendData (ble w) d data,
      s\<lparr>events := events s
          @ map (\<lambda>d. SendDataCall d data (sendData (ble w) d data)) (devicesToSend (ble w) ex)\<rparr>)"
  by (rule prod_eqI) (simp_all only: fst_conv snd_conv transmitToAllPeers_fst transmitToAllPeers_snd)

lemma newEvents_append [simp]: "newEvents s (s\<lparr>events := events s @ evs\<rparr>) = evs"
  by (simp add: newEvents_def)

lemma devicesToSend_exclude:
  "ex \<noteq> [] \<Longrightarrow> devicesToSend b (Some ex) = filter (\<lambda>d. d \<noteq> ex) (connectedDevices b)"
  by (simp add: devicesToSend_def getConnectedDevices_def)

lemma devicesToSend_None: "devicesToSend b None = connectedDevices b"
  by (simp add: devicesToSend_def getConnectedDevices_def)

lemma relayMessage_serialized:
  assumes "serializeEnvelope (e\<lparr>ttl := ttl e - 1\<rparr>) = Inr data"
  shows "relayMessage w e ex s =
     s\<lparr>events := events s @ RelayLog (messageId e) (ttl e - 1) ex
          # map (\<lambda>d. SendDataCall d data (sendData (ble w) d data)) (devicesToSend (ble w) (Some ex))\<rparr>"
  using assms by (simp add: relayMessage_def Let_def emit_def transmitToAllPeers_snd)

lemma relayMessage_failed:
  assumes "serializeEnvelope (e\<lparr>ttl := ttl e - 1\<rparr>) = Inl err"
  shows "relayMessage w e ex s = s\<lparr>events := events s @ [RelayLog (messageId e) (ttl e - 1) ex]\<rparr>"
  using assms by (simp add: relayMessage_def Let_def emit_def)

lemmas codec_eval =
  serializeEnvelope_def validateEnvelope_def MESSAGE_ENVELOPE_VERSION_def
  be_bytes_numeral hexToBytes_numeral hexToBytes_Suc hexToBytes_0 parseInt16_def
  isStrWhiteSpace_def hexDigitValue_def toUint8_def

lemmas decode_eval =
  deserializeEnvelope_def validateEnvelope_def MESSAGE_ENVELOPE_VERSION_def slice_def
  be_value_def bytesToHex_def toString16_def padStart2_def hexDigit_def formatUUID_def
  substr_def numberOfBigInt_small

lemma sample_envelope_wf:
  "validateEnvelope sample_envelope = Inr True"
  "isCanonicalUUID (messageId sample_envelope)"
  "isLowerHexString 16 (senderId sample_envelope)"
  "isLowerHexString 16 (recipientId sample_envelope)"
  "timestamp sample_envelope = of_nat 1700000000000"
  "(1700000000000 :: nat) < 2 ^ 64"
  "isExactDouble 1700000000000"
  "length (nonce sample_envelope) \<le> 1024"
  "length (tag sample_envelope) \<le> 1024"
  "length (encryptedPayload sample_envelope) \<le> 10 * 1024 * 1024"
proof -
  show "validateEnvelope sample_envelope = Inr True"
    by (simp add: sample_envelope_def validateEnvelope_def MESSAGE_ENVELOPE_VERSION_def)
  show "isCanonicalUUID (messageId sample_envelope)"
    by (simp add: sample_envelope_def isCanonicalUUID_def isLowerHexString_def isLowerHex_def
        formatUUID_def substr_def)
  show "isLowerHexString 16 (senderId sample_envelope)"
    by (simp add: sample_envelope_def isLowerHexString_def isLowerHex_def)
  show "isLowerHexString 16 (recipientId sample_envelope)"
    by (simp add: sample_envelope_def isLowerHexString_def isLowerHex_def)
  show "timestamp sample_envelope = of_nat 1700000000000"
    by (simp add: sample_envelope_def)
  show "(1700000000000 :: nat) < 2 ^ 64" by simp
  show "isExactDouble 1700000000000"
    by (rule isExactDouble_small) simp
  show "length (nonce sample_envelope) \<le> 1024" "length (tag sample_envelope) \<le> 1024"
    "length (encryptedPayload sample_envelope) \<le> 10 * 1024 * 1024"
    by (simp_all add: sample_envelope_def)
qed

lemma sample_relay_serialized:
  "serializeEnvelope (sample_envelope\<lparr>ttl := 9\<rparr>) = Inr sample_relay_bytes"
  by (simp add: sample_envelope_def sample_relay_bytes_def codec_eval)

lemma sample_relay_deserialized:
  "deserializeEnvelope sample_relay_bytes = Inr (sample_envelope\<lparr>ttl := 9\<rparr>)"
  by (simp add: sample_envelope_def sample_relay_bytes_def decode_eval)

lemma sample_upper_relay_serialized:
  "serializeEnvelope (sample_envelope\<lparr>messageId := ''550E8400-E29B-41D4-A716-446655440000'', ttl := 9\<rparr>)
     = Inr sample_relay_bytes"
  by (simp add: sample_envelope_def sample_relay_bytes_def codec_eval)

lemma sample_wrapped_serialized:
  "serializeEnvelope (sample_envelope\<lparr>timestamp := 18446744073709551616, ttl := 9\<rparr>)
     = Inr sample_wrapped_bytes"
  by (simp add: sample_envelope_def sample_wrapped_bytes_def codec_eval)

lemma sample_wrapped_deserialized:
  "deserializeEnvelope sample_wrapped_bytes = Inl MissingTimestamp"
  by (simp add: sample_wrapped_bytes_def decode_eval)

section \<open>Facts about the receive path\<close>

lemma relayMessage_eq: "relayMessage w e ex s = s\<lparr>events := events s @ relayEvents w e ex\<rparr>"
  by (simp add: relayMessage_def relayEvents_def Let_def emit_def transmitToAllPeers_snd
      split: sum.splits)

lemma deserializeEnvelope_valid:
  assumes "deserializeEnvelope data = Inr e"
  shows "validateEnvelope e = Inr True"
proof -
  from assms obtain b where "validateEnvelope e = Inr b"
    unfolding deserializeEnvelope_def Let_def
    by (auto split: if_splits sum.splits)
  then show ?thesis using validateEnvelope_Inr_True by blast
qed

lemma handleIncomingMessage_factored:
  assumes d: "deserializeEnvelope data = Inr e"
  shows "handleIncomingMessage w sender data peers s =
     (if isDuplicate (duplicateDetector s) (messageId e) then s
      else let r = localDelivery w sender e peers
                     (s\<lparr>duplicateDetector :=
                          markAsProcessed (messageId e) (now_marked w) (now_pruned w)
                            (duplicateDetector s)\<rparr>)
           in if fst r \<and> 0 < ttl e then relayMessage w e sender (snd r) else snd r)"
proof (cases "isDuplicate (duplicateDetector s) (messageId e)")
  case True
  then show ?thesis
    by (simp add: handleIncomingMessage_def d deserializeEnvelope_valid [OF d])
next
  case nd: False
  define s1 where "s1 = s\<lparr>duplicateDetector :=
      markAsProcessed (messageId e) (now_marked w) (now_pruned w) (duplicateDetector s)\<rparr>"
  note defs = handleIncomingMessage_def localDelivery_def d deserializeEnvelope_valid [OF d]
    Let_def s1_def [symmetric]
  show ?thesis
  proof (cases "resolveSenderPeer (crypto w) peers (senderId e) sender")
    case (Inl err)
    then show ?thesis using nd by (simp add: defs)
  next
    case (Inr senderPeer)
    show ?thesis
    proof (cases "case senderPeer of None \<Rightarrow> None
        | Some p \<Rightarrow> (case sharedSecret p of None \<Rightarrow> None | Some k \<Rightarrow> Some (p, k))")
      case None
      then show ?thesis using nd Inr by (simp add: defs)
    next
      case (Some pk)
      obtain p secret where pk: "pk = (p, secret)" by (cases pk)
      define enc where "enc = \<lparr>ciphertext = encryptedPayload e, enc_nonce = nonce e, enc_tag = tag e\<rparr>"
      show ?thesis
      proof (cases "decryptMessage (crypto w) enc secret")
        case (Inl err)
        then show ?thesis using nd Inr Some pk by (simp add: defs enc_def)
      next
        case dec: (Inr res)
        show ?thesis
        proof (cases res)
          case None
          then show ?thesis using nd Inr Some pk dec by (simp add: defs enc_def)
        next
          case (Some plaintext)
          define message where "message = \<lparr>msg_id = messageId e, peerId = peer_id p,
              msg_text = plaintext, msg_timestamp = timestamp e, sent = False, delivered = True,
              failed = False\<rparr>"
          obtain res3 s3 where st: "storeMessage w message (emit (DecryptCall enc secret) s1) = (res3, s3)"
            by (cases "storeMessage w message (emit (DecryptCall enc secret) s1)")
          show ?thesis
            using nd Inr \<open>(case senderPeer of None \<Rightarrow> None
                | Some p \<Rightarrow> (case sharedSecret p of None \<Rightarrow> None | Some k \<Rightarrow> Some (p, k))) = Some pk\<close>
              pk dec Some st
            by (cases res3) (simp_all add: defs enc_def [symmetric] message_def [symmetric])
        qed
      qed
    qed
  qed
qed

lemma storeMessage_fails:
  "storage_fails w \<Longrightarrow> storeMessage w m s = (Inl StorageFailure, emit (StoreMessageCall m False) s)"
  by (simp add: storeMessage_def)

lemma storeMessage_ok:
  "\<not> storage_fails w \<Longrightarrow> storeMessage w m s =
     (Inr (), emit (StoreMessageCall m True)
        (s\<lparr>storage := map_set (STORAGE_KEY_MESSAGES_PREFIX @ peerId m)
             ((case map_get (storage s) (STORAGE_KEY_MESSAGES_PREFIX @ peerId m) of
                 None \<Rightarrow> [] | Some ms \<Rightarrow> ms) @ [m]) (storage s)\<rparr>))"
  by (simp add: storeMessage_def Let_def)

lemma deriveSenderId_initialized:
  "initialized cs \<Longrightarrow> deriveSenderId cs pk = Inr (take 16 (take FINGERPRINT_LENGTH (crypto_hash_hex cs pk)))"
  by (simp add: deriveSenderId_def generateTrustFingerprint_def)

lemma findSenderPeer_initialized:
  "initialized cs \<Longrightarrow> \<exists>r. findSenderPeer cs sid ps = Inr r"
  by (induction ps) (auto simp: deriveSenderId_initialized split: option.splits)

lemma resolveSenderPeer_Inl:
  assumes "resolveSenderPeer cs peers sid sender = Inl err"
  shows "\<not> initialized cs"
proof
  assume "initialized cs"
  then obtain r where "findSenderPeer cs sid (map snd peers) = Inr r"
    using findSenderPeer_initialized by blast
  with assms show False
    by (cases r) (simp_all add: resolveSenderPeer_def)
qed

lemma decryptMessage_Inl:
  "decryptMessage cs enc secret = Inl err \<Longrightarrow> \<not> initialized cs"
  by (auto simp: decryptMessage_def split: if_splits)

lemma localDelivery_cases:
  fixes w sender e peers s1
  defines "ld \<equiv> localDelivery w sender e peers s1"
  obtains
    (resolve_failed) "\<not> initialized (crypto w)" "ld = (False, s1)"
  | (no_secret) "ld = (True, s1)"
  | (decrypt_threw) enc secret where "\<not> initialized (crypto w)"
      "ld = (False, emit (DecryptCall enc secret) s1)"
  | (undecryptable) enc secret where "ld = (True, emit (DecryptCall enc secret) s1)"
  | (store_failed) enc secret m where "msg_id m = messageId e" "storage_fails w"
      "ld = (False, emit (StoreMessageCall m False) (emit (DecryptCall enc secret) s1))"
  | (delivered) enc secret m st where "msg_id m = messageId e" "\<not> storage_fails w"
      "ld = (True, (if messageReceivedCallback s1
                    then emit (MessageReceivedCallback m) else (\<lambda>s. s))
                     (emit (StoreMessageCall m True)
                        ((emit (DecryptCall enc secret) s1)\<lparr>storage := st\<rparr>)))"
proof (cases "resolveSenderPeer (crypto w) peers (senderId e) sender")
  case (Inl err)
  then have "ld = (False, s1)" by (simp add: ld_def localDelivery_def)
  moreover have "\<not> initialized (crypto w)" using Inl by (rule resolveSenderPeer_Inl)
  ultimately show ?thesis by (intro resolve_failed)
next
  case (Inr senderPeer)
  show ?thesis
  proof (cases "case senderPeer of None \<Rightarrow> None
      | Some p \<Rightarrow> (case sharedSecret p of None \<Rightarrow> None | Some k \<Rightarrow> Some (p, k))")
    case None
    then have "ld = (True, s1)" using Inr by (simp add: ld_def localDelivery_def)
    then show ?thesis by (rule no_secret)
  next
    case (Some pk)
    obtain p secret where pk: "pk = (p, secret)" by (cases pk)
    define enc where "enc = \<lparr>ciphertext = encryptedPayload e, enc_nonce = nonce e, enc_tag = tag e\<rparr>"
    note sel = Inr Some pk
    show ?thesis
    proof (cases "decryptMessage (crypto w) enc secret")
      case (Inl err)
      then have "ld = (False, emit (DecryptCall enc secret) s1)"
        using sel by (simp add: ld_def localDelivery_def Let_def enc_def)
      moreover have "\<not> initialized (crypto w)" using Inl by (rule decryptMessage_Inl)
      ultimately show ?thesis by (intro decrypt_threw)
    next
      case dec: (Inr res)
      show ?thesis
      proof (cases res)
        case None
        then have "ld = (True, emit (DecryptCall enc secret) s1)"
          using sel dec by (simp add: ld_def localDelivery_def Let_def enc_def)
        then show ?thesis by (rule undecryptable)
      next
        case plain: (Some plaintext)
        define m where "m = \<lparr>msg_id = messageId e, peerId = peer_id p,
            msg_text = plaintext, msg_timestamp = timestamp e, sent = False, delivered = True,
            failed = False\<rparr>"
        have mid: "msg_id m = messageId e" by (simp add: m_def)
        show ?thesis
        proof (cases "storage_fails w")
          case True
          then have "ld = (False, emit (StoreMessageCall m False) (emit (DecryptCall enc secret) s1))"
            using sel dec plain
            by (simp add: ld_def localDelivery_def Let_def enc_def [symmetric] m_def [symmetric]
                storeMessage_fails)
          with mid True show ?thesis by (rule store_failed)
        next
          case False
          then have "ld = (True, (if messageReceivedCallback s1
                    then emit (MessageReceivedCallback m) else (\<lambda>s. s))
                     (emit (StoreMessageCall m True)
                        ((emit (DecryptCall enc secret) s1)\<lparr>storage :=
                           map_set (STORAGE_KEY_MESSAGES_PREFIX @ peerId m)
                             ((case map_get (storage s1) (STORAGE_KEY_MESSAGES_PREFIX @ peerId m) of
                                 None \<Rightarrow> [] | Some ms \<Rightarrow> ms) @ [m]) (storage s1)\<rparr>)))"
            using sel dec plain
            by (simp add: ld_def localDelivery_def Let_def enc_def [symmetric] m_def [symmetric]
                storeMessage_ok emit_def)
          with mid False show ?thesis by (rule delivered)
        qed
      qed
    qed
  qed
qed

lemma emit_events [simp]: "events (emit ev s) = events s @ [ev]"
  by (simp add: emit_def)

lemma newEvents_same_prefix:
  "events s' = events s @ evs \<Longrightarrow> newEvents s s' = evs"
  by (simp add: newEvents_def)

lemma filter_isRelayLog_relayEvents:
  "filter isRelayLog (relayEvents w e ex) = [RelayLog (messageId e) (ttl e - 1) ex]"
  by (simp add: relayEvents_def isRelayLog_def filter_map o_def split: sum.splits)

lemma relayEvents_ttl:
  "RelayLog i t x \<in> set (relayEvents w e ex) \<Longrightarrow> t = ttl e - 1"
  by (auto simp: relayEvents_def split: sum.splits)

text \<open>The events of local delivery: what the call appends before any relay.\<close>

lemma localDelivery_events:
  "\<exists>evs. events (snd (localDelivery w sender e peers s1)) = events s1 @ evs
     \<and> filter isRelayLog evs = [] \<and> filter isSendDataCall evs = []
     \<and> (\<forall>i t x. RelayLog i t x \<notin> set evs)
     \<and> (\<forall>mid. filter (isRelayFor mid) evs = [])
     \<and> (\<forall>mid. length (filter (isReceivedFor mid) evs) \<le> 1)
     \<and> (\<forall>mid. mid \<noteq> messageId e \<longrightarrow> filter (isReceivedFor mid) evs = [])"
proof (cases rule: localDelivery_cases [of w sender e peers s1])
  case resolve_failed
  then show ?thesis by simp
next
  case no_secret
  then show ?thesis by simp
next
  case (decrypt_threw enc secret)
  then show ?thesis
    by (simp add: isRelayLog_def isSendDataCall_def isRelayFor_def isReceivedFor_def)
next
  case (undecryptable enc secret)
  then show ?thesis
    by (simp add: isRelayLog_def isSendDataCall_def isRelayFor_def isReceivedFor_def)
next
  case (store_failed enc secret m)
  then show ?thesis
    by (simp add: isRelayLog_def isSendDataCall_def isRelayFor_def isReceivedFor_def)
next
  case (delivered enc secret m st)
  then show ?thesis
    by (simp add: isRelayLog_def isSendDataCall_def isRelayFor_def isReceivedFor_def emit_def)
qed

lemma localDelivery_reaches:
  assumes "initialized (crypto w)" "\<not> storage_fails w"
  shows "fst (localDelivery w sender e peers s1)"
  using assms by (cases rule: localDelivery_cases [of w sender e peers s1]) simp_all

lemma localDelivery_duplicateDetector:
  "duplicateDetector (snd (localDelivery w sender e peers s1)) = duplicateDetector s1"
  by (cases rule: localDelivery_cases [of w sender e peers s1]) (simp_all add: emit_def)

lemma handleIncomingMessage_relay_decision:
  assumes d: "deserializeEnvelope data = Inr e"
    and nd: "\<not> isDuplicate (duplicateDetector s) (messageId e)"
    and ci: "initialized (crypto w)" and st: "\<not> storage_fails w"
  shows "filter isRelayLog (newEvents s (handleIncomingMessage w sender data peers s))
       = (if 0 < ttl e then [RelayLog (messageId e) (ttl e - 1) sender] else [])"
    and "ttl e = 0 \<longrightarrow> filter isSendDataCall (newEvents s (handleIncomingMessage w sender data peers s)) = []"
    and "\<forall>i t x. RelayLog i t x \<in> set (newEvents s (handleIncomingMessage w sender data peers s)) \<longrightarrow> 0 \<le> t"
proof -
  define s1 where "s1 = s\<lparr>duplicateDetector :=
      markAsProcessed (messageId e) (now_marked w) (now_pruned w) (duplicateDetector s)\<rparr>"
  define ld where "ld = localDelivery w sender e peers s1"
  have reach: "fst ld" unfolding ld_def using ci st by (rule localDelivery_reaches)
  obtain evs where evs: "events (snd ld) = events s @ evs" "filter isRelayLog evs = []"
    "filter isSendDataCall evs = []" "\<forall>i t x. RelayLog i t x \<notin> set evs"
    using localDelivery_events [of w sender e peers s1] unfolding ld_def s1_def by auto
  have h: "handleIncomingMessage w sender data peers s =
      (if 0 < ttl e then relayMessage w e sender (snd ld) else snd ld)"
    using handleIncomingMessage_factored [OF d, of w sender peers s] nd reach
    by (simp add: Let_def s1_def ld_def)
  have n: "newEvents s (handleIncomingMessage w sender data peers s)
      = evs @ (if 0 < ttl e then relayEvents w e sender else [])"
    by (rule newEvents_same_prefix) (simp add: h relayMessage_eq evs(1))
  show "filter isRelayLog (newEvents s (handleIncomingMessage w sender data peers s))
       = (if 0 < ttl e then [RelayLog (messageId e) (ttl e - 1) sender] else [])"
    unfolding n by (simp add: evs(2) filter_isRelayLog_relayEvents)
  show "ttl e = 0 \<longrightarrow> filter isSendDataCall (newEvents s (handleIncomingMessage w sender data peers s)) = []"
    unfolding n by (simp add: evs(3))
  show "\<forall>i t x. RelayLog i t x \<in> set (newEvents s (handleIncomingMessage w sender data peers s)) \<longrightarrow> 0 \<le> t"
    unfolding n using evs(4) by (auto dest: relayEvents_ttl split: if_splits)
qed

lemma handleIncomingMessage_store_failed:
  assumes d: "deserializeEnvelope data = Inr e"
    and nd: "\<not> isDuplicate (duplicateDetector s) (messageId e)"
    and r: "resolveSenderPeer (crypto w) peers (senderId e) sender = Inr (Some p)"
    and k: "sharedSecret p = Some secret"
    and dec: "decryptMessage (crypto w)
        \<lparr>ciphertext = encryptedPayload e, enc_nonce = nonce e, enc_tag = tag e\<rparr> secret
        = Inr (Some plaintext)"
    and sf: "storage_fails w"
  shows "handleIncomingMessage w sender data peers s =
     s\<lparr>duplicateDetector :=
          markAsProcessed (messageId e) (now_marked w) (now_pruned w) (duplicateDetector s),
       events := events s @
         [DecryptCall \<lparr>ciphertext = encryptedPayload e, enc_nonce = nonce e, enc_tag = tag e\<rparr> secret,
          StoreMessageCall \<lparr>msg_id = messageId e, peerId = peer_id p, msg_text = plaintext,
             msg_timestamp = timestamp e, sent = False, delivered = True, failed = False\<rparr> False]\<rparr>"
  using nd r k dec sf
  by (simp add: handleIncomingMessage_def d deserializeEnvelope_valid [OF d] Let_def
      storeMessage_fails emit_def)

lemma sample_deserialized: "deserializeEnvelope sample_bytes = Inr sample_envelope"
  by (simp add: sample_envelope_def sample_bytes_def decode_eval)

lemma sample_final_deserialized:
  "deserializeEnvelope sample_final_bytes = Inr (sample_envelope\<lparr>ttl := 0\<rparr>)"
  by (simp add: sample_envelope_def sample_final_bytes_def decode_eval)

lemma sample_fresh: "\<not> isDuplicate (duplicateDetector sample_state) mid"
  by (simp add: sample_state_def newDuplicateDetector_def isDuplicate_def map_has_def)

lemma sample_resolved:
  "resolveSenderPeer sample_crypto sample_peers ''a1b2c3d4e5f60718'' ''peer-A''
     = Inr (Some sample_peer)"
  by (simp add: resolveSenderPeer_def sample_peers_def sample_peer_def deriveSenderId_def
      generateTrustFingerprint_def sample_crypto_def FINGERPRINT_LENGTH_def)

lemma sample_decrypted:
  "decryptMessage sample_crypto sample_encrypted sample_secret = Inr (Some sample_text)"
  by (simp add: decryptMessage_def sample_crypto_def sample_encrypted_def sample_envelope_def
      sample_secret_def KEYBYTES_def NPUBBYTES_def ABYTES_def)

lemma sample_failing_store:
  "handleIncomingMessage failing_storage_world ''peer-A'' sample_bytes sample_peers sample_state
     = sample_state
       \<lparr>duplicateDetector :=
          markAsProcessed ''550e8400-e29b-41d4-a716-446655440000'' 1700000000100 1700000000100
            newDuplicateDetector,
        events := [DecryptCall sample_encrypted sample_secret,
                   StoreMessageCall sample_message False]\<rparr>"
proof -
  have r: "resolveSenderPeer (crypto failing_storage_world) sample_peers
      (senderId sample_envelope) ''peer-A'' = Inr (Some sample_peer)"
    using sample_resolved
    by (simp add: failing_storage_world_def sample_world_def sample_envelope_def)
  have k: "sharedSecret sample_peer = Some sample_secret" by (simp add: sample_peer_def)
  have dec: "decryptMessage (crypto failing_storage_world)
      \<lparr>ciphertext = encryptedPayload sample_envelope, enc_nonce = nonce sample_envelope,
       enc_tag = tag sample_envelope\<rparr> sample_secret = Inr (Some sample_text)"
    using sample_decrypted
    by (simp add: failing_storage_world_def sample_world_def sample_encrypted_def)
  have sf: "storage_fails failing_storage_world" by (simp add: failing_storage_world_def)
  show ?thesis
    unfolding handleIncomingMessage_store_failed [OF sample_deserialized sample_fresh r k dec sf]
    by (simp add: failing_storage_world_def sample_world_def sample_state_def
        sample_encrypted_def sample_message_def sample_envelope_def sample_peer_def)
qed

lemma sample_first_receipt_detector:
  "duplicateDetector
     (handleIncomingMessage sample_world ''peer-A'' sample_bytes sample_peers sample_state)
   = \<lparr>cache = [(''550e8400-e29b-41d4-a716-446655440000'', 1700000000100)]\<rparr>"
proof -
  have "duplicateDetector
     (handleIncomingMessage sample_world ''peer-A'' sample_bytes sample_peers sample_state)
     = markAsProcessed (messageId sample_envelope) (now_marked sample_world)
         (now_pruned sample_world) (duplicateDetector sample_state)"
    unfolding handleIncomingMessage_factored [OF sample_deserialized]
    by (simp add: sample_fresh Let_def relayMessage_eq localDelivery_duplicateDetector)
  then show ?thesis
    by (simp add: sample_envelope_def sample_world_def sample_state_def newDuplicateDetector_def
        markAsProcessed_def pruneCache_def CACHE_EXPIRATION_MS_def)
qed

section \<open>Facts about the length of texts\<close>

lemma codePointCount_pairs:
  "isHighSurrogate hi \<Longrightarrow> isLowSurrogate lo \<Longrightarrow>
     codePointCount (concat (replicate n [hi, lo])) = n"
  by (induction n) simp_all

lemma length_pairs: "length (concat (replicate n [hi, lo])) = 2 * n"
  by (induction n) simp_all

lemma emoji_text_measures: "codePointCount emoji_text = 251" "length emoji_text = 502"
proof -
  show "codePointCount emoji_text = 251"
    unfolding emoji_text_def
    by (rule codePointCount_pairs) (simp_all add: isHighSurrogate_def isLowSurrogate_def)
  show "length emoji_text = 502"
    unfolding emoji_text_def by (simp add: length_pairs)
qed

section \<open>Facts about sending\<close>

lemma sendMessage_sent:
  assumes "0 < length text'" "length text' \<le> MAX_MESSAGE_LENGTH"
    and "map_get peers r = Some recipient" "sharedSecret recipient = Some secret"
    and "getPublicKey (crypto w) = Inr own" "deriveSenderId (crypto w) own = Inr sid"
    and "(case publicKey recipient of Some pk \<Rightarrow> deriveSenderId (crypto w) pk
          | None \<Rightarrow> Inr (take 16 r)) = Inr rid"
    and "encryptMessage (crypto w) text' secret = Inr encrypted"
    and "createEnvelope encrypted (generateUUID (random_byte w)) sid rid
           (of_int (now_timestamp w)) INITIAL_MESSAGE_TTL = Inr envelope"
    and "serializeEnvelope envelope = Inr data"
    and "\<not> storage_fails w"
    and "m = \<lparr>msg_id = generateUUID (random_byte w), peerId = r, msg_text = text',
              msg_timestamp = of_int (now_timestamp w), sent = True, delivered = False,
              failed = False\<rparr>"
    and "s3 = s\<lparr>storage :=
                 map_set (STORAGE_KEY_MESSAGES_PREFIX @ r)
                   ((case map_get (storage s) (STORAGE_KEY_MESSAGES_PREFIX @ r) of
                       None \<Rightarrow> [] | Some ms \<Rightarrow> ms) @ [m]) (storage s),
               events := events s @ EncryptCall text' secret # StoreMessageCall m True
                 # map (\<lambda>d. SendDataCall d data (sendData (ble w) d data))
                     (connectedDevices (ble w))\<rparr>"
  shows "sendMessage w r text' peers s =
     (if \<exists>d \<in> set (connectedDevices (ble w)). sendData (ble w) d data
      then (Inr (m\<lparr>delivered := True\<rparr>),
            if messageStatusCallback s
            then emit (MessageStatusCallback (msg_id m) Delivered) s3 else s3)
      else (Inr m, queueMessageForRetry w (msg_id m) r envelope data s3))"
proof -
  have len: "\<not> (length text' > MAX_MESSAGE_LENGTH)" "length text' \<noteq> 0" using assms(1,2) by auto
  have mid: "msg_id m = generateUUID (random_byte w)" using assms(12) by simp
  have pm: "peerId m = r" using assms(12) by simp
  show ?thesis
    unfolding assms(13) mid
    using len assms(3-11)
    by (simp add: sendMessage_def assms(12) [symmetric] storeMessage_ok
        transmitToAllPeers_eq devicesToSend_None Let_def emit_def pm)
qed

lemma sendMessage_cases:
  fixes w r text' peers s
  defines "sm \<equiv> sendMessage w r text' peers s"
  obtains
    (rejected) err where "sm = (Inl err, s)"
  | (not_stored) err secret where "sm = (Inl err, emit (EncryptCall text' secret) s)"
  | (store_failed) secret m where "storage_fails w"
      "sm = (Inl StorageFailure,
             emit (StoreMessageCall m False) (emit (EncryptCall text' secret) s))"
  | (sent) secret envelope data m where
      "serializeEnvelope envelope = Inr data" "messageId envelope = msg_id m"
      "ttl envelope = INITIAL_MESSAGE_TTL"
      "peerId m = r" "msg_text m = text'" "sent m" "\<not> delivered m" "\<not> failed m"
      "\<not> storage_fails w"
      "sm = (let s3 = s\<lparr>storage :=
                         map_set (STORAGE_KEY_MESSAGES_PREFIX @ r)
                           ((case map_get (storage s) (STORAGE_KEY_MESSAGES_PREFIX @ r) of
                               None \<Rightarrow> [] | Some ms \<Rightarrow> ms) @ [m]) (storage s),
                       events := events s @ EncryptCall text' secret # StoreMessageCall m True
                         # map (\<lambda>d. SendDataCall d data (sendData (ble w) d data))
                             (connectedDevices (ble w))\<rparr>
             in if \<exists>d \<in> set (connectedDevices (ble w)). sendData (ble w) d data
                then (Inr (m\<lparr>delivered := True\<rparr>),
                      if messageStatusCallback s
                      then emit (MessageStatusCallback (msg_id m) Delivered) s3 else s3)
                else (Inr m, queueMessageForRetry w (msg_id m) r envelope data s3))"
proof (cases "length text' > MAX_MESSAGE_LENGTH \<or> length text' = 0")
  case True
  then have "sm = (Inl MessageTooLong, s) \<or> sm = (Inl MessageEmpty, s)"
    by (auto simp: sm_def sendMessage_def)
  then show ?thesis using rejected by blast
next
  case len: False
  show ?thesis
  proof (cases "map_get peers r")
    case None
    then have "sm = (Inl RecipientNotFound, s)" using len by (simp add: sm_def sendMessage_def)
    then show ?thesis by (rule rejected)
  next
    case peer: (Some recipient)
    show ?thesis
    proof (cases "sharedSecret recipient")
      case None
      then have "sm = (Inl NoSharedSecret, s)" using len peer by (simp add: sm_def sendMessage_def)
      then show ?thesis by (rule rejected)
    next
      case sec: (Some secret)
      show ?thesis
      proof (cases "getPublicKey (crypto w)")
        case (Inl err)
        then have "sm = (Inl err, s)" using len peer sec by (simp add: sm_def sendMessage_def)
        then show ?thesis by (rule rejected)
      next
        case own: (Inr ownPublicKey')
        show ?thesis
        proof (cases "deriveSenderId (crypto w) ownPublicKey'")
          case (Inl err)
          then have "sm = (Inl err, s)" using len peer sec own
            by (simp add: sm_def sendMessage_def)
          then show ?thesis by (rule rejected)
        next
          case sid: (Inr senderId')
          show ?thesis
          proof (cases "case publicKey recipient of
               Some pk \<Rightarrow> deriveSenderId (crypto w) pk
             | None \<Rightarrow> Inr (take 16 r)")
            case (Inl err)
            then have "sm = (Inl err, s)" using len peer sec own sid
              by (simp add: sm_def sendMessage_def)
            then show ?thesis by (rule rejected)
          next
            case rid: (Inr recipientIdHash)
            note sel = len peer sec own sid rid
            show ?thesis
            proof (cases "encryptMessage (crypto w) text' secret")
              case (Inl err)
              then have "sm = (Inl err, emit (EncryptCall text' secret) s)" using sel
                by (simp add: sm_def sendMessage_def)
              then show ?thesis by (rule not_stored)
            next
              case enc: (Inr encrypted)
              show ?thesis
              proof (cases "createEnvelope encrypted (generateUUID (random_byte w)) senderId'
                  recipientIdHash (of_int (now_timestamp w)) INITIAL_MESSAGE_TTL")
                case (Inl err)
                then have "sm = (Inl (EnvelopeFailure err), emit (EncryptCall text' secret) s)"
                  using sel enc by (simp add: sm_def sendMessage_def)
                then show ?thesis by (rule not_stored)
              next
                case env: (Inr envelope)
                show ?thesis
                proof (cases "serializeEnvelope envelope")
                  case (Inl err)
                  then have "sm = (Inl (EnvelopeFailure err), emit (EncryptCall text' secret) s)"
                    using sel enc env by (simp add: sm_def sendMessage_def)
                  then show ?thesis by (rule not_stored)
                next
                  case ser: (Inr data)
                  define m where "m = \<lparr>msg_id = generateUUID (random_byte w), peerId = r,
                      msg_text = text', msg_timestamp = of_int (now_timestamp w), sent = True,
                      delivered = False, failed = False\<rparr>"
                  show ?thesis
                  proof (cases "storage_fails w")
                    case True
                    then have "sm = (Inl StorageFailure,
                        emit (StoreMessageCall m False) (emit (EncryptCall text' secret) s))"
                      using sel enc env ser
                      by (simp add: sm_def sendMessage_def m_def [symmetric] storeMessage_fails)
                    with True show ?thesis by (rule store_failed)
                  next
                    case False
                    have e1: "messageId envelope = msg_id m" and e2: "ttl envelope = INITIAL_MESSAGE_TTL"
                      using env by (auto simp: createEnvelope_def m_def split: if_splits)
                    have "sm = (let s3 = s\<lparr>storage :=
                         map_set (STORAGE_KEY_MESSAGES_PREFIX @ r)
                           ((case map_get (storage s) (STORAGE_KEY_MESSAGES_PREFIX @ r) of
                               None \<Rightarrow> [] | Some ms \<Rightarrow> ms) @ [m]) (storage s),
                       events := events s @ EncryptCall text' secret # StoreMessageCall m True
                         # map (\<lambda>d. SendDataCall d data (sendData (ble w) d data))
                             (connectedDevices (ble w))\<rparr>
                      in if \<exists>d \<in> set (connectedDevices (ble w)). sendData (ble w) d data
                         then (Inr (m\<lparr>delivered := True\<rparr>),
                               if messageStatusCallback s
                               then emit (MessageStatusCallback (msg_id m) Delivered) s3 else s3)
                         else (Inr m, queueMessageForRetry w (msg_id m) r envelope data s3))"
                      using sel enc env ser False
                      by (simp add: sm_def sendMessage_def m_def [symmetric] storeMessage_ok
                          transmitToAllPeers_eq devicesToSend_None Let_def emit_def)
                        (simp add: m_def)
                    moreover have "peerId m = r" "msg_text m = text'" "sent m" "\<not> delivered m"
                      "\<not> failed m" by (simp_all add: m_def)
                    ultimately show ?thesis using ser e1 e2 False by (intro sent)
                  qed
                qed
              qed
            qed
          qed
        qed
      qed
    qed
  qed
qed

lemma newEvents_self [simp]: "newEvents s s = []"
  by (simp add: newEvents_def)

lemma newEvents_emit [simp]: "newEvents s (emit ev s) = [ev]"
  by (simp add: newEvents_def)

lemma newEvents_emit2 [simp]: "newEvents s (emit ev2 (emit ev1 s)) = [ev1, ev2]"
  by (simp add: newEvents_def)

lemma sendMessage_failed_effects:
  assumes "sendMessage w r text' peers s = (Inl err, s')"
  shows "storage s' = storage s \<and> filter isSendDataCall (newEvents s s') = []
         \<and> StoreMessageCall m0 True \<notin> set (newEvents s s')
         \<and> messageQueue s' = messageQueue s"
proof (cases rule: sendMessage_cases [of w r text' peers s])
  case (rejected err0)
  then have "s' = s" using assms by simp
  then show ?thesis by simp
next
  case (not_stored err0 secret)
  then have "s' = emit (EncryptCall text' secret) s" using assms by simp
  then show ?thesis by (simp add: isSendDataCall_def) (simp add: emit_def)
next
  case (store_failed secret m)
  then have "s' = emit (StoreMessageCall m False) (emit (EncryptCall text' secret) s)"
    using assms by simp
  then show ?thesis by (simp add: isSendDataCall_def) (simp add: emit_def)
next
  case (sent secret envelope data m)
  then show ?thesis using assms by (simp add: Let_def split: if_splits)
qed

lemma sendMessage_succeeded_effects:
  assumes "sendMessage w r text' peers s = (Inr m, s')"
  shows "\<exists>secret envelope data.
     serializeEnvelope envelope = Inr data \<and> messageId envelope = msg_id m
     \<and> ttl envelope = INITIAL_MESSAGE_TTL
     \<and> newEvents s s' =
         EncryptCall text' secret # StoreMessageCall (m\<lparr>delivered := False\<rparr>) True
         # map (\<lambda>d. SendDataCall d data (sendData (ble w) d data)) (connectedDevices (ble w))
         @ (if delivered m \<and> messageStatusCallback s
            then [MessageStatusCallback (msg_id m) Delivered] else [])
     \<and> delivered m = (\<exists>d \<in> set (connectedDevices (ble w)). sendData (ble w) d data)
     \<and> messageQueue s' =
         (if delivered m then messageQueue s
          else map_set (msg_id m)
                 \<lparr>q_messageId = msg_id m, q_peerId = r, q_envelope = envelope,
                  serialized = data, attempts = 0,
                  nextRetryTime = now_queued w + RETRY_BASE_DELAY_MS\<rparr> (messageQueue s))
     \<and> storage s' =
         map_set (STORAGE_KEY_MESSAGES_PREFIX @ r)
           ((case map_get (storage s) (STORAGE_KEY_MESSAGES_PREFIX @ r) of
               None \<Rightarrow> [] | Some ms \<Rightarrow> ms) @ [m\<lparr>delivered := False\<rparr>]) (storage s)
     \<and> peerId m = r \<and> msg_text m = text' \<and> sent m \<and> \<not> failed m"
proof (cases rule: sendMessage_cases [of w r text' peers s])
  case (rejected err0)
  then show ?thesis using assms by simp
next
  case (not_stored err0 secret)
  then show ?thesis using assms by simp
next
  case (store_failed secret m)
  then show ?thesis using assms by simp
next
  case (sent secret envelope data m0)
  show ?thesis
  proof (cases "\<exists>d \<in> set (connectedDevices (ble w)). sendData (ble w) d data")
    case True
    then have m: "m = m0\<lparr>delivered := True\<rparr>" using sent(10) assms by (simp add: Let_def)
    then have m0: "m\<lparr>delivered := False\<rparr> = m0" using sent(7) by simp
    have "serializeEnvelope envelope = Inr data \<and> messageId envelope = msg_id m
     \<and> ttl envelope = INITIAL_MESSAGE_TTL
     \<and> newEvents s s' =
         EncryptCall text' secret # StoreMessageCall (m\<lparr>delivered := False\<rparr>) True
         # map (\<lambda>d. SendDataCall d data (sendData (ble w) d data)) (connectedDevices (ble w))
         @ (if delivered m \<and> messageStatusCallback s
            then [MessageStatusCallback (msg_id m) Delivered] else [])
     \<and> delivered m = (\<exists>d \<in> set (connectedDevices (ble w)). sendData (ble w) d data)
     \<and> messageQueue s' =
         (if delivered m then messageQueue s
          else map_set (msg_id m)
                 \<lparr>q_messageId = msg_id m, q_peerId = r, q_envelope = envelope,
                  serialized = data, attempts = 0,
                  nextRetryTime = now_queued w + RETRY_BASE_DELAY_MS\<rparr> (messageQueue s))
     \<and> storage s' =
         map_set (STORAGE_KEY_MESSAGES_PREFIX @ r)
           ((case map_get (storage s) (STORAGE_KEY_MESSAGES_PREFIX @ r) of
               None \<Rightarrow> [] | Some ms \<Rightarrow> ms) @ [m\<lparr>delivered := False\<rparr>]) (storage s)
     \<and> peerId m = r \<and> msg_text m = text' \<and> sent m \<and> \<not> failed m"
      unfolding m0 using sent(1-9) True sent(10) assms
      by (simp add: Let_def m newEvents_def emit_def)
    then show ?thesis by blast
  next
    case False
    then have m: "m = m0" using sent(10) assms by (simp add: Let_def)
    then have m0: "m\<lparr>delivered := False\<rparr> = m0" using sent(7) by simp
    have "serializeEnvelope envelope = Inr data \<and> messageId envelope = msg_id m
     \<and> ttl envelope = INITIAL_MESSAGE_TTL
     \<and> newEvents s s' =
         EncryptCall text' secret # StoreMessageCall (m\<lparr>delivered := False\<rparr>) True
         # map (\<lambda>d. SendDataCall d data (sendData (ble w) d data)) (connectedDevices (ble w))
         @ (if delivered m \<and> messageStatusCallback s
            then [MessageStatusCallback (msg_id m) Delivered] else [])
     \<and> delivered m = (\<exists>d \<in> set (connectedDevices (ble w)). sendData (ble w) d data)
     \<and> messageQueue s' =
         (if delivered m then messageQueue s
          else map_set (msg_id m)
                 \<lparr>q_messageId = msg_id m, q_peerId = r, q_envelope = envelope,
                  serialized = data, attempts = 0,
                  nextRetryTime = now_queued w + RETRY_BASE_DELAY_MS\<rparr> (messageQueue s))
     \<and> storage s' =
         map_set (STORAGE_KEY_MESSAGES_PREFIX @ r)
           ((case map_get (storage s) (STORAGE_KEY_MESSAGES_PREFIX @ r) of
               None \<Rightarrow> [] | Some ms \<Rightarrow> ms) @ [m\<lparr>delivered := False\<rparr>]) (storage s)
     \<and> peerId m = r \<and> msg_text m = text' \<and> sent m \<and> \<not> failed m"
      unfolding m0 using sent(1-9) False sent(10) assms
      by (simp add: Let_def m newEvents_def queueMessageForRetry_def)
    then show ?thesis by blast
  qed
qed

section \<open>Facts about the retry queue\<close>

lemma map_get_map_modify:
  "map_get (map_modify k f m) k' = (if k' = k then map_option f (map_get m k) else map_get m k')"
  by (induction m) (auto simp: map_get_def)

lemma map_get_map_delete:
  "map_get (map_delete k m) k' = (if k' = k then None else map_get m k')"
  by (induction m) (auto simp: map_get_def map_delete_def)

lemma map_fst_map_modify: "map fst (map_modify k f m) = map fst m"
  by (induction m) auto

lemma map_fst_map_delete: "map fst (map_delete k m) = filter (\<lambda>k'. k' \<noteq> k) (map fst m)"
  by (induction m) (auto simp: map_delete_def)

lemma map_get_distinct:
  "distinct (map fst m) \<Longrightarrow> (k, v) \<in> set m \<Longrightarrow> map_get m k = Some v"
  by (simp add: map_get_def)

lemma map_get_mem: "map_get m k = Some v \<Longrightarrow> (k, v) \<in> set m"
  by (simp add: map_get_def map_of_SomeD)

lemma retryEntry_eq:
  "retryEntry w now k q s =
     s\<lparr>messageQueue :=
         (if now \<ge> nextRetryTime q then
            if retrySucceeds w q \<or> attempts q + 1 \<ge> MAX_SEND_RETRIES
            then map_delete k (map_modify k (\<lambda>_. q\<lparr>attempts := attempts q + 1\<rparr>) (messageQueue s))
            else map_modify k
                   (\<lambda>_. q\<lparr>attempts := attempts q + 1,
                          nextRetryTime := now + RETRY_BASE_DELAY_MS * 2 ^ (attempts q + 1)\<rparr>)
                   (map_modify k (\<lambda>_. q\<lparr>attempts := attempts q + 1\<rparr>) (messageQueue s))
          else messageQueue s),
       events := events s @ retryEvents w now (messageStatusCallback s) k q\<rparr>"
  by (simp add: retryEntry_def retryEvents_def retrySucceeds_def transmitToAllPeers_eq
      devicesToSend_None Let_def emit_def list_ex_iff)

lemma retryEntry_frame:
  "messageStatusCallback (retryEntry w now k q s) = messageStatusCallback s"
  "storage (retryEntry w now k q s) = storage s"
  "duplicateDetector (retryEntry w now k q s) = duplicateDetector s"
  "messageReceivedCallback (retryEntry w now k q s) = messageReceivedCallback s"
  "events (retryEntry w now k q s) = events s @ retryEvents w now (messageStatusCallback s) k q"
  by (simp_all add: retryEntry_eq)

lemma retryEntry_get:
  "map_get (messageQueue (retryEntry w now k q s)) k' =
     (if k' = k then (case map_get (messageQueue s) k of None \<Rightarrow> None
                      | Some q0 \<Rightarrow> (if now \<ge> nextRetryTime q then retryResult w now q else Some q0))
      else map_get (messageQueue s) k')"
  by (simp add: retryEntry_eq retryResult_def map_get_map_modify map_get_map_delete
      split: option.splits)

lemma retryLoop_callback:
  "messageStatusCallback (retryLoop w now rest s) = messageStatusCallback s"
  by (induction w now rest s rule: retryLoop.induct) (simp_all add: retryEntry_frame)

lemma retryLoop_storage: "storage (retryLoop w now rest s) = storage s"
  by (induction w now rest s rule: retryLoop.induct) (simp_all add: retryEntry_frame)

lemma retryLoop_events:
  "events (retryLoop w now rest s) =
     events s @ concat (map (\<lambda>(k, q). retryEvents w now (messageStatusCallback s) k q) rest)"
  by (induction w now rest s rule: retryLoop.induct) (simp_all add: retryEntry_frame)

lemma retryLoop_get_other:
  "k \<notin> fst ` set rest \<Longrightarrow>
     map_get (messageQueue (retryLoop w now rest s)) k = map_get (messageQueue s) k"
proof (induction w now rest s rule: retryLoop.induct)
  case (1 w now s)
  then show ?case by simp
next
  case (2 w now k1 q1 rest s)
  then have "k \<noteq> k1" and "k \<notin> fst ` set rest" by auto
  then show ?case using 2 by (simp add: retryEntry_get)
qed

lemma retryLoop_get:
  assumes "distinct (map fst rest)" "(k, q) \<in> set rest" "map_get (messageQueue s) k = Some q"
  shows "map_get (messageQueue (retryLoop w now rest s)) k = retryResult w now q"
  using assms
proof (induction rest arbitrary: s)
  case Nil
  then show ?case by simp
next
  case (Cons e rest)
  obtain k1 q1 where e: "e = (k1, q1)" by (cases e)
  show ?case
  proof (cases "k1 = k")
    case True
    then have nk: "k \<notin> fst ` set rest" using Cons.prems(1) e by auto
    then have "q1 = q" using Cons.prems(2) e True by (auto simp: image_iff)
    then show ?thesis
      using True e nk Cons.prems(3)
      by (simp add: retryLoop_get_other retryEntry_get retryResult_def)
  next
    case False
    then have "(k, q) \<in> set rest" using Cons.prems(2) e by auto
    moreover have "distinct (map fst rest)" using Cons.prems(1) by simp
    moreover have "map_get (messageQueue (retryEntry w now k1 q1 s)) k = Some q"
      using False Cons.prems(3) by (simp add: retryEntry_get)
    ultimately show ?thesis using Cons.IH e by simp
  qed
qed

lemma retryLoop_keys:
  "distinct (map fst (messageQueue s)) \<Longrightarrow>
     distinct (map fst (messageQueue (retryLoop w now rest s)))"
proof (induction rest arbitrary: s)
  case Nil
  then show ?case by simp
next
  case (Cons e rest)
  obtain k1 q1 where e: "e = (k1, q1)" by (cases e)
  have "distinct (map fst (messageQueue (retryEntry w now k1 q1 s)))"
    using Cons.prems by (simp add: retryEntry_eq map_fst_map_modify map_fst_map_delete)
  then show ?case using Cons.IH e by simp
qed

lemma concat_single:
  assumes "distinct (map fst rest)" "(k, q) \<in> set rest"
    "\<And>k' q'. (k', q') \<in> set rest \<Longrightarrow> k' \<noteq> k \<Longrightarrow> g k' q' = []"
  shows "concat (map (\<lambda>(k, q). g k q) rest) = g k q"
  using assms
proof (induction rest)
  case Nil
  then show ?case by simp
next
  case (Cons e rest)
  obtain k1 q1 where e: "e = (k1, q1)" by (cases e)
  show ?case
  proof (cases "k1 = k")
    case True
    then have nk: "k \<notin> fst ` set rest" using Cons.prems(1) e by auto
    then have q: "q1 = q" using Cons.prems(2) e True by (auto simp: image_iff)
    have "\<And>x. x \<in> set rest \<Longrightarrow> (case x of (k, q) \<Rightarrow> g k q) = []"
    proof -
      fix x assume x: "x \<in> set rest"
      obtain k' q' where x': "x = (k', q')" by (cases x)
      then have "k' \<noteq> k" using nk x by (auto simp: image_iff)
      then show "(case x of (k, q) \<Rightarrow> g k q) = []" using Cons.prems(3) [of k' q'] x x' by simp
    qed
    then have "concat (map (\<lambda>(k, q). g k q) rest) = []" by simp
    then show ?thesis using e True q by simp
  next
    case False
    then have "g k1 q1 = []" using Cons.prems(3) [of k1 q1] e by simp
    moreover have "(k, q) \<in> set rest" using Cons.prems(2) e False by auto
    moreover have "distinct (map fst rest)" using Cons.prems(1) by simp
    ultimately show ?thesis using Cons.IH Cons.prems(3) e by simp
  qed
qed

lemma filter_status_retryEvents:
  "filter (isStatusFor k) (retryEvents w now cb k' q) =
     (if k' = k \<and> cb \<and> now \<ge> nextRetryTime q then
        if retrySucceeds w q then [MessageStatusCallback k Delivered]
        else if attempts q + 1 \<ge> MAX_SEND_RETRIES then [MessageStatusCallback k Failed]
        else []
      else [])"
  by (simp add: retryEvents_def isStatusFor_def o_def)

lemma filter_store_retryEvents:
  "filter isStoreMessageCall (retryEvents w now cb k q) = []"
  by (simp add: retryEvents_def isStoreMessageCall_def o_def)

lemma processRetryQueue_get:
  assumes "distinct (map fst (messageQueue s))" "map_get (messageQueue s) k = Some q"
  shows "map_get (messageQueue (processRetryQueue w s)) k = retryResult w (now_tick w) q"
  unfolding processRetryQueue_def
  using assms by (intro retryLoop_get) (simp_all add: map_get_mem)

lemma processRetryQueue_get_None:
  assumes "map_get (messageQueue s) k = None"
  shows "map_get (messageQueue (processRetryQueue w s)) k = None"
proof -
  have "k \<notin> fst ` set (messageQueue s)"
    using assms by (simp add: map_get_def map_of_eq_None_iff)
  then show ?thesis unfolding processRetryQueue_def using assms by (simp add: retryLoop_get_other)
qed

lemma processRetryQueue_keys:
  "distinct (map fst (messageQueue s)) \<Longrightarrow>
     distinct (map fst (messageQueue (processRetryQueue w s)))"
  unfolding processRetryQueue_def by (rule retryLoop_keys)

lemma processRetryQueue_events:
  "newEvents s (processRetryQueue w s) =
     concat (map (\<lambda>(k, q). retryEvents w (now_tick w) (messageStatusCallback s) k q)
       (messageQueue s))"
  unfolding processRetryQueue_def by (simp add: newEvents_def retryLoop_events)

lemma processRetryQueue_status:
  assumes "distinct (map fst (messageQueue s))" "map_get (messageQueue s) k = Some q"
  shows "filter (isStatusFor k) (newEvents s (processRetryQueue w s)) =
     (if messageStatusCallback s \<and> now_tick w \<ge> nextRetryTime q then
        if retrySucceeds w q then [MessageStatusCallback k Delivered]
        else if attempts q + 1 \<ge> MAX_SEND_RETRIES then [MessageStatusCallback k Failed]
        else []
      else [])"
proof -
  let ?g = "\<lambda>k' q'. filter (isStatusFor k)
      (retryEvents w (now_tick w) (messageStatusCallback s) k' q')"
  have "filter (isStatusFor k) (newEvents s (processRetryQueue w s)) =
      concat (map (\<lambda>(k', q'). ?g k' q') (messageQueue s))"
    by (simp add: processRetryQueue_events filter_concat o_def split_def)
  also have "\<dots> = ?g k q"
    using assms(1) map_get_mem [OF assms(2)]
    by (rule concat_single) (simp add: filter_status_retryEvents)
  finally show ?thesis by (simp add: filter_status_retryEvents)
qed

lemma processRetryQueue_sends:
  assumes "map_get (messageQueue s) k = Some q" "now_tick w \<ge> nextRetryTime q"
    "d \<in> set (connectedDevices (ble w))"
  shows "SendDataCall d (serialized q) (sendData (ble w) d (serialized q))
           \<in> set (newEvents s (processRetryQueue w s))"
proof -
  have "SendDataCall d (serialized q) (sendData (ble w) d (serialized q))
      \<in> set (retryEvents w (now_tick w) (messageStatusCallback s) k q)"
    using assms(2,3) by (simp add: retryEvents_def)
  then show ?thesis
    using map_get_mem [OF assms(1)] by (auto simp: processRetryQueue_events)
qed

lemma processRetryQueue_storage:
  "storage (processRetryQueue w s) = storage s
   \<and> filter isStoreMessageCall (newEvents s (processRetryQueue w s)) = []"
  unfolding processRetryQueue_def
  by (simp add: retryLoop_storage newEvents_def retryLoop_events filter_concat o_def split_def
      filter_store_retryEvents)

section \<open>The sample node sends\<close>

lemma upt_16: "[0..<16] = [0, 1, 2, 3, 4, 5, 6, 7, 8, 9, 10, 11, 12, 13, 14, 15 :: nat]"
  by (simp add: upt_conv_Cons)

lemma sample_random_bytes:
  "map (random_byte sample_world) [0..<16]
     = [3, 20, 37, 54, 71, 88, 105, 122, 139, 156, 173, 190, 207, 224, 241, 2]"
  unfolding upt_16 by (simp add: sample_world_def)

lemma sample_generateUUID:
  "generateUUID (random_byte sample_world) = ''03142536-4758-497a-8b9c-adbecfe0f102''"
  unfolding generateUUID_def sample_random_bytes Let_def
  apply (simp add: list_update_code)
  apply (simp add: bytesToHex_def toString16_def padStart2_def hexDigit_def formatUUID_def
      substr_def Let_def)
  done

lemma sent_serialized: "serializeEnvelope sent_envelope = Inr sent_bytes"
  by (simp add: sent_envelope_def sent_bytes_def codec_eval)

lemma sample_sender_ids:
  "getPublicKey sample_crypto = Inr sample_own_key"
  "deriveSenderId sample_crypto sample_own_key = Inr ''0011223344556677''"
  "deriveSenderId sample_crypto sample_peer_key = Inr ''a1b2c3d4e5f60718''"
  by (simp_all add: getPublicKey_def deriveSenderId_def generateTrustFingerprint_def
      sample_crypto_def FINGERPRINT_LENGTH_def sample_own_key_def sample_peer_key_def)

lemma sample_encryptMessage:
  "encryptMessage sample_crypto sample_text sample_secret = Inr sample_encrypted"
  by (simp add: encryptMessage_def sample_crypto_def sample_encrypted_def sample_secret_def
      KEYBYTES_def)

lemma sample_createEnvelope:
  "createEnvelope sample_encrypted ''03142536-4758-497a-8b9c-adbecfe0f102'' ''0011223344556677''
     ''a1b2c3d4e5f60718'' 1700000000000 INITIAL_MESSAGE_TTL = Inr sent_envelope"
  by (simp add: createEnvelope_def sample_encrypted_def sample_envelope_def sent_envelope_def
      INITIAL_MESSAGE_TTL_def MESSAGE_ENVELOPE_VERSION_def)

lemma sample_send_offline:
  "sendMessage offline_world ''peer-A'' sample_text sample_peers sample_state
     = (Inr sent_message, queued_state)"
proof -
  have w: "crypto offline_world = sample_crypto" "ble offline_world = offline_ble"
    "random_byte offline_world = random_byte sample_world"
    "now_timestamp offline_world = 1700000000000" "now_queued offline_world = 1700000000005"
    "\<not> storage_fails offline_world"
    by (simp_all add: offline_world_def sample_world_def)
  have p: "map_get sample_peers ''peer-A'' = Some sample_peer"
    "sharedSecret sample_peer = Some sample_secret" "publicKey sample_peer = Some sample_peer_key"
    by (simp_all add: sample_peers_def sample_peer_def map_get_def)
  have t: "0 < length sample_text" "length sample_text \<le> MAX_MESSAGE_LENGTH"
    by (simp_all add: sample_text_def MAX_MESSAGE_LENGTH_def)
  have m: "sent_message = \<lparr>msg_id = generateUUID (random_byte offline_world),
      peerId = ''peer-A'', msg_text = sample_text,
      msg_timestamp = of_int (now_timestamp offline_world), sent = True, delivered = False,
      failed = False\<rparr>"
    by (simp add: sent_message_def w sample_generateUUID)
  have "sendMessage offline_world ''peer-A'' sample_text sample_peers sample_state =
     (if \<exists>d \<in> set (connectedDevices (ble offline_world)).
           sendData (ble offline_world) d sent_bytes
      then (Inr (sent_message\<lparr>delivered := True\<rparr>),
            if messageStatusCallback sample_state
            then emit (MessageStatusCallback (msg_id sent_message) Delivered)
                   (queued_state\<lparr>messageQueue := []\<rparr>)
            else queued_state\<lparr>messageQueue := []\<rparr>)
      else (Inr sent_message,
            queueMessageForRetry offline_world (msg_id sent_message) ''peer-A'' sent_envelope
              sent_bytes (queued_state\<lparr>messageQueue := []\<rparr>)))"
  proof (rule sendMessage_sent [OF t p(1,2) _ _ _ _ _ sent_serialized w(6) m])
    show "getPublicKey (crypto offline_world) = Inr sample_own_key"
      by (simp add: w sample_sender_ids)
    show "deriveSenderId (crypto offline_world) sample_own_key = Inr ''0011223344556677''"
      by (simp add: w sample_sender_ids)
    show "(case publicKey sample_peer of Some pk \<Rightarrow> deriveSenderId (crypto offline_world) pk
          | None \<Rightarrow> Inr (take 16 ''peer-A'')) = Inr ''a1b2c3d4e5f60718''"
      by (simp add: w p sample_sender_ids)
    show "encryptMessage (crypto offline_world) sample_text sample_secret = Inr sample_encrypted"
      by (simp add: w sample_encryptMessage)
    show "createEnvelope sample_encrypted (generateUUID (random_byte offline_world))
        ''0011223344556677'' ''a1b2c3d4e5f60718'' (of_int (now_timestamp offline_world))
        INITIAL_MESSAGE_TTL = Inr sent_envelope"
      using sample_createEnvelope by (simp add: w sample_generateUUID)
    show "queued_state\<lparr>messageQueue := []\<rparr> = sample_state\<lparr>storage :=
                 map_set (STORAGE_KEY_MESSAGES_PREFIX @ ''peer-A'')
                   ((case map_get (storage sample_state) (STORAGE_KEY_MESSAGES_PREFIX @ ''peer-A'') of
                       None \<Rightarrow> [] | Some ms \<Rightarrow> ms) @ [sent_message]) (storage sample_state),
               events := events sample_state @ EncryptCall sample_text sample_secret
                 # StoreMessageCall sent_message True
                 # map (\<lambda>d. SendDataCall d sent_bytes (sendData (ble offline_world) d sent_bytes))
                     (connectedDevices (ble offline_world))\<rparr>"
      by (simp add: queued_state_def stored_state_def sample_state_def map_get_def
          STORAGE_KEY_MESSAGES_PREFIX_def w offline_ble_def sendData_def)
  qed
  then show ?thesis
    by (simp add: w offline_ble_def sendData_def queueMessageForRetry_def
        RETRY_BASE_DELAY_MS_def queued_state_def queued_entry_def sent_message_def)
qed

lemma sample_send_online:
  "sendMessage sample_world ''peer-A'' sample_text sample_peers sample_state
     = (Inr (sent_message\<lparr>delivered := True\<rparr>), delivered_state)"
proof -
  have w: "crypto sample_world = sample_crypto" "ble sample_world = sample_ble"
    "now_timestamp sample_world = 1700000000000"
    "\<not> storage_fails sample_world"
    by (simp_all add: sample_world_def)
  have p: "map_get sample_peers ''peer-A'' = Some sample_peer"
    "sharedSecret sample_peer = Some sample_secret" "publicKey sample_peer = Some sample_peer_key"
    by (simp_all add: sample_peers_def sample_peer_def map_get_def)
  have t: "0 < length sample_text" "length sample_text \<le> MAX_MESSAGE_LENGTH"
    by (simp_all add: sample_text_def MAX_MESSAGE_LENGTH_def)
  have m: "sent_message = \<lparr>msg_id = generateUUID (random_byte sample_world),
      peerId = ''peer-A'', msg_text = sample_text,
      msg_timestamp = of_int (now_timestamp sample_world), sent = True, delivered = False,
      failed = False\<rparr>"
    by (simp add: sent_message_def w sample_generateUUID)
  define s3 where "s3 = stored_state
       \<lparr>events := [EncryptCall sample_text sample_secret, StoreMessageCall sent_message True,
                   SendDataCall ''peer-A'' sent_bytes True,
                   SendDataCall ''peer-B'' sent_bytes True]\<rparr>"
  have "sendMessage sample_world ''peer-A'' sample_text sample_peers sample_state =
     (if \<exists>d \<in> set (connectedDevices (ble sample_world)).
           sendData (ble sample_world) d sent_bytes
      then (Inr (sent_message\<lparr>delivered := True\<rparr>),
            if messageStatusCallback sample_state
            then emit (MessageStatusCallback (msg_id sent_message) Delivered) s3
            else s3)
      else (Inr sent_message,
            queueMessageForRetry sample_world (msg_id sent_message) ''peer-A'' sent_envelope
              sent_bytes s3))"
  proof (rule sendMessage_sent [OF t p(1,2) _ _ _ _ _ sent_serialized w(4) m])
    show "getPublicKey (crypto sample_world) = Inr sample_own_key"
      by (simp add: w sample_sender_ids)
    show "deriveSenderId (crypto sample_world) sample_own_key = Inr ''0011223344556677''"
      by (simp add: w sample_sender_ids)
    show "(case publicKey sample_peer of Some pk \<Rightarrow> deriveSenderId (crypto sample_world) pk
          | None \<Rightarrow> Inr (take 16 ''peer-A'')) = Inr ''a1b2c3d4e5f60718''"
      by (simp add: w p sample_sender_ids)
    show "encryptMessage (crypto sample_world) sample_text sample_secret = Inr sample_encrypted"
      by (simp add: w sample_encryptMessage)
    show "createEnvelope sample_encrypted (generateUUID (random_byte sample_world))
        ''0011223344556677'' ''a1b2c3d4e5f60718'' (of_int (now_timestamp sample_world))
        INITIAL_MESSAGE_TTL = Inr sent_envelope"
      using sample_createEnvelope by (simp add: w sample_generateUUID)
    show "s3 = sample_state\<lparr>storage :=
                 map_set (STORAGE_KEY_MESSAGES_PREFIX @ ''peer-A'')
                   ((case map_get (storage sample_state) (STORAGE_KEY_MESSAGES_PREFIX @ ''peer-A'') of
                       None \<Rightarrow> [] | Some ms \<Rightarrow> ms) @ [sent_message]) (storage sample_state),
               events := events sample_state @ EncryptCall sample_text sample_secret
                 # StoreMessageCall sent_message True
                 # map (\<lambda>d. SendDataCall d sent_bytes (sendData (ble sample_world) d sent_bytes))
                     (connectedDevices (ble sample_world))\<rparr>"
      by (simp add: s3_def stored_state_def sample_state_def map_get_def
          STORAGE_KEY_MESSAGES_PREFIX_def w sample_ble_def sendData_def)
  qed
  moreover have "\<exists>d \<in> set (connectedDevices (ble sample_world)).
      sendData (ble sample_world) d sent_bytes"
    by (auto simp: w sample_ble_def sendData_def)
  ultimately have "sendMessage sample_world ''peer-A'' sample_text sample_peers sample_state =
     (Inr (sent_message\<lparr>delivered := True\<rparr>),
      if messageStatusCallback sample_state
      then emit (MessageStatusCallback (msg_id sent_message) Delivered) s3 else s3)"
    by (simp only: if_True)
  moreover have "(if messageStatusCallback sample_state
      then emit (MessageStatusCallback (msg_id sent_message) Delivered) s3 else s3)
      = delivered_state"
    by (simp add: s3_def delivered_state_def stored_state_def sample_state_def sent_message_def
        emit_def)
  ultimately show ?thesis by (simp only:)
qed

section \<open>Facts about the life of a queued message\<close>

lemma map_get_map_set: "map_get (map_set k v m) k = Some v"
  by (simp add: map_get_def map_of_map_set)

lemma retrySucceeds_update [simp]:
  "retrySucceeds w (q\<lparr>attempts := a, nextRetryTime := t\<rparr>) = retrySucceeds w q"
  by (simp add: retrySucceeds_def)

lemma filter_sends_sent:
  "filter isSendDataCall
     (EncryptCall t k # StoreMessageCall m b # map (\<lambda>d. SendDataCall d data (f d)) ds @
      (if c then [MessageStatusCallback i st] else []))
   = map (\<lambda>d. SendDataCall d data (f d)) ds"
  by (induction ds) (simp_all add: isSendDataCall_def)

lemma sendMessage_queues:
  assumes "sendMessage w r text' peers s = (Inr m, s')"
  shows "\<exists>envelope data.
     serializeEnvelope envelope = Inr data \<and> messageId envelope = msg_id m
     \<and> filter isSendDataCall (newEvents s s')
         = map (\<lambda>d. SendDataCall d data (sendData (ble w) d data)) (connectedDevices (ble w))
     \<and> (if \<exists>d \<in> set (connectedDevices (ble w)). sendData (ble w) d data
         then delivered m \<and> messageQueue s' = messageQueue s
         else \<not> delivered m
              \<and> messageQueue s' =
                  map_set (msg_id m)
                    \<lparr>q_messageId = msg_id m, q_peerId = r, q_envelope = envelope,
                     serialized = data, attempts = 0,
                     nextRetryTime = now_queued w + 1000\<rparr> (messageQueue s))"
proof -
  from sendMessage_succeeded_effects [OF assms]
  obtain secret envelope data where
    a: "serializeEnvelope envelope = Inr data" "messageId envelope = msg_id m"
    and ev: "newEvents s s' =
         EncryptCall text' secret # StoreMessageCall (m\<lparr>delivered := False\<rparr>) True
         # map (\<lambda>d. SendDataCall d data (sendData (ble w) d data)) (connectedDevices (ble w))
         @ (if delivered m \<and> messageStatusCallback s
            then [MessageStatusCallback (msg_id m) Delivered] else [])"
    and dl: "delivered m = (\<exists>d \<in> set (connectedDevices (ble w)). sendData (ble w) d data)"
    and q: "messageQueue s' =
         (if delivered m then messageQueue s
          else map_set (msg_id m)
                 \<lparr>q_messageId = msg_id m, q_peerId = r, q_envelope = envelope,
                  serialized = data, attempts = 0,
                  nextRetryTime = now_queued w + RETRY_BASE_DELAY_MS\<rparr> (messageQueue s))"
    by blast
  have f: "filter isSendDataCall (newEvents s s')
         = map (\<lambda>d. SendDataCall d data (sendData (ble w) d data)) (connectedDevices (ble w))"
    unfolding ev by (rule filter_sends_sent)
  have "if \<exists>d \<in> set (connectedDevices (ble w)). sendData (ble w) d data
         then delivered m \<and> messageQueue s' = messageQueue s
         else \<not> delivered m
              \<and> messageQueue s' =
                  map_set (msg_id m)
                    \<lparr>q_messageId = msg_id m, q_peerId = r, q_envelope = envelope,
                     serialized = data, attempts = 0,
                     nextRetryTime = now_queued w + 1000\<rparr> (messageQueue s)"
    using dl q by (simp add: RETRY_BASE_DELAY_MS_def)
  with a f show ?thesis by blast
qed

lemma processRetryQueue_entry:
  assumes "distinct (map fst (messageQueue s))" "map_get (messageQueue s) k = Some q"
  shows "map_get (messageQueue (processRetryQueue w s)) k
          = (if now_tick w < nextRetryTime q then Some q
             else if retrySucceeds w q then None
             else if attempts q + 1 \<ge> 3 then None
             else Some (q\<lparr>attempts := attempts q + 1,
                          nextRetryTime := now_tick w + 1000 * 2 ^ (attempts q + 1)\<rparr>))"
    and "filter (isStatusFor k) (newEvents s (processRetryQueue w s))
          = (if now_tick w < nextRetryTime q \<or> \<not> messageStatusCallback s then []
             else if retrySucceeds w q then [MessageStatusCallback k Delivered]
             else if attempts q + 1 \<ge> 3 then [MessageStatusCallback k Failed]
             else [])"
proof -
  show "map_get (messageQueue (processRetryQueue w s)) k
          = (if now_tick w < nextRetryTime q then Some q
             else if retrySucceeds w q then None
             else if attempts q + 1 \<ge> 3 then None
             else Some (q\<lparr>attempts := attempts q + 1,
                          nextRetryTime := now_tick w + 1000 * 2 ^ (attempts q + 1)\<rparr>))"
    unfolding processRetryQueue_get [OF assms]
    by (simp add: retryResult_def MAX_SEND_RETRIES_def RETRY_BASE_DELAY_MS_def)
  show "filter (isStatusFor k) (newEvents s (processRetryQueue w s))
          = (if now_tick w < nextRetryTime q \<or> \<not> messageStatusCallback s then []
             else if retrySucceeds w q then [MessageStatusCallback k Delivered]
             else if attempts q + 1 \<ge> 3 then [MessageStatusCallback k Failed]
             else [])"
    unfolding processRetryQueue_status [OF assms]
    by (simp add: MAX_SEND_RETRIES_def)
qed

lemma processRetryQueue_callback:
  "messageStatusCallback (processRetryQueue w s) = messageStatusCallback s"
  unfolding processRetryQueue_def by (rule retryLoop_callback)

lemma three_failed_retries:
  assumes d: "distinct (map fst (messageQueue s))" and g: "map_get (messageQueue s) k = Some q"
    and a0: "attempts q = 0" and cb: "messageStatusCallback s"
    and t1: "nextRetryTime q \<le> now_tick w1" and f1: "\<not> retrySucceeds w1 q"
    and t2: "now_tick w1 + 2000 \<le> now_tick w2" and f2: "\<not> retrySucceeds w2 q"
    and t3: "now_tick w2 + 4000 \<le> now_tick w3" and f3: "\<not> retrySucceeds w3 q"
    and s1: "s1 = processRetryQueue w1 s" and s2: "s2 = processRetryQueue w2 s1"
    and s3: "s3 = processRetryQueue w3 s2"
  shows "map_get (messageQueue s1) k
           = Some (q\<lparr>attempts := 1, nextRetryTime := now_tick w1 + 2000\<rparr>)
       \<and> map_get (messageQueue s2) k
           = Some (q\<lparr>attempts := 2, nextRetryTime := now_tick w2 + 4000\<rparr>)
       \<and> map_get (messageQueue s3) k = None
       \<and> filter (isStatusFor k) (newEvents s s1) = []
       \<and> filter (isStatusFor k) (newEvents s1 s2) = []
       \<and> filter (isStatusFor k) (newEvents s2 s3) = [MessageStatusCallback k Failed]"
proof -
  let ?q1 = "q\<lparr>attempts := 1, nextRetryTime := now_tick w1 + 2000\<rparr>"
  let ?q2 = "q\<lparr>attempts := 2, nextRetryTime := now_tick w2 + 4000\<rparr>"
  have g1: "map_get (messageQueue s1) k = Some ?q1"
    and e1: "filter (isStatusFor k) (newEvents s s1) = []"
    unfolding s1 using processRetryQueue_entry [OF d g, of w1] a0 t1 f1 by simp_all
  have d1: "distinct (map fst (messageQueue s1))"
    unfolding s1 using d by (rule processRetryQueue_keys)
  have c1: "messageStatusCallback s1" unfolding s1 using cb by (simp add: processRetryQueue_callback)
  have g2': "map_get (messageQueue s2) k = Some (?q1\<lparr>attempts := attempts ?q1 + 1,
      nextRetryTime := now_tick w2 + 1000 * 2 ^ (attempts ?q1 + 1)\<rparr>)"
    and e2: "filter (isStatusFor k) (newEvents s1 s2) = []"
    unfolding s2 using processRetryQueue_entry [OF d1 g1, of w2] t2 f2 by simp_all
  have g2: "map_get (messageQueue s2) k = Some ?q2" using g2' by simp
  have d2: "distinct (map fst (messageQueue s2))"
    unfolding s2 using d1 by (rule processRetryQueue_keys)
  have c2: "messageStatusCallback s2" unfolding s2 using c1 by (simp add: processRetryQueue_callback)
  have g3: "map_get (messageQueue s3) k = None"
    and e3: "filter (isStatusFor k) (newEvents s2 s3) = [MessageStatusCallback k Failed]"
    unfolding s3 using processRetryQueue_entry [OF d2 g2, of w3] t3 f3 c2 by simp_all
  from g1 g2 g3 e1 e2 e3 show ?thesis by blast
qed

lemma queued_state_facts:
  "distinct (map fst (messageQueue queued_state))"
  "map_get (messageQueue queued_state) ''03142536-4758-497a-8b9c-adbecfe0f102'' = Some queued_entry"
  "messageStatusCallback queued_state"
  "attempts queued_entry = 0"
  "nextRetryTime queued_entry = 1700000001005"
  by (simp_all add: queued_state_def stored_state_def sample_state_def queued_entry_def
      map_get_def)

lemma sample_ticks:
  "now_tick offline_world = 1700000001000"
  "now_tick tick1_world = 1700000001005"
  "now_tick tick2_world = 1700000003005"
  "now_tick tick3_world = 1700000007005"
  "now_tick online_tick_world = 1700000001005"
  "\<not> retrySucceeds offline_world q"
  "\<not> retrySucceeds tick1_world q"
  "\<not> retrySucceeds tick2_world q"
  "\<not> retrySucceeds tick3_world q"
  "retrySucceeds online_tick_world q"
  by (simp_all add: offline_world_def tick1_world_def tick2_world_def tick3_world_def
      online_tick_world_def sample_world_def retrySucceeds_def offline_ble_def sample_ble_def
      sendData_def)

section \<open>Facts about duplicates on the receive path\<close>







lemma isDuplicate_map_set:
  "isDuplicate (d\<lparr>cache := map_set i t (cache d)\<rparr>) mid \<longleftrightarrow> mid = i \<or> isDuplicate d mid"
  by (auto simp: isDuplicate_def map_has_def map_of_map_set)













section \<open>The claims\<close>

text \<open>
  Claim C6. After \<open>markAsProcessed\<close> of any message id, no entry of the cache has a
  timestamp older than 300 seconds (300000 ms) before the current time, the current time
  being the clock reading of the sweep that \<open>markAsProcessed\<close> runs.
\<close>

theorem markAsProcessed_sweeps_expired:
  "\<forall>(mid', ts) \<in> set (cache (markAsProcessed mid now_set now_prune d)).
     \<not> ts < now_prune - 300000"
  by (auto simp: markAsProcessed_def pruneCache_def CACHE_EXPIRATION_MS_def
      dest: pruneLoop_no_expired)

theorem markAsProcessed_sweeps_expired_witness:
  "cache (markAsProcessed ''6ba7b810-9dad-11d1-80b4-00c04fd430c8'' 400000 400000
       \<lparr>cache = [(''550e8400-e29b-41d4-a716-446655440000'', 99000),
                 (''7c9e6679-7425-40de-944b-e07fc1f90ae7'', 100000)]\<rparr>)
     = [(''7c9e6679-7425-40de-944b-e07fc1f90ae7'', 100000),
        (''6ba7b810-9dad-11d1-80b4-00c04fd430c8'', 400000)]
   \<and> \<not> (100000 :: int) < 400000 - 300000 \<and> \<not> (400000 :: int) < 400000 - 300000"
proof -
  have c: "cache (markAsProcessed ''6ba7b810-9dad-11d1-80b4-00c04fd430c8'' 400000 400000
       \<lparr>cache = [(''550e8400-e29b-41d4-a716-446655440000'', 99000),
                 (''7c9e6679-7425-40de-944b-e07fc1f90ae7'', 100000)]\<rparr>)
     = [(''7c9e6679-7425-40de-944b-e07fc1f90ae7'', 100000),
        (''6ba7b810-9dad-11d1-80b4-00c04fd430c8'', 400000)]"
    by (simp add: markAsProcessed_def pruneCache_def CACHE_EXPIRATION_MS_def map_delete_def)
  show ?thesis
    using markAsProcessed_sweeps_expired
      [of "''6ba7b810-9dad-11d1-80b4-00c04fd430c8''" 400000 400000
          "\<lparr>cache = [(''550e8400-e29b-41d4-a716-446655440000'', 99000),
                 (''7c9e6679-7425-40de-944b-e07fc1f90ae7'', 100000)]\<rparr>"]
    unfolding c by simp
qed

text \<open>
  Claim C1, as amended. For every envelope \<open>e\<close> that passes \<open>validateEnvelope\<close> and is in
  the form the deserializer produces (the message id is the lower-case hyphenated 8-4-4-4-12
  rendering of 32 hexadecimal digits, sender id and recipient id are 16 lower-case
  hexadecimal digits, the timestamp is an integer below \<open>2^64\<close>, nonce and tag have at most
  1024 bytes and the payload at most 10 MiB), serialization succeeds and deserializing its
  result gives \<open>e\<close> back.
\<close>

theorem deserialize_serialize_roundtrip:
  assumes "validateEnvelope e = Inr True"
    and "isCanonicalUUID (messageId e)"
    and "isLowerHexString 16 (senderId e)" and "isLowerHexString 16 (recipientId e)"
    and "timestamp e = of_nat n" and "n < 2 ^ 64" and "isExactDouble n"
    and "length (nonce e) \<le> 1024" and "length (tag e) \<le> 1024"
    and "length (encryptedPayload e) \<le> 10 * 1024 * 1024"
  shows "\<exists>data. serializeEnvelope e = Inr data \<and> deserializeEnvelope data = Inr e"
  using assms by (rule serialize_deserialize_canonical)

theorem deserialize_serialize_roundtrip_witness:
  "validateEnvelope sample_envelope = Inr True
   \<and> isCanonicalUUID (messageId sample_envelope)
   \<and> isLowerHexString 16 (senderId sample_envelope)
   \<and> isLowerHexString 16 (recipientId sample_envelope)
   \<and> timestamp sample_envelope = of_nat 1700000000000
   \<and> isExactDouble 1700000000000
   \<and> (\<exists>data. serializeEnvelope sample_envelope = Inr data
          \<and> deserializeEnvelope data = Inr sample_envelope)"
proof -
  have v: "validateEnvelope sample_envelope = Inr True"
    by (simp add: sample_envelope_def validateEnvelope_def MESSAGE_ENVELOPE_VERSION_def)
  have m: "isCanonicalUUID (messageId sample_envelope)"
    by (simp add: sample_envelope_def isCanonicalUUID_def isLowerHexString_def isLowerHex_def
        formatUUID_def substr_def)
  have s: "isLowerHexString 16 (senderId sample_envelope)"
    by (simp add: sample_envelope_def isLowerHexString_def isLowerHex_def)
  have r: "isLowerHexString 16 (recipientId sample_envelope)"
    by (simp add: sample_envelope_def isLowerHexString_def isLowerHex_def)
  have t: "timestamp sample_envelope = of_nat 1700000000000"
    by (simp add: sample_envelope_def)
  have x: "isExactDouble 1700000000000"
    by (rule isExactDouble_small) simp
  have b: "(1700000000000 :: nat) < 2 ^ 64" by simp
  have l: "length (nonce sample_envelope) \<le> 1024" "length (tag sample_envelope) \<le> 1024"
    "length (encryptedPayload sample_envelope) \<le> 10 * 1024 * 1024"
    by (simp_all add: sample_envelope_def)
  from deserialize_serialize_roundtrip [OF v m s r t b x l] v m s r t x
  show ?thesis by blast
qed

text \<open>
  Claim C1 as stated fails. An envelope whose message id is written with upper-case
  hexadecimal digits passes validation and serializes, and the deserializer returns the
  lower-case message id, a different string. A nonce of 1025 bytes passes validation and
  serializes, and the deserializer rejects the result. A timestamp that is not an integer
  passes validation and serialization fails.
\<close>

theorem deserialize_serialize_counterexample:
  "validateEnvelope (sample_envelope\<lparr>messageId := ''550E8400-E29B-41D4-A716-446655440000''\<rparr>)
     = Inr True
   \<and> serializeEnvelope (sample_envelope\<lparr>messageId := ''550E8400-E29B-41D4-A716-446655440000''\<rparr>)
     = Inr sample_bytes
   \<and> deserializeEnvelope sample_bytes = Inr sample_envelope
   \<and> sample_envelope \<noteq> sample_envelope\<lparr>messageId := ''550E8400-E29B-41D4-A716-446655440000''\<rparr>
   \<and> validateEnvelope (sample_envelope\<lparr>nonce := replicate 1025 0\<rparr>) = Inr True
   \<and> (case serializeEnvelope (sample_envelope\<lparr>nonce := replicate 1025 0\<rparr>) of
         Inl err \<Rightarrow> Inl err
       | Inr data \<Rightarrow> deserializeEnvelope data) = Inl InvalidNonceLength
   \<and> validateEnvelope (sample_envelope\<lparr>timestamp := 3 / 2\<rparr>) = Inr True
   \<and> serializeEnvelope (sample_envelope\<lparr>timestamp := 3 / 2\<rparr>) = Inl SerializationFailed"
proof -
  have a: "validateEnvelope (sample_envelope\<lparr>messageId := ''550E8400-E29B-41D4-A716-446655440000''\<rparr>)
     = Inr True"
    by (simp add: sample_envelope_def validateEnvelope_def MESSAGE_ENVELOPE_VERSION_def)
  have b: "serializeEnvelope (sample_envelope\<lparr>messageId := ''550E8400-E29B-41D4-A716-446655440000''\<rparr>)
     = Inr sample_bytes"
    by (simp add: sample_envelope_def sample_bytes_def serializeEnvelope_def validateEnvelope_def
        MESSAGE_ENVELOPE_VERSION_def be_bytes_numeral hexToBytes_numeral hexToBytes_Suc
        hexToBytes_0 parseInt16_def isStrWhiteSpace_def hexDigitValue_def toUint8_def)
  have c: "deserializeEnvelope sample_bytes = Inr sample_envelope"
    by (simp add: sample_envelope_def sample_bytes_def deserializeEnvelope_def
        validateEnvelope_def MESSAGE_ENVELOPE_VERSION_def slice_def be_value_def bytesToHex_def
        toString16_def padStart2_def hexDigit_def formatUUID_def substr_def
        numberOfBigInt_small)
  have d: "sample_envelope \<noteq> sample_envelope\<lparr>messageId := ''550E8400-E29B-41D4-A716-446655440000''\<rparr>"
    by (simp add: sample_envelope_def)
  have e: "validateEnvelope (sample_envelope\<lparr>nonce := replicate 1025 0\<rparr>) = Inr True"
    by (simp add: sample_envelope_def validateEnvelope_def MESSAGE_ENVELOPE_VERSION_def)
  have "\<exists>data. serializeEnvelope (sample_envelope\<lparr>nonce := replicate 1025 0\<rparr>) = Inr data
      \<and> deserializeEnvelope data = Inl InvalidNonceLength"
    by (rule deserializeEnvelope_long_nonce [OF e, where n = 1700000000000])
       (simp_all add: sample_envelope_def)
  then have f: "(case serializeEnvelope (sample_envelope\<lparr>nonce := replicate 1025 0\<rparr>) of
         Inl err \<Rightarrow> Inl err
       | Inr data \<Rightarrow> deserializeEnvelope data) = Inl InvalidNonceLength"
    by auto
  have g: "validateEnvelope (sample_envelope\<lparr>timestamp := 3 / 2\<rparr>) = Inr True"
    by (simp add: sample_envelope_def validateEnvelope_def MESSAGE_ENVELOPE_VERSION_def)
  have fl: "\<lfloor>3 / 2 :: rat\<rfloor> = 1"
    by (rule floor_unique) simp_all
  have h: "serializeEnvelope (sample_envelope\<lparr>timestamp := 3 / 2\<rparr>) = Inl SerializationFailed"
    by (simp add: sample_envelope_def serializeEnvelope_def validateEnvelope_def
        MESSAGE_ENVELOPE_VERSION_def fl)
  from a b c d e f g h show ?thesis by blast
qed

text \<open>
  Claim C7, as amended. \<open>sendMessage\<close> makes its input checks in the order of the source,
  on the length of the text in UTF-16 code units, and the first check that fails decides
  the error: a text of more than 500 code units, which includes every text of more than 500
  Unicode code points, fails with the too-long error; an empty text fails with the
  empty-message error; a text of 1 to 500 code units for a recipient that is not in the
  peer table fails with the unknown-peer error; a text of 1 to 500 code units for a
  recipient in the peer table without shared secret fails with the no-shared-secret error.
  In each case the call returns the error and the state it started from: no call to
  encryption, storage or BLE has been made.
\<close>

theorem sendMessage_input_errors:
  "(length text' = 0 \<longrightarrow> sendMessage w r text' peers s = (Inl MessageEmpty, s))
   \<and> (length text' > 500 \<longrightarrow> sendMessage w r text' peers s = (Inl MessageTooLong, s))
   \<and> (codePointCount text' > 500 \<longrightarrow> sendMessage w r text' peers s = (Inl MessageTooLong, s))
   \<and> (0 < length text' \<and> length text' \<le> 500 \<and> map_get peers r = None
        \<longrightarrow> sendMessage w r text' peers s = (Inl RecipientNotFound, s))
   \<and> (0 < length text' \<and> length text' \<le> 500 \<and> map_get peers r = Some p \<and> sharedSecret p = None
        \<longrightarrow> sendMessage w r text' peers s = (Inl NoSharedSecret, s))"
  using codePointCount_le [of text']
  by (auto simp: sendMessage_def MAX_MESSAGE_LENGTH_def)

theorem sendMessage_input_errors_witness:
  "sendMessage sample_world ''peer-A'' [] sample_peers sample_state
     = (Inl MessageEmpty, sample_state)
   \<and> sendMessage sample_world ''peer-A'' (replicate 501 0x61) sample_peers sample_state
     = (Inl MessageTooLong, sample_state)
   \<and> codePointCount (replicate 501 0x61) = 501
   \<and> sendMessage sample_world ''peer-X'' sample_text sample_peers sample_state
     = (Inl RecipientNotFound, sample_state)
   \<and> sendMessage sample_world ''peer-C'' sample_text sample_peers sample_state
     = (Inl NoSharedSecret, sample_state)"
proof -
  have a: "sendMessage sample_world ''peer-A'' [] sample_peers sample_state
     = (Inl MessageEmpty, sample_state)"
    using sendMessage_input_errors [of "[]" sample_world "''peer-A''" sample_peers sample_state]
    by simp
  have c: "codePointCount (replicate 501 0x61) = 501"
    by (rule codePointCount_replicate) (simp add: isHighSurrogate_def)
  have b: "sendMessage sample_world ''peer-A'' (replicate 501 0x61) sample_peers sample_state
     = (Inl MessageTooLong, sample_state)"
    using sendMessage_input_errors
      [of "replicate 501 0x61" sample_world "''peer-A''" sample_peers sample_state] c
    by simp
  have d: "sendMessage sample_world ''peer-X'' sample_text sample_peers sample_state
     = (Inl RecipientNotFound, sample_state)"
    using sendMessage_input_errors
      [of sample_text sample_world "''peer-X''" sample_peers sample_state]
    by (simp add: sample_text_def sample_peers_def map_get_def)
  have e: "sendMessage sample_world ''peer-C'' sample_text sample_peers sample_state
     = (Inl NoSharedSecret, sample_state)"
    using sendMessage_input_errors
      [of sample_text sample_world "''peer-C''" sample_peers sample_state
          "\<lparr>peer_id = ''peer-C'', publicKey = None, sharedSecret = None,
            peer_name = ''C'', connected = True, verified = False, rssi = - 60,
            lastSeen = 1700000000000\<rparr>"]
    by (simp add: sample_text_def sample_peers_def map_get_def)
  from a b c d e show ?thesis by blast
qed

text \<open>
  Claim C7 as stated fails. A text of 251 emoji has 251 code points, within the limit the
  claim counts, and 502 code units; sent to a recipient that is not in the peer table it
  fails with the too-long error, not with the unknown-peer error. An empty text sent to that
  recipient fails with the empty-message error, not with the unknown-peer error.
\<close>

theorem sendMessage_input_errors_counterexample:
  "codePointCount emoji_text = 251
   \<and> length emoji_text = 502
   \<and> map_get sample_peers ''peer-X'' = None
   \<and> sendMessage sample_world ''peer-X'' emoji_text sample_peers sample_state
       = (Inl MessageTooLong, sample_state)
   \<and> sendMessage sample_world ''peer-X'' [] sample_peers sample_state
       = (Inl MessageEmpty, sample_state)"
proof -
  have a: "map_get sample_peers ''peer-X'' = None"
    by (simp add: sample_peers_def map_get_def)
  have b: "sendMessage sample_world ''peer-X'' emoji_text sample_peers sample_state
       = (Inl MessageTooLong, sample_state)"
    by (simp add: sendMessage_def MAX_MESSAGE_LENGTH_def emoji_text_measures)
  have c: "sendMessage sample_world ''peer-X'' [] sample_peers sample_state
       = (Inl MessageEmpty, sample_state)"
    by (simp add: sendMessage_def MAX_MESSAGE_LENGTH_def)
  from a b c emoji_text_measures show ?thesis by blast
qed

text \<open>
  Claim C5 does not hold of the code: \<open>MAX_CACHE_ENTRIES\<close> is declared and documented
  as the cap of the duplicate cache, and \<open>markAsProcessed\<close> never reads it. Marking the
  1001 different message ids \<open>uuidOfNat 0\<close>, ..., \<open>uuidOfNat 1000\<close> within the
  expiry window leaves 1001 entries in the cache.
\<close>

theorem cache_exceeds_MAX_CACHE_ENTRIES:
  "getCacheSize (fold (\<lambda>i. markAsProcessed i 1700000000000 1700000000000)
       (map uuidOfNat [0..<1001]) newDuplicateDetector) = 1001
   \<and> MAX_CACHE_ENTRIES = 1000"
proof -
  have "inj_on uuidOfNat (set [0..<1001])"
  proof (rule inj_onI)
    fix i j assume "i \<in> set [0..<1001]" "j \<in> set [0..<1001]" "uuidOfNat i = uuidOfNat j"
    then show "i = j" by (intro uuidOfNat_inj) simp_all
  qed
  then have "distinct (map uuidOfNat [0..<1001])"
    by (simp add: distinct_map)
  then have "getCacheSize (fold (\<lambda>i. markAsProcessed i 1700000000000 1700000000000)
       (map uuidOfNat [0..<1001]) newDuplicateDetector)
     = getCacheSize newDuplicateDetector + length (map uuidOfNat [0..<1001])"
    by (intro fold_markAsProcessed_size) (simp_all add: newDuplicateDetector_def)
  then show ?thesis
    by (simp add: getCacheSize_def map_size_def newDuplicateDetector_def MAX_CACHE_ENTRIES_def)
qed

text \<open>
  Claim C2, as amended. For every envelope in the form the deserializer produces (as in
  claim C1: it passes validation, its ids are canonical lower-case hexadecimal, its timestamp
  is an integer below \<open>2^64\<close>, its fields are within the size limits) with \<open>ttl > 0\<close>,
  handed to \<open>relayMessage\<close> with a non-empty inbound peer id: the relay serializes the
  envelope with \<open>ttl - 1\<close> and every other field unchanged, the bytes it transmits
  deserialize to exactly that envelope, and it calls \<open>sendData\<close> with these bytes for every
  connected device other than the inbound peer, in order, and never for the inbound peer.
\<close>

theorem relayMessage_transmits:
  assumes v: "validateEnvelope e = Inr True"
    and m: "isCanonicalUUID (messageId e)"
    and sr: "isLowerHexString 16 (senderId e)" "isLowerHexString 16 (recipientId e)"
    and t: "timestamp e = of_nat n" "n < 2 ^ 64" "isExactDouble n"
    and l: "length (nonce e) \<le> 1024" "length (tag e) \<le> 1024"
      "length (encryptedPayload e) \<le> 10 * 1024 * 1024"
    and ttl: "0 < ttl e" and ex: "excludePeerId \<noteq> []"
  shows "\<exists>data. serializeEnvelope (e\<lparr>ttl := ttl e - 1\<rparr>) = Inr data
           \<and> deserializeEnvelope data = Inr (e\<lparr>ttl := ttl e - 1\<rparr>)
           \<and> newEvents s (relayMessage w e excludePeerId s) =
               RelayLog (messageId e) (ttl e - 1) excludePeerId
               # map (\<lambda>d. SendDataCall d data (sendData (ble w) d data))
                   (filter (\<lambda>d. d \<noteq> excludePeerId) (connectedDevices (ble w)))
           \<and> (\<forall>data' ok. SendDataCall excludePeerId data' ok
                 \<notin> set (newEvents s (relayMessage w e excludePeerId s)))"
proof -
  let ?e = "e\<lparr>ttl := ttl e - 1\<rparr>"
  have v': "validateEnvelope ?e = Inr True"
    using v ttl by (simp add: validateEnvelope_Inr)
  have m': "isCanonicalUUID (messageId ?e)" using m by simp
  have s': "isLowerHexString 16 (senderId ?e)" using sr(1) by simp
  have r': "isLowerHexString 16 (recipientId ?e)" using sr(2) by simp
  have t': "timestamp ?e = of_nat n" using t(1) by simp
  have l': "length (nonce ?e) \<le> 1024" "length (tag ?e) \<le> 1024"
      "length (encryptedPayload ?e) \<le> 10 * 1024 * 1024"
    using l by simp_all
  from serialize_deserialize_canonical [OF v' m' s' r' t' t(2) t(3) l']
  obtain data where d: "serializeEnvelope ?e = Inr data" "deserializeEnvelope data = Inr ?e"
    by blast
  have r: "relayMessage w e excludePeerId s =
     s\<lparr>events := events s @ RelayLog (messageId e) (ttl e - 1) excludePeerId
          # map (\<lambda>d. SendDataCall d data (sendData (ble w) d data))
              (filter (\<lambda>d. d \<noteq> excludePeerId) (connectedDevices (ble w)))\<rparr>"
    using relayMessage_serialized [OF d(1)] devicesToSend_exclude [OF ex] by simp
  have n: "newEvents s (relayMessage w e excludePeerId s) =
               RelayLog (messageId e) (ttl e - 1) excludePeerId
               # map (\<lambda>d. SendDataCall d data (sendData (ble w) d data))
                   (filter (\<lambda>d. d \<noteq> excludePeerId) (connectedDevices (ble w)))"
    unfolding r by (rule newEvents_append)
  have "\<forall>data' ok. SendDataCall excludePeerId data' ok
                 \<notin> set (newEvents s (relayMessage w e excludePeerId s))"
    unfolding n by auto
  with d n show ?thesis by blast
qed

theorem relayMessage_transmits_witness:
  "serializeEnvelope (sample_envelope\<lparr>ttl := 9\<rparr>) = Inr sample_relay_bytes
   \<and> deserializeEnvelope sample_relay_bytes = Inr (sample_envelope\<lparr>ttl := 9\<rparr>)
   \<and> newEvents sample_state (relayMessage sample_world sample_envelope ''peer-A'' sample_state)
       = [RelayLog ''550e8400-e29b-41d4-a716-446655440000'' 9 ''peer-A'',
          SendDataCall ''peer-B'' sample_relay_bytes True]"
proof -
  have ttl: "0 < ttl sample_envelope" by (simp add: sample_envelope_def)
  have ex: "''peer-A'' \<noteq> []" by simp
  from relayMessage_transmits [OF sample_envelope_wf ttl ex, of sample_state sample_world]
  obtain data where d: "serializeEnvelope (sample_envelope\<lparr>ttl := ttl sample_envelope - 1\<rparr>) = Inr data"
    and n: "newEvents sample_state (relayMessage sample_world sample_envelope ''peer-A'' sample_state) =
               RelayLog (messageId sample_envelope) (ttl sample_envelope - 1) ''peer-A''
               # map (\<lambda>d. SendDataCall d data (sendData (ble sample_world) d data))
                   (filter (\<lambda>d. d \<noteq> ''peer-A'') (connectedDevices (ble sample_world)))"
    by blast
  have t9: "ttl sample_envelope - 1 = 9" by (simp add: sample_envelope_def)
  have "data = sample_relay_bytes"
    using d sample_relay_serialized unfolding t9 by simp
  with n t9 have "newEvents sample_state (relayMessage sample_world sample_envelope ''peer-A'' sample_state)
       = [RelayLog ''550e8400-e29b-41d4-a716-446655440000'' 9 ''peer-A'',
          SendDataCall ''peer-B'' sample_relay_bytes True]"
    by (simp add: sample_world_def sample_ble_def sendData_def sample_envelope_def)
  with sample_relay_serialized sample_relay_deserialized show ?thesis by blast
qed

text \<open>
  Claim C2 as stated fails. With the empty string as inbound peer id the guard
  \<open>excludePeerId ? ... : ...\<close> excludes nobody, and a connected device with that id is
  sent the envelope. An envelope with timestamp \<open>2^64\<close> passes validation, and the relay
  transmits bytes whose timestamp field is 0, which no receiver accepts. An envelope with an
  upper-case message id passes validation, and the relay transmits bytes that carry the
  lower-case message id.
\<close>

theorem relayMessage_counterexample:
  "newEvents sample_state
      (relayMessage (sample_world\<lparr>ble := empty_id_ble\<rparr>) sample_envelope [] sample_state)
     = [RelayLog ''550e8400-e29b-41d4-a716-446655440000'' 9 [],
        SendDataCall [] sample_relay_bytes True,
        SendDataCall ''peer-B'' sample_relay_bytes True]
   \<and> validateEnvelope (sample_envelope\<lparr>timestamp := 18446744073709551616\<rparr>) = Inr True
   \<and> newEvents sample_state
        (relayMessage sample_world (sample_envelope\<lparr>timestamp := 18446744073709551616\<rparr>)
           ''peer-A'' sample_state)
     = [RelayLog ''550e8400-e29b-41d4-a716-446655440000'' 9 ''peer-A'',
        SendDataCall ''peer-B'' sample_wrapped_bytes True]
   \<and> deserializeEnvelope sample_wrapped_bytes = Inl MissingTimestamp
   \<and> validateEnvelope (sample_envelope\<lparr>messageId := ''550E8400-E29B-41D4-A716-446655440000''\<rparr>)
       = Inr True
   \<and> newEvents sample_state
        (relayMessage sample_world
           (sample_envelope\<lparr>messageId := ''550E8400-E29B-41D4-A716-446655440000''\<rparr>)
           ''peer-A'' sample_state)
     = [RelayLog ''550E8400-E29B-41D4-A716-446655440000'' 9 ''peer-A'',
        SendDataCall ''peer-B'' sample_relay_bytes True]
   \<and> deserializeEnvelope sample_relay_bytes = Inr (sample_envelope\<lparr>ttl := 9\<rparr>)
   \<and> messageId (sample_envelope\<lparr>ttl := 9\<rparr>) \<noteq> ''550E8400-E29B-41D4-A716-446655440000''"
proof -
  have t9: "ttl sample_envelope - 1 = 9" by (simp add: sample_envelope_def)
  have a: "newEvents sample_state
      (relayMessage (sample_world\<lparr>ble := empty_id_ble\<rparr>) sample_envelope [] sample_state)
     = [RelayLog ''550e8400-e29b-41d4-a716-446655440000'' 9 [],
        SendDataCall [] sample_relay_bytes True,
        SendDataCall ''peer-B'' sample_relay_bytes True]"
    using sample_relay_serialized
    by (subst relayMessage_serialized [where data = sample_relay_bytes])
       (simp_all add: t9 devicesToSend_def getConnectedDevices_def sendData_def empty_id_ble_def,
        simp add: sample_envelope_def)
  have b: "validateEnvelope (sample_envelope\<lparr>timestamp := 18446744073709551616\<rparr>) = Inr True"
    by (simp add: sample_envelope_def validateEnvelope_def MESSAGE_ENVELOPE_VERSION_def)
  have c: "newEvents sample_state
        (relayMessage sample_world (sample_envelope\<lparr>timestamp := 18446744073709551616\<rparr>)
           ''peer-A'' sample_state)
     = [RelayLog ''550e8400-e29b-41d4-a716-446655440000'' 9 ''peer-A'',
        SendDataCall ''peer-B'' sample_wrapped_bytes True]"
    using sample_wrapped_serialized
    by (subst relayMessage_serialized [where data = sample_wrapped_bytes])
       (simp_all add: t9 devicesToSend_def getConnectedDevices_def sendData_def
          sample_world_def sample_ble_def, simp add: sample_envelope_def)
  have d: "validateEnvelope (sample_envelope\<lparr>messageId := ''550E8400-E29B-41D4-A716-446655440000''\<rparr>)
       = Inr True"
    by (simp add: sample_envelope_def validateEnvelope_def MESSAGE_ENVELOPE_VERSION_def)
  have e: "newEvents sample_state
        (relayMessage sample_world
           (sample_envelope\<lparr>messageId := ''550E8400-E29B-41D4-A716-446655440000''\<rparr>)
           ''peer-A'' sample_state)
     = [RelayLog ''550E8400-E29B-41D4-A716-446655440000'' 9 ''peer-A'',
        SendDataCall ''peer-B'' sample_relay_bytes True]"
    using sample_upper_relay_serialized
    by (subst relayMessage_serialized [where data = sample_relay_bytes])
       (simp_all add: t9 devicesToSend_def getConnectedDevices_def sendData_def
          sample_world_def sample_ble_def)
  have f: "messageId (sample_envelope\<lparr>ttl := 9\<rparr>) \<noteq> ''550E8400-E29B-41D4-A716-446655440000''"
    by (simp add: sample_envelope_def)
  from a b c d e f sample_wrapped_deserialized sample_relay_deserialized show ?thesis by blast
qed

text \<open>
  Claim C4, as amended. For every received envelope that deserializes, is not a duplicate
  and whose local processing no collaborator aborts (the crypto service is initialized and
  the storage write succeeds), the receive path invokes the relay procedure exactly when
  the TTL of the envelope is greater than 0, whether or not the sender is known and the
  payload decrypts: the call logs exactly one relay, of the envelope with TTL decreased by
  one, when \<open>ttl > 0\<close>, and none when \<open>ttl = 0\<close>, in which case it sends nothing; every
  relay it logs has a TTL of at least 0.
\<close>

theorem handleIncomingMessage_relays_iff_ttl:
  assumes "deserializeEnvelope data = Inr e"
    and "\<not> isDuplicate (duplicateDetector s) (messageId e)"
    and "initialized (crypto w)" and "\<not> storage_fails w"
  shows "filter isRelayLog (newEvents s (handleIncomingMessage w sender data peers s))
       = (if 0 < ttl e then [RelayLog (messageId e) (ttl e - 1) sender] else [])
     \<and> (ttl e = 0 \<longrightarrow>
          filter isSendDataCall (newEvents s (handleIncomingMessage w sender data peers s)) = [])
     \<and> (\<forall>i t x. RelayLog i t x \<in> set (newEvents s (handleIncomingMessage w sender data peers s))
          \<longrightarrow> 0 \<le> t)"
  using handleIncomingMessage_relay_decision [OF assms] by blast

theorem handleIncomingMessage_relays_iff_ttl_witness:
  "deserializeEnvelope sample_bytes = Inr sample_envelope
   \<and> filter isRelayLog
        (newEvents sample_state
           (handleIncomingMessage sample_world ''peer-A'' sample_bytes sample_peers sample_state))
       = [RelayLog ''550e8400-e29b-41d4-a716-446655440000'' 9 ''peer-A'']
   \<and> deserializeEnvelope sample_final_bytes = Inr (sample_envelope\<lparr>ttl := 0\<rparr>)
   \<and> filter isRelayLog
        (newEvents sample_state
           (handleIncomingMessage sample_world ''peer-A'' sample_final_bytes sample_peers
              sample_state)) = []
   \<and> filter isSendDataCall
        (newEvents sample_state
           (handleIncomingMessage sample_world ''peer-A'' sample_final_bytes sample_peers
              sample_state)) = []"
proof -
  have ci: "initialized (crypto sample_world)"
    by (simp add: sample_world_def sample_crypto_def)
  have st: "\<not> storage_fails sample_world" by (simp add: sample_world_def)
  have a: "filter isRelayLog
        (newEvents sample_state
           (handleIncomingMessage sample_world ''peer-A'' sample_bytes sample_peers sample_state))
       = [RelayLog ''550e8400-e29b-41d4-a716-446655440000'' 9 ''peer-A'']"
    using handleIncomingMessage_relays_iff_ttl [OF sample_deserialized sample_fresh ci st,
        of "''peer-A''" sample_peers]
    by (simp add: sample_envelope_def)
  have b: "filter isRelayLog
        (newEvents sample_state
           (handleIncomingMessage sample_world ''peer-A'' sample_final_bytes sample_peers
              sample_state)) = []
     \<and> filter isSendDataCall
        (newEvents sample_state
           (handleIncomingMessage sample_world ''peer-A'' sample_final_bytes sample_peers
              sample_state)) = []"
    using handleIncomingMessage_relays_iff_ttl [OF sample_final_deserialized sample_fresh ci st,
        of "''peer-A''" sample_peers]
    by simp
  from a b sample_deserialized sample_final_deserialized show ?thesis by blast
qed

text \<open>
  Claim C4 as stated fails. An envelope with TTL 10 from a known sender decrypts, the
  storage write throws, the outer \<open>catch\<close> ends the call, and the envelope is not relayed.
  The same envelope with TTL 10 arriving a second time is a duplicate and is not relayed.
\<close>

theorem handleIncomingMessage_relay_counterexample:
  "deserializeEnvelope sample_bytes = Inr sample_envelope
   \<and> ttl sample_envelope = 10
   \<and> filter isRelayLog
        (newEvents sample_state
           (handleIncomingMessage failing_storage_world ''peer-A'' sample_bytes sample_peers
              sample_state)) = []
   \<and> filter isRelayLog
        (newEvents
           (handleIncomingMessage sample_world ''peer-A'' sample_bytes sample_peers sample_state)
           (handleIncomingMessage sample_world ''peer-A'' sample_bytes sample_peers
              (handleIncomingMessage sample_world ''peer-A'' sample_bytes sample_peers
                 sample_state))) = []"
proof -
  have a: "ttl sample_envelope = 10" by (simp add: sample_envelope_def)
  have b: "filter isRelayLog
        (newEvents sample_state
           (handleIncomingMessage failing_storage_world ''peer-A'' sample_bytes sample_peers
              sample_state)) = []"
    unfolding sample_failing_store
    by (simp add: newEvents_def sample_state_def isRelayLog_def)
  define s1 where "s1 = handleIncomingMessage sample_world ''peer-A'' sample_bytes sample_peers sample_state"
  have "isDuplicate (duplicateDetector s1) (messageId sample_envelope)"
    unfolding s1_def sample_first_receipt_detector
    by (simp add: isDuplicate_def map_has_def sample_envelope_def)
  then have "handleIncomingMessage sample_world ''peer-A'' sample_bytes sample_peers s1 = s1"
    unfolding handleIncomingMessage_factored [OF sample_deserialized] by simp
  then have c: "filter isRelayLog (newEvents s1
      (handleIncomingMessage sample_world ''peer-A'' sample_bytes sample_peers s1)) = []"
    by (simp add: newEvents_def)
  from a b c sample_deserialized show ?thesis unfolding s1_def by blast
qed

text \<open>
  Claim C9, as amended. On the receive path a storage error while persisting a
  successfully decrypted message is caught: \<open>handleIncomingMessage\<close> returns normally, the
  message id stays marked in the duplicate cache and nothing is written to storage, and the
  processing of that message ends there, so the message-received callback is not invoked
  for it.
\<close>

theorem handleIncomingMessage_storage_error:
  assumes "deserializeEnvelope data = Inr e"
    and "\<not> isDuplicate (duplicateDetector s) (messageId e)"
    and "resolveSenderPeer (crypto w) peers (senderId e) sender = Inr (Some p)"
    and "sharedSecret p = Some secret"
    and "decryptMessage (crypto w)
        \<lparr>ciphertext = encryptedPayload e, enc_nonce = nonce e, enc_tag = tag e\<rparr> secret
        = Inr (Some plaintext)"
    and "storage_fails w"
  shows "handleIncomingMessage w sender data peers s =
     s\<lparr>duplicateDetector :=
          markAsProcessed (messageId e) (now_marked w) (now_pruned w) (duplicateDetector s),
       events := events s @
         [DecryptCall \<lparr>ciphertext = encryptedPayload e, enc_nonce = nonce e, enc_tag = tag e\<rparr> secret,
          StoreMessageCall \<lparr>msg_id = messageId e, peerId = peer_id p, msg_text = plaintext,
             msg_timestamp = timestamp e, sent = False, delivered = True, failed = False\<rparr> False]\<rparr>
     \<and> filter isMessageReceived (newEvents s (handleIncomingMessage w sender data peers s)) = []
     \<and> storage (handleIncomingMessage w sender data peers s) = storage s"
  unfolding handleIncomingMessage_store_failed [OF assms]
  by (simp add: isMessageReceived_def newEvents_def)

theorem handleIncomingMessage_storage_error_witness:
  "deserializeEnvelope sample_bytes = Inr sample_envelope
   \<and> decryptMessage sample_crypto sample_encrypted sample_secret = Inr (Some sample_text)
   \<and> storage_fails failing_storage_world
   \<and> newEvents sample_state
       (handleIncomingMessage failing_storage_world ''peer-A'' sample_bytes sample_peers
          sample_state)
     = [DecryptCall sample_encrypted sample_secret, StoreMessageCall sample_message False]
   \<and> storage (handleIncomingMessage failing_storage_world ''peer-A'' sample_bytes sample_peers
          sample_state) = []"
proof -
  have r: "resolveSenderPeer (crypto failing_storage_world) sample_peers
      (senderId sample_envelope) ''peer-A'' = Inr (Some sample_peer)"
    using sample_resolved
    by (simp add: failing_storage_world_def sample_world_def sample_envelope_def)
  have k: "sharedSecret sample_peer = Some sample_secret" by (simp add: sample_peer_def)
  have dec: "decryptMessage (crypto failing_storage_world)
      \<lparr>ciphertext = encryptedPayload sample_envelope, enc_nonce = nonce sample_envelope,
       enc_tag = tag sample_envelope\<rparr> sample_secret = Inr (Some sample_text)"
    using sample_decrypted
    by (simp add: failing_storage_world_def sample_world_def sample_encrypted_def)
  have sf: "storage_fails failing_storage_world" by (simp add: failing_storage_world_def)
  from handleIncomingMessage_storage_error [OF sample_deserialized sample_fresh r k dec sf]
  have "newEvents sample_state
       (handleIncomingMessage failing_storage_world ''peer-A'' sample_bytes sample_peers
          sample_state)
     = [DecryptCall sample_encrypted sample_secret, StoreMessageCall sample_message False]
   \<and> storage (handleIncomingMessage failing_storage_world ''peer-A'' sample_bytes sample_peers
          sample_state) = []"
    by (simp add: newEvents_def sample_state_def sample_encrypted_def sample_message_def
        sample_envelope_def sample_peer_def)
  with sample_deserialized sample_decrypted sf show ?thesis by blast
qed

text \<open>
  Claim C9 as stated fails. With a registered message-received callback, an envelope that
  decrypts and a storage write that throws, the call invokes no message-received callback.
\<close>

theorem handleIncomingMessage_storage_error_counterexample:
  "messageReceivedCallback sample_state
   \<and> deserializeEnvelope sample_bytes = Inr sample_envelope
   \<and> decryptMessage sample_crypto sample_encrypted sample_secret = Inr (Some sample_text)
   \<and> storage_fails failing_storage_world
   \<and> filter isMessageReceived
       (newEvents sample_state
          (handleIncomingMessage failing_storage_world ''peer-A'' sample_bytes sample_peers
             sample_state)) = []"
proof -
  have a: "messageReceivedCallback sample_state" by (simp add: sample_state_def)
  have sf: "storage_fails failing_storage_world" by (simp add: failing_storage_world_def)
  have "filter isMessageReceived
       (newEvents sample_state
          (handleIncomingMessage failing_storage_world ''peer-A'' sample_bytes sample_peers
             sample_state)) = []"
    unfolding sample_failing_store
    by (simp add: newEvents_def sample_state_def isMessageReceived_def)
  with a sf sample_deserialized sample_decrypted show ?thesis by blast
qed

text \<open>
  Claim C10. A call of \<open>sendMessage\<close> that returns a message has written the record of
  that message to storage exactly once, appended to the array of the recipient, with
  \<open>delivered\<close> and \<open>failed\<close> false, and the write comes before every BLE write: the
  events of the call are the encryption, the storage write, the BLE writes to the connected
  devices and, when a device was reached and a status callback is registered, the delivered
  callback. The returned record differs from the stored one only in \<open>delivered\<close>, which is
  true exactly when a device was reached. A call that returns an error has left the storage
  as it was and has made no BLE write. \<open>processRetryQueue\<close> leaves the storage as it was
  and makes no storage write: delivery or failure after a retry reaches only the status
  callback.
\<close>

theorem sendMessage_stores_once:
  "(sendMessage w r text' peers s = (Inr m, s') \<longrightarrow>
      (\<exists>secret data.
         newEvents s s' =
           EncryptCall text' secret # StoreMessageCall (m\<lparr>delivered := False\<rparr>) True
           # map (\<lambda>d. SendDataCall d data (sendData (ble w) d data)) (connectedDevices (ble w))
           @ (if delivered m \<and> messageStatusCallback s
              then [MessageStatusCallback (msg_id m) Delivered] else [])
         \<and> delivered m = (\<exists>d \<in> set (connectedDevices (ble w)). sendData (ble w) d data))
      \<and> filter isStoreMessageCall (newEvents s s')
          = [StoreMessageCall (m\<lparr>delivered := False\<rparr>) True]
      \<and> \<not> failed m
      \<and> storage s' =
          map_set (STORAGE_KEY_MESSAGES_PREFIX @ r)
            ((case map_get (storage s) (STORAGE_KEY_MESSAGES_PREFIX @ r) of
                None \<Rightarrow> [] | Some ms \<Rightarrow> ms) @ [m\<lparr>delivered := False\<rparr>]) (storage s))
   \<and> (sendMessage w r text' peers s = (Inl err, s') \<longrightarrow>
        storage s' = storage s \<and> filter isSendDataCall (newEvents s s') = []
        \<and> StoreMessageCall m0 True \<notin> set (newEvents s s'))
   \<and> storage (processRetryQueue w s) = storage s
   \<and> filter isStoreMessageCall (newEvents s (processRetryQueue w s)) = []"
proof (intro conjI impI)
  assume a: "sendMessage w r text' peers s = (Inr m, s')"
  from sendMessage_succeeded_effects [OF a]
  obtain secret envelope data where
    ev: "newEvents s s' =
         EncryptCall text' secret # StoreMessageCall (m\<lparr>delivered := False\<rparr>) True
         # map (\<lambda>d. SendDataCall d data (sendData (ble w) d data)) (connectedDevices (ble w))
         @ (if delivered m \<and> messageStatusCallback s
            then [MessageStatusCallback (msg_id m) Delivered] else [])"
    and dl: "delivered m = (\<exists>d \<in> set (connectedDevices (ble w)). sendData (ble w) d data)"
    and st: "storage s' =
         map_set (STORAGE_KEY_MESSAGES_PREFIX @ r)
           ((case map_get (storage s) (STORAGE_KEY_MESSAGES_PREFIX @ r) of
               None \<Rightarrow> [] | Some ms \<Rightarrow> ms) @ [m\<lparr>delivered := False\<rparr>]) (storage s)"
    and nf: "\<not> failed m"
    by blast
  from ev dl show "\<exists>secret data.
         newEvents s s' =
           EncryptCall text' secret # StoreMessageCall (m\<lparr>delivered := False\<rparr>) True
           # map (\<lambda>d. SendDataCall d data (sendData (ble w) d data)) (connectedDevices (ble w))
           @ (if delivered m \<and> messageStatusCallback s
              then [MessageStatusCallback (msg_id m) Delivered] else [])
         \<and> delivered m = (\<exists>d \<in> set (connectedDevices (ble w)). sendData (ble w) d data)"
    by blast
  show "filter isStoreMessageCall (newEvents s s')
          = [StoreMessageCall (m\<lparr>delivered := False\<rparr>) True]"
    unfolding ev by (simp add: isStoreMessageCall_def o_def)
  from nf show "\<not> failed m" .
  from st show "storage s' =
          map_set (STORAGE_KEY_MESSAGES_PREFIX @ r)
            ((case map_get (storage s) (STORAGE_KEY_MESSAGES_PREFIX @ r) of
                None \<Rightarrow> [] | Some ms \<Rightarrow> ms) @ [m\<lparr>delivered := False\<rparr>]) (storage s)" .
next
  assume a: "sendMessage w r text' peers s = (Inl err, s')"
  from sendMessage_failed_effects [OF a, of m0]
  show "storage s' = storage s" "filter isSendDataCall (newEvents s s') = []"
    "StoreMessageCall m0 True \<notin> set (newEvents s s')"
    by simp_all
next
  show "storage (processRetryQueue w s) = storage s"
    "filter isStoreMessageCall (newEvents s (processRetryQueue w s)) = []"
    using processRetryQueue_storage [of w s] by simp_all
qed

theorem sendMessage_stores_once_witness:
  "sendMessage sample_world ''peer-A'' sample_text sample_peers sample_state
     = (Inr (sent_message\<lparr>delivered := True\<rparr>), delivered_state)
   \<and> \<not> delivered sent_message \<and> \<not> failed sent_message
   \<and> filter isStoreMessageCall (newEvents sample_state delivered_state)
       = [StoreMessageCall sent_message True]
   \<and> storage delivered_state = [(''@emergency_chat:messages:peer-A'', [sent_message])]
   \<and> sendMessage sample_world ''peer-X'' sample_text sample_peers sample_state
       = (Inl RecipientNotFound, sample_state)
   \<and> filter isSendDataCall (newEvents sample_state sample_state) = []"
proof -
  have m: "sent_message\<lparr>delivered := True, delivered := False\<rparr> = sent_message"
    by (simp add: sent_message_def)
  have f: "\<not> delivered sent_message" "\<not> failed sent_message" by (simp_all add: sent_message_def)
  have x: "sendMessage sample_world ''peer-X'' sample_text sample_peers sample_state
       = (Inl RecipientNotFound, sample_state)"
    by (simp add: sendMessage_def MAX_MESSAGE_LENGTH_def sample_text_def sample_peers_def
        map_get_def)
  from sendMessage_stores_once
    [of sample_world "''peer-A''" sample_text sample_peers sample_state
        "sent_message\<lparr>delivered := True\<rparr>" delivered_state] sample_send_online
  have a: "filter isStoreMessageCall (newEvents sample_state delivered_state)
       = [StoreMessageCall sent_message True]"
    and b: "storage delivered_state = [(''@emergency_chat:messages:peer-A'', [sent_message])]"
    by (simp_all add: m sample_state_def map_get_def STORAGE_KEY_MESSAGES_PREFIX_def)
  from sendMessage_stores_once
    [of sample_world "''peer-X''" sample_text sample_peers sample_state _ sample_state
        RecipientNotFound] x
  have c: "filter isSendDataCall (newEvents sample_state sample_state) = []"
    by simp
  from sample_send_online f a b x c show ?thesis by blast
qed

text \<open>
  Claim C8. A call of \<open>sendMessage\<close> that returns a message has written the serialized
  envelope to every connected device; when none of these writes succeeds (or no device is
  connected) the message is put in the retry queue under its message id, with that envelope
  and those same bytes, \<open>attempts = 0\<close> and a first retry due \<open>RETRY_BASE_DELAY_MS\<close> = 1000 ms
  after the clock reading at queueing, and the returned record is not delivered.

  A tick of the retry timer is one call of \<open>processRetryQueue\<close>; \<open>now_tick\<close> is its reading
  of the clock. The queue is a \<open>Map\<close>, so its keys are distinct. For an entry of the queue:
  before its retry time the tick leaves it as it is and reports nothing; from its retry time
  on the tick writes the queued bytes to every connected device and counts one more attempt;
  if a write succeeds the entry is removed and \<open>delivered\<close> is reported through the status
  callback; if none succeeds and this was attempt 3 the entry is removed and \<open>failed\<close> is
  reported; otherwise the entry stays with the new count and its next retry is due
  \<open>1000 * 2 ^ attempts\<close> ms after this tick. The attempts counted are those made from the
  queue: an entry queued by a failed send whose retries fail at its retry times is kept after
  the first and the second retry, with delays of 2000 and 4000 ms, and is removed and
  reported failed at the third. The timer that makes a tick every second and the overlap of
  two ticks are not part of the model.
\<close>

theorem retry_queue_lifecycle:
  "(sendMessage wsend r text' peers sa = (Inr m, sb) \<longrightarrow>
      (\<exists>envelope data.
         serializeEnvelope envelope = Inr data \<and> messageId envelope = msg_id m
         \<and> filter isSendDataCall (newEvents sa sb)
             = map (\<lambda>d. SendDataCall d data (sendData (ble wsend) d data)) (connectedDevices (ble wsend))
         \<and> (if \<exists>d \<in> set (connectedDevices (ble wsend)). sendData (ble wsend) d data
             then delivered m \<and> messageQueue sb = messageQueue sa
             else \<not> delivered m
                  \<and> messageQueue sb =
                      map_set (msg_id m)
                        \<lparr>q_messageId = msg_id m, q_peerId = r, q_envelope = envelope,
                         serialized = data, attempts = 0,
                         nextRetryTime = now_queued wsend + 1000\<rparr> (messageQueue sa))))
   \<and> (distinct (map fst (messageQueue s)) \<and> map_get (messageQueue s) k = Some q \<longrightarrow>
        map_get (messageQueue (processRetryQueue w s)) k
          = (if now_tick w < nextRetryTime q then Some q
             else if retrySucceeds w q then None
             else if attempts q + 1 \<ge> 3 then None
             else Some (q\<lparr>attempts := attempts q + 1,
                          nextRetryTime := now_tick w + 1000 * 2 ^ (attempts q + 1)\<rparr>))
        \<and> filter (isStatusFor k) (newEvents s (processRetryQueue w s))
          = (if now_tick w < nextRetryTime q \<or> \<not> messageStatusCallback s then []
             else if retrySucceeds w q then [MessageStatusCallback k Delivered]
             else if attempts q + 1 \<ge> 3 then [MessageStatusCallback k Failed]
             else [])
        \<and> (nextRetryTime q \<le> now_tick w \<longrightarrow>
             (\<forall>d \<in> set (connectedDevices (ble w)).
                SendDataCall d (serialized q) (sendData (ble w) d (serialized q))
                  \<in> set (newEvents s (processRetryQueue w s))))
        \<and> distinct (map fst (messageQueue (processRetryQueue w s))))
   \<and> (distinct (map fst (messageQueue s)) \<and> map_get (messageQueue s) k = Some q
        \<and> attempts q = 0 \<and> messageStatusCallback s
        \<and> nextRetryTime q \<le> now_tick wa \<and> \<not> retrySucceeds wa q
        \<and> now_tick wa + 2000 \<le> now_tick wb \<and> \<not> retrySucceeds wb q
        \<and> now_tick wb + 4000 \<le> now_tick wc \<and> \<not> retrySucceeds wc q \<longrightarrow>
        (let s1 = processRetryQueue wa s; s2 = processRetryQueue wb s1;
             s3 = processRetryQueue wc s2
         in map_get (messageQueue s1) k
              = Some (q\<lparr>attempts := 1, nextRetryTime := now_tick wa + 2000\<rparr>)
            \<and> map_get (messageQueue s2) k
              = Some (q\<lparr>attempts := 2, nextRetryTime := now_tick wb + 4000\<rparr>)
            \<and> map_get (messageQueue s3) k = None
            \<and> filter (isStatusFor k) (newEvents s s1) = []
            \<and> filter (isStatusFor k) (newEvents s1 s2) = []
            \<and> filter (isStatusFor k) (newEvents s2 s3) = [MessageStatusCallback k Failed]))"
proof (intro conjI impI)
  assume "sendMessage wsend r text' peers sa = (Inr m, sb)"
  then show "\<exists>envelope data.
         serializeEnvelope envelope = Inr data \<and> messageId envelope = msg_id m
         \<and> filter isSendDataCall (newEvents sa sb)
             = map (\<lambda>d. SendDataCall d data (sendData (ble wsend) d data)) (connectedDevices (ble wsend))
         \<and> (if \<exists>d \<in> set (connectedDevices (ble wsend)). sendData (ble wsend) d data
             then delivered m \<and> messageQueue sb = messageQueue sa
             else \<not> delivered m
                  \<and> messageQueue sb =
                      map_set (msg_id m)
                        \<lparr>q_messageId = msg_id m, q_peerId = r, q_envelope = envelope,
                         serialized = data, attempts = 0,
                         nextRetryTime = now_queued wsend + 1000\<rparr> (messageQueue sa))"
    by (rule sendMessage_queues)
next
  assume a: "distinct (map fst (messageQueue s)) \<and> map_get (messageQueue s) k = Some q"
  then have d: "distinct (map fst (messageQueue s))"
    and g: "map_get (messageQueue s) k = Some q" by simp_all
  show "map_get (messageQueue (processRetryQueue w s)) k
          = (if now_tick w < nextRetryTime q then Some q
             else if retrySucceeds w q then None
             else if attempts q + 1 \<ge> 3 then None
             else Some (q\<lparr>attempts := attempts q + 1,
                          nextRetryTime := now_tick w + 1000 * 2 ^ (attempts q + 1)\<rparr>))"
    by (rule processRetryQueue_entry(1) [OF d g])
  show "filter (isStatusFor k) (newEvents s (processRetryQueue w s))
          = (if now_tick w < nextRetryTime q \<or> \<not> messageStatusCallback s then []
             else if retrySucceeds w q then [MessageStatusCallback k Delivered]
             else if attempts q + 1 \<ge> 3 then [MessageStatusCallback k Failed]
             else [])"
    by (rule processRetryQueue_entry(2) [OF d g])
  show "distinct (map fst (messageQueue (processRetryQueue w s)))"
    using d by (rule processRetryQueue_keys)
  assume "nextRetryTime q \<le> now_tick w"
  then show "\<forall>d \<in> set (connectedDevices (ble w)).
                SendDataCall d (serialized q) (sendData (ble w) d (serialized q))
                  \<in> set (newEvents s (processRetryQueue w s))"
    using processRetryQueue_sends [OF g] by blast
next
  assume a: "distinct (map fst (messageQueue s)) \<and> map_get (messageQueue s) k = Some q
        \<and> attempts q = 0 \<and> messageStatusCallback s
        \<and> nextRetryTime q \<le> now_tick wa \<and> \<not> retrySucceeds wa q
        \<and> now_tick wa + 2000 \<le> now_tick wb \<and> \<not> retrySucceeds wb q
        \<and> now_tick wb + 4000 \<le> now_tick wc \<and> \<not> retrySucceeds wc q"
  show "let s1 = processRetryQueue wa s; s2 = processRetryQueue wb s1;
             s3 = processRetryQueue wc s2
         in map_get (messageQueue s1) k
              = Some (q\<lparr>attempts := 1, nextRetryTime := now_tick wa + 2000\<rparr>)
            \<and> map_get (messageQueue s2) k
              = Some (q\<lparr>attempts := 2, nextRetryTime := now_tick wb + 4000\<rparr>)
            \<and> map_get (messageQueue s3) k = None
            \<and> filter (isStatusFor k) (newEvents s s1) = []
            \<and> filter (isStatusFor k) (newEvents s1 s2) = []
            \<and> filter (isStatusFor k) (newEvents s2 s3) = [MessageStatusCallback k Failed]"
    unfolding Let_def
    using a by (intro three_failed_retries) simp_all
qed

theorem retry_queue_lifecycle_witness:
  "sendMessage offline_world ''peer-A'' sample_text sample_peers sample_state
     = (Inr sent_message, queued_state)
   \<and> filter isSendDataCall (newEvents sample_state queued_state)
       = [SendDataCall ''peer-A'' sent_bytes False, SendDataCall ''peer-B'' sent_bytes False]
   \<and> map_get (messageQueue queued_state) ''03142536-4758-497a-8b9c-adbecfe0f102''
       = Some queued_entry
   \<and> serialized queued_entry = sent_bytes \<and> attempts queued_entry = 0
   \<and> nextRetryTime queued_entry = 1700000000005 + 1000
   \<and> map_get (messageQueue (processRetryQueue offline_world queued_state))
        ''03142536-4758-497a-8b9c-adbecfe0f102'' = Some queued_entry
   \<and> map_get (messageQueue (processRetryQueue online_tick_world queued_state))
        ''03142536-4758-497a-8b9c-adbecfe0f102'' = None
   \<and> filter (isStatusFor ''03142536-4758-497a-8b9c-adbecfe0f102'')
        (newEvents queued_state (processRetryQueue online_tick_world queued_state))
       = [MessageStatusCallback ''03142536-4758-497a-8b9c-adbecfe0f102'' Delivered]
   \<and> SendDataCall ''peer-B'' sent_bytes True
        \<in> set (newEvents queued_state (processRetryQueue online_tick_world queued_state))
   \<and> map_get (messageQueue (processRetryQueue tick1_world queued_state))
        ''03142536-4758-497a-8b9c-adbecfe0f102''
       = Some (queued_entry\<lparr>attempts := 1, nextRetryTime := 1700000003005\<rparr>)
   \<and> map_get (messageQueue (processRetryQueue tick2_world
          (processRetryQueue tick1_world queued_state)))
        ''03142536-4758-497a-8b9c-adbecfe0f102''
       = Some (queued_entry\<lparr>attempts := 2, nextRetryTime := 1700000007005\<rparr>)
   \<and> map_get (messageQueue (processRetryQueue tick3_world (processRetryQueue tick2_world
          (processRetryQueue tick1_world queued_state))))
        ''03142536-4758-497a-8b9c-adbecfe0f102'' = None
   \<and> filter (isStatusFor ''03142536-4758-497a-8b9c-adbecfe0f102'')
        (newEvents (processRetryQueue tick2_world (processRetryQueue tick1_world queued_state))
           (processRetryQueue tick3_world (processRetryQueue tick2_world
              (processRetryQueue tick1_world queued_state))))
       = [MessageStatusCallback ''03142536-4758-497a-8b9c-adbecfe0f102'' Failed]"
proof -
  note q = queued_state_facts
  note t = sample_ticks
  have sd: "\<And>d data. \<not> sendData (ble offline_world) d data"
    by (simp add: offline_world_def offline_ble_def sendData_def)
  have cd: "connectedDevices (ble offline_world) = [''peer-A'', ''peer-B'']"
    "connectedDevices (ble online_tick_world) = [''peer-A'', ''peer-B'']"
    "sendData (ble online_tick_world) ''peer-B'' sent_bytes"
    by (simp_all add: offline_world_def offline_ble_def online_tick_world_def sample_world_def
        sample_ble_def sendData_def)
  have qe: "serialized queued_entry = sent_bytes" "attempts queued_entry = 0"
    "nextRetryTime queued_entry = 1700000000005 + 1000"
    by (simp_all add: queued_entry_def)
  from retry_queue_lifecycle
    [where wsend = offline_world and r = "''peer-A''" and text' = sample_text
       and peers = sample_peers and sa = sample_state and m = sent_message
       and sb = queued_state, THEN conjunct1] sample_send_offline
  obtain envelope data where
    a: "filter isSendDataCall (newEvents sample_state queued_state)
          = map (\<lambda>d. SendDataCall d data (sendData (ble offline_world) d data))
              (connectedDevices (ble offline_world))"
    and b: "messageQueue queued_state =
              map_set (msg_id sent_message)
                \<lparr>q_messageId = msg_id sent_message, q_peerId = ''peer-A'',
                 q_envelope = envelope, serialized = data, attempts = 0,
                 nextRetryTime = now_queued offline_world + 1000\<rparr>
                (messageQueue sample_state)"
    by (auto simp: sd)
  from b have "data = sent_bytes"
    by (simp add: queued_state_def stored_state_def sample_state_def queued_entry_def)
  with a have c1: "filter isSendDataCall (newEvents sample_state queued_state)
       = [SendDataCall ''peer-A'' sent_bytes False, SendDataCall ''peer-B'' sent_bytes False]"
    by (simp add: cd sd)
  note tick = retry_queue_lifecycle
    [where s = queued_state and k = "''03142536-4758-497a-8b9c-adbecfe0f102''"
       and q = queued_entry, THEN conjunct2, THEN conjunct1, rule_format, OF conjI [OF q(1,2)]]
  have c2: "map_get (messageQueue (processRetryQueue offline_world queued_state))
        ''03142536-4758-497a-8b9c-adbecfe0f102'' = Some queued_entry"
    using tick [where w = offline_world] by (simp add: t q)
  have c3: "map_get (messageQueue (processRetryQueue online_tick_world queued_state))
        ''03142536-4758-497a-8b9c-adbecfe0f102'' = None"
    and c4: "filter (isStatusFor ''03142536-4758-497a-8b9c-adbecfe0f102'')
        (newEvents queued_state (processRetryQueue online_tick_world queued_state))
       = [MessageStatusCallback ''03142536-4758-497a-8b9c-adbecfe0f102'' Delivered]"
    and c5: "SendDataCall ''peer-B'' sent_bytes True
        \<in> set (newEvents queued_state (processRetryQueue online_tick_world queued_state))"
    using tick [where w = online_tick_world] by (simp_all add: t q qe cd)
  have c6: "map_get (messageQueue (processRetryQueue tick1_world queued_state))
        ''03142536-4758-497a-8b9c-adbecfe0f102''
       = Some (queued_entry\<lparr>attempts := 1, nextRetryTime := 1700000003005\<rparr>)"
    using tick [where w = tick1_world] by (simp add: t q)
  from retry_queue_lifecycle
    [where s = queued_state and k = "''03142536-4758-497a-8b9c-adbecfe0f102''"
       and q = queued_entry and wa = tick1_world and wb = tick2_world and wc = tick3_world,
     THEN conjunct2, THEN conjunct2]
  have c7: "map_get (messageQueue (processRetryQueue tick2_world
          (processRetryQueue tick1_world queued_state)))
        ''03142536-4758-497a-8b9c-adbecfe0f102''
       = Some (queued_entry\<lparr>attempts := 2, nextRetryTime := 1700000007005\<rparr>)"
    and c8: "map_get (messageQueue (processRetryQueue tick3_world (processRetryQueue tick2_world
          (processRetryQueue tick1_world queued_state))))
        ''03142536-4758-497a-8b9c-adbecfe0f102'' = None"
    and c9: "filter (isStatusFor ''03142536-4758-497a-8b9c-adbecfe0f102'')
        (newEvents (processRetryQueue tick2_world (processRetryQueue tick1_world queued_state))
           (processRetryQueue tick3_world (processRetryQueue tick2_world
              (processRetryQueue tick1_world queued_state))))
       = [MessageStatusCallback ''03142536-4758-497a-8b9c-adbecfe0f102'' Failed]"
    by (simp_all add: t q Let_def)
  from sample_send_offline c1 q(2) qe c2 c3 c4 c5 c6 c7 c8 c9 show ?thesis by blast
qed




end
